(* ===== verification/Prelude.thy ===== *)
theory Prelude
  imports Main "HOL-Library.Word"
begin

text \<open>
  Shared material of the development: the machine types and their bytes in memory, the
  outcome monad in which every operation of the program is written, and the list and word
  lemmas the component theories use.

  The modelled target is the one the repository builds for: a little-endian LP64 machine
  (x86-64 Linux). A multi-byte integer occupies memory least significant byte first,
  \<open>size_t\<close> has 64 bits, and unaligned reads through a cast pointer read the bytes that are
  there.

  An operation runs on a state and has one of four outcomes: it returns a value, it throws
  a C++ exception nobody catches, it calls \<open>exit\<close>, or its behaviour is undefined because
  it touches memory outside the object it was given.
\<close>

unbundle bit_operations_syntax

section \<open>Machine types\<close>

type_synonym byte = "8 word"
type_synonym u16 = "16 word"
type_synonym u32 = "32 word"
type_synonym u64 = "64 word"
type_synonym bytes = "byte list"

named_theorems layout_simps \<open>sizes and byte layouts of the structures in memory\<close>
named_theorems prog_simps \<open>rewriting of the outcome monad\<close>

section \<open>Integers in memory\<close>

text \<open>\<open>le_bytes n x\<close> are the \<open>n\<close> bytes an integer of value \<open>x\<close> occupies, \<open>le_nat\<close> reads them.\<close>

primrec le_bytes :: "nat \<Rightarrow> nat \<Rightarrow> bytes" where
  "le_bytes 0 x = []"
| "le_bytes (Suc n) x = word_of_nat (x mod 256) # le_bytes n (x div 256)"

primrec le_nat :: "bytes \<Rightarrow> nat" where
  "le_nat [] = 0"
| "le_nat (b # bs) = unat b + 256 * le_nat bs"

definition mem16 :: "u16 \<Rightarrow> bytes" where
  "mem16 w = le_bytes 2 (unat w)"

definition mem32 :: "u32 \<Rightarrow> bytes" where
  "mem32 w = le_bytes 4 (unat w)"

definition read16 :: "bytes \<Rightarrow> u16" where
  "read16 bs = word_of_nat (le_nat (take 2 bs))"

definition read32 :: "bytes \<Rightarrow> u32" where
  "read32 bs = word_of_nat (le_nat (take 4 bs))"

section \<open>Outcomes\<close>

datatype exn = invalid_argument string | length_error | bad_status_access

datatype ('a, 's) outcome =
    Ret 'a 's
  | Throw exn 's
  | Exit int 's
  | Undef

type_synonym ('s, 'a) prog = "'s \<Rightarrow> ('a, 's) outcome"

definition ret :: "'a \<Rightarrow> ('s, 'a) prog" where
  "ret a = (\<lambda>s. Ret a s)"

definition bnd :: "('s, 'a) prog \<Rightarrow> ('a \<Rightarrow> ('s, 'b) prog) \<Rightarrow> ('s, 'b) prog" where
  "bnd m f = (\<lambda>s. case m s of
     Ret a t \<Rightarrow> f a t
   | Throw e t \<Rightarrow> Throw e t
   | Exit c t \<Rightarrow> Exit c t
   | Undef \<Rightarrow> Undef)"

definition seq :: "('s, unit) prog \<Rightarrow> ('s, 'b) prog \<Rightarrow> ('s, 'b) prog" where
  "seq m n = bnd m (\<lambda>_. n)"

definition gets :: "('s \<Rightarrow> 'a) \<Rightarrow> ('s, 'a) prog" where
  "gets f = (\<lambda>s. Ret (f s) s)"

definition modify :: "('s \<Rightarrow> 's) \<Rightarrow> ('s, unit) prog" where
  "modify f = (\<lambda>s. Ret () (f s))"

definition throw :: "exn \<Rightarrow> ('s, 'a) prog" where
  "throw e = (\<lambda>s. Throw e s)"

definition undef :: "('s, 'a) prog" where
  "undef = (\<lambda>s. Undef)"

definition exit_with :: "int \<Rightarrow> ('s, 'a) prog" where
  "exit_with c = (\<lambda>s. Exit c s)"

text \<open>\<open>only_if b m\<close> is a C \<open>if\<close> without \<open>else\<close>; \<open>checked b m\<close> is a memory access \<open>m\<close>
  that is defined only when \<open>b\<close>.\<close>

definition only_if :: "bool \<Rightarrow> ('s, unit) prog \<Rightarrow> ('s, unit) prog" where
  "only_if b m = (if b then m else ret ())"

definition checked :: "bool \<Rightarrow> ('s, 'a) prog \<Rightarrow> ('s, 'a) prog" where
  "checked b m = (if b then m else undef)"

text \<open>\<open>memcpy buf off src\<close> overwrites \<open>buf\<close> from \<open>off\<close> on; past the end it is undefined.\<close>

definition memcpy :: "bytes \<Rightarrow> nat \<Rightarrow> bytes \<Rightarrow> bytes" where
  "memcpy buf off src = take off buf @ src @ drop (off + length src) buf"

definition memcpy_to :: "bytes \<Rightarrow> nat \<Rightarrow> bytes \<Rightarrow> ('s, bytes) prog" where
  "memcpy_to buf off src = checked (off + length src \<le> length buf) (ret (memcpy buf off src))"

text \<open>Conversion of a signed size to \<open>size_t\<close>, and \<open>size_t\<close> subtraction.\<close>

definition size_t :: "int \<Rightarrow> nat" where
  "size_t i = nat (i mod 2 ^ 64)"

text \<open>The largest \<open>int\<close>; incrementing it is undefined.\<close>

definition int_max :: int where
  "int_max = 2147483647"

text \<open>\<open>zoom get put m\<close> runs \<open>m\<close>, written for a part of the state, on the whole state.\<close>

definition zoom :: "('t \<Rightarrow> 's) \<Rightarrow> ('s \<Rightarrow> 't \<Rightarrow> 't) \<Rightarrow> ('s, 'a) prog \<Rightarrow> ('t, 'a) prog" where
  "zoom get put m = (\<lambda>t. case m (get t) of
     Ret a s \<Rightarrow> Ret a (put s t)
   | Throw e s \<Rightarrow> Throw e (put s t)
   | Exit c s \<Rightarrow> Exit c (put s t)
   | Undef \<Rightarrow> Undef)"

section \<open>Lemmas on bytes\<close>

lemma length_le_bytes [simp]: "length (le_bytes n x) = n"
  by (induction n arbitrary: x) auto

lemma unat_bounds [simp]:
  "unat (b :: byte) < 256" "unat (w :: u16) < 65536" "unat (x :: u32) < 4294967296"
  using unsigned_less[of b, where ?'a = nat] unsigned_less[of w, where ?'a = nat]
    unsigned_less[of x, where ?'a = nat]
  by simp_all

lemma unat_byte_less [simp]: "256 \<le> n \<Longrightarrow> unat (b :: byte) < n"
  by (rule less_le_trans[OF unat_bounds(1)])

lemma unat_u16_less [simp]: "65536 \<le> n \<Longrightarrow> unat (b :: u16) < n"
  by (rule less_le_trans[OF unat_bounds(2)])

lemma unat_byte_le [simp]: "255 \<le> n \<Longrightarrow> unat (b :: byte) \<le> n"
  using unat_bounds(1)[of b] by linarith

lemma unat_byte_not_ge [simp]: "256 \<le> n \<Longrightarrow> \<not> n \<le> unat (b :: byte)"
  by (simp add: not_le)

lemma unat_byte_not_gt [simp]: "255 \<le> n \<Longrightarrow> \<not> n < unat (b :: byte)"
  by (simp add: not_less)

lemma unat_u16_not_ge [simp]: "65536 \<le> n \<Longrightarrow> \<not> n \<le> unat (b :: u16)"
  by (simp add: not_le)

lemma length_2_conv: "length xs = 2 \<longleftrightarrow> (\<exists>a b. xs = [a, b])"
  by (auto simp: length_Suc_conv eval_nat_numeral)

lemma length_4_conv: "length xs = 4 \<longleftrightarrow> (\<exists>a b c d. xs = [a, b, c, d])"
  by (auto simp: length_Suc_conv eval_nat_numeral)

lemma length_6_conv: "length xs = 6 \<longleftrightarrow> (\<exists>a b c d e f. xs = [a, b, c, d, e, f])"
  by (auto simp: length_Suc_conv eval_nat_numeral)

lemma unat_word_of_nat_byte: "unat (word_of_nat (x mod 256) :: byte) = x mod 256"
  by (simp add: unat_of_nat)

lemma le_nat_bound: "le_nat bs < 256 ^ length bs"
proof (induction bs)
  case (Cons b bs)
  have "unat b < 256"
    by simp
  then have "unat b + 256 * le_nat bs < 256 * Suc (le_nat bs)"
    by simp
  also have "\<dots> \<le> 256 * 256 ^ length bs"
    using Cons.IH by (intro mult_le_mono2) simp
  finally show ?case by simp
qed simp

lemma le_nat_le_bytes: "le_nat (le_bytes n x) = x mod 256 ^ n"
proof (induction n arbitrary: x)
  case (Suc n)
  have "le_nat (le_bytes (Suc n) x) = x mod 256 + 256 * (x div 256 mod 256 ^ n)"
    by (simp add: Suc.IH unat_word_of_nat_byte)
  also have "\<dots> = x mod (256 * 256 ^ n)"
    by (simp add: mod_mult2_eq)
  finally show ?case by simp
qed simp

lemma le_bytes_le_nat: "le_bytes (length bs) (le_nat bs) = bs"
proof (induction bs)
  case (Cons b bs)
  have b: "unat b < 256"
    by simp
  have "(unat b + 256 * le_nat bs) mod 256 = unat b"
    using b by simp
  moreover have "(unat b + 256 * le_nat bs) div 256 = le_nat bs"
    using b by simp
  ultimately show ?case
    using Cons.IH by simp
qed simp

lemma le_nat_inj: "length xs = length ys \<Longrightarrow> le_nat xs = le_nat ys \<Longrightarrow> xs = ys"
  by (metis le_bytes_le_nat)

lemma le_nat_append: "le_nat (xs @ ys) = le_nat xs + 256 ^ length xs * le_nat ys"
  by (induction xs) (simp_all add: algebra_simps)

lemma length_mem [layout_simps, simp]:
  "length (mem16 w) = 2" "length (mem32 x) = 4"
  by (simp_all add: mem16_def mem32_def)

lemma read16_mem16 [simp]: "read16 (mem16 w @ rest) = w"
proof -
  have "unat w < 256 ^ 2"
    by simp
  then show ?thesis
    by (simp add: read16_def mem16_def le_nat_le_bytes)
qed

lemma read32_mem32 [simp]: "read32 (mem32 w @ rest) = w"
proof -
  have "unat w < 256 ^ 4"
    by simp
  then show ?thesis
    by (simp add: read32_def mem32_def le_nat_le_bytes)
qed

lemma mem16_read16: "length bs = 2 \<Longrightarrow> mem16 (read16 bs) = bs"
  using le_nat_bound[of bs] le_bytes_le_nat[of bs]
  by (simp add: mem16_def read16_def unat_of_nat)

lemma mem32_read32: "length bs = 4 \<Longrightarrow> mem32 (read32 bs) = bs"
  using le_nat_bound[of bs] le_bytes_le_nat[of bs]
  by (simp add: mem32_def read32_def unat_of_nat)

lemma unat_read16: "unat (read16 [a, b]) = unat a + 256 * unat b"
proof -
  have "unat a + 256 * unat b < 65536"
    using unat_bounds(1)[of a] unat_bounds(1)[of b] by linarith
  then show ?thesis
    by (simp add: read16_def unat_of_nat del: of_nat_add of_nat_mult)
qed

lemma unat_read32:
  "unat (read32 [a, b, c, d]) = unat a + 256 * (unat b + 256 * (unat c + 256 * unat d))"
  using le_nat_bound[of "[a, b, c, d]"]
  by (simp add: read32_def unat_of_nat del: of_nat_add of_nat_mult)

section \<open>Lemmas on exclusive or\<close>

lemma xor_cancel [simp]:
  fixes x y z :: "'a::len word"
  shows "x XOR z = y XOR z \<longleftrightarrow> x = y" "z XOR x = z XOR y \<longleftrightarrow> x = y"
  by (auto simp: bit_eq_iff bit_xor_iff)

lemma xor_not_self: "(x :: 'a::len word) XOR NOT x = - 1"
  by (rule bit_word_eqI) (simp add: bit_xor_iff bit_not_iff)

text \<open>Exclusive or of a small number and a shifted one adds them: the bits do not meet.\<close>

lemma xor_push_bit_nat: "(a::nat) < 2 ^ k \<Longrightarrow> a XOR push_bit k b = a + 2 ^ k * b"
proof -
  assume "a < 2 ^ k"
  then have "take_bit k a = a"
    by (simp add: take_bit_nat_eq_self)
  then have disj: "\<not> bit a n \<or> \<not> bit (push_bit k b) n" for n
    by (metis bit_push_bit_iff_nat bit_take_bit_iff not_le)
  then have "a XOR push_bit k b = a OR push_bit k b"
    by (auto simp: bit_eq_iff bit_or_iff bit_xor_iff)
  also have "\<dots> = a + push_bit k b"
    using disj by (intro disjunctive_add_eq_or[symmetric]) (auto simp: bit_eq_iff bit_and_iff)
  finally show ?thesis
    by (simp add: push_bit_eq_mult mult.commute)
qed

section \<open>Lemmas on the outcome monad\<close>

lemma bnd_simps [prog_simps, simp]:
  "bnd (ret a) f = f a"
  "bnd undef f = undef"
  "bnd (throw e) f = throw e"
  "bnd (exit_with c) f = exit_with c"
  "bnd m ret = m"
  by (auto simp: bnd_def ret_def undef_def throw_def exit_with_def fun_eq_iff
      split: outcome.splits)

lemma bnd_assoc [prog_simps]: "bnd (bnd m f) g = bnd m (\<lambda>a. bnd (f a) g)"
  by (auto simp: bnd_def fun_eq_iff split: outcome.splits)

lemma run_simps [prog_simps, simp]:
  "ret a s = Ret a s" "gets f s = Ret (f s) s" "modify h s = Ret () (h s)"
  "throw e s = Throw e s" "exit_with c s = Exit c s" "undef s = Undef"
  by (simp_all add: ret_def gets_def modify_def throw_def exit_with_def undef_def)

lemma bnd_run_Ret [prog_simps]: "m s = Ret a t \<Longrightarrow> bnd m f s = f a t"
  by (simp add: bnd_def)

lemma bnd_run_if: "bnd m f s = (case m s of Ret a t \<Rightarrow> f a t | Throw e t \<Rightarrow> Throw e t
    | Exit c t \<Rightarrow> Exit c t | Undef \<Rightarrow> Undef)"
  by (simp add: bnd_def)

lemma bnd_Ret_iff: "bnd m f s = Ret b u \<longleftrightarrow> (\<exists>a t. m s = Ret a t \<and> f a t = Ret b u)"
  by (auto simp: bnd_def split: outcome.splits)

lemma only_if_simps [prog_simps, simp]: "only_if True m = m" "only_if False m = ret ()"
  by (simp_all add: only_if_def)

lemma checked_simps [prog_simps, simp]: "checked True m = m" "checked False m = undef"
  by (simp_all add: checked_def)

lemma checked_eq_Ret: "checked b m s = Ret a t \<longleftrightarrow> b \<and> m s = Ret a t"
  by (simp add: checked_def)

lemma seq_run: "seq m n s = (case m s of Ret _ t \<Rightarrow> n t | Throw e t \<Rightarrow> Throw e t
    | Exit c t \<Rightarrow> Exit c t | Undef \<Rightarrow> Undef)"
  by (simp add: seq_def bnd_def)

lemma seq_simps [prog_simps, simp]: "seq (ret u) m = m"
  by (simp add: seq_def)

lemma length_memcpy [simp]: "off + length src \<le> length buf \<Longrightarrow> length (memcpy buf off src) = length buf"
  by (simp add: memcpy_def)

lemma memcpy_memcpy:
  "off + length a + length b \<le> length buf \<Longrightarrow>
   memcpy (memcpy buf off a) (off + length a) b = memcpy buf off (a @ b)"
  by (simp add: memcpy_def add_ac)

lemma memcpy_to_ok [prog_simps, simp]:
  "off + length src \<le> length buf \<Longrightarrow> memcpy_to buf off src = ret (memcpy buf off src)"
  by (simp add: memcpy_to_def)

lemma memcpy_to_overflow [prog_simps]:
  "length buf < off + length src \<Longrightarrow> memcpy_to buf off src = undef"
  by (simp add: memcpy_to_def checked_def)

lemma size_t_nat [simp]: "0 \<le> i \<Longrightarrow> i < 2 ^ 64 \<Longrightarrow> size_t i = nat i"
  by (simp add: size_t_def)

lemma size_t_neg: "- (2 ^ 64) \<le> i \<Longrightarrow> i < 0 \<Longrightarrow> size_t i = nat (2 ^ 64 + i)"
  using mod_add_self1[of "2 ^ 64" i] mod_pos_pos_trivial[of "2 ^ 64 + i" "2 ^ 64"]
  by (simp add: size_t_def)

lemma zoom_Ret: "m (get t) = Ret a s \<Longrightarrow> zoom get put m t = Ret a (put s t)"
  by (simp add: zoom_def)

lemma zoom_Ret_iff:
  "zoom get put m t = Ret a u \<longleftrightarrow> (\<exists>s. m (get t) = Ret a s \<and> u = put s t)"
  by (auto simp: zoom_def split: outcome.splits)

end
