(* ===== verification/Crc32.thy ===== *)
theory Crc32
  imports Prelude
begin

text \<open>
  \<open>crc32\<close> of \<open>eth.cc\<close>: the frame check sequence, computed bit by bit. The lemmas show that
  one bit step is linear over exclusive or and injective; from these follow the residue of
  a message followed by its own check sequence, the equivalence with the table-driven
  algorithm, and the detection of every error within four consecutive bytes.
\<close>

section \<open>Definitions\<close>

text \<open>One turn of the inner loop; \<open>mask = -(crc & 1)\<close> is all ones when the low bit is set.\<close>

definition crc_bit :: "u32 \<Rightarrow> u32" where
  "crc_bit crc = drop_bit 1 crc XOR (0xEDB88320 AND (- (crc AND 1)))"

primrec crc_bits :: "nat \<Rightarrow> u32 \<Rightarrow> u32" where
  "crc_bits 0 crc = crc"
| "crc_bits (Suc j) crc = crc_bits j (crc_bit crc)"

primrec crc_loop :: "u32 \<Rightarrow> bytes \<Rightarrow> u32" where
  "crc_loop crc [] = crc"
| "crc_loop crc (byte # message) = crc_loop (crc_bits 8 (crc XOR ucast byte)) message"

definition crc32 :: "bytes \<Rightarrow> u32" where
  "crc32 message = NOT (crc_loop 0xFFFFFFFF message)"

text \<open>The table-driven reference algorithm: one table entry per value of a byte.\<close>

definition crc_table :: "byte \<Rightarrow> u32" where
  "crc_table i = crc_bits 8 (ucast i)"

definition crc_ref_byte :: "u32 \<Rightarrow> byte \<Rightarrow> u32" where
  "crc_ref_byte crc b = crc_table (ucast crc XOR b) XOR drop_bit 8 crc"

definition crc_ref :: "bytes \<Rightarrow> u32" where
  "crc_ref message = foldl crc_ref_byte 0xFFFFFFFF message XOR 0xFFFFFFFF"

section \<open>One bit step\<close>

lemma mask_bit: "- (crc AND 1) = (if bit crc 0 then - 1 else (0 :: u32))"
  by (simp add: and_one_eq bit_0 of_bool_def odd_iff_mod_2_eq_one)

lemma crc_bit_alt: "crc_bit crc = drop_bit 1 crc XOR (if bit crc 0 then 0xEDB88320 else 0)"
  by (simp add: crc_bit_def mask_bit)

lemma crc_bit_xor: "crc_bit (x XOR y) = crc_bit x XOR crc_bit y"
  by (simp add: crc_bit_alt drop_bit_xor bit_xor_iff ac_simps)

lemma crc_bits_xor: "crc_bits n (x XOR y) = crc_bits n x XOR crc_bits n y"
  by (induction n arbitrary: x y) (simp_all add: crc_bit_xor)

lemma bit_crc_bit_31: "bit (crc_bit x) 31 \<longleftrightarrow> bit x 0"
  by (simp add: crc_bit_alt bit_xor_iff bit_drop_bit_eq impossible_bit)

lemma crc_bit_inj: "crc_bit x = crc_bit y \<longleftrightarrow> x = y"
proof
  assume eq: "crc_bit x = crc_bit y"
  then have b0: "bit x 0 \<longleftrightarrow> bit y 0"
    using bit_crc_bit_31 by metis
  then have d: "drop_bit 1 x = drop_bit 1 y"
    using eq by (auto simp: crc_bit_alt split: if_splits)
  show "x = y"
  proof (rule bit_word_eqI)
    fix n
    show "bit x n \<longleftrightarrow> bit y n"
    proof (cases n)
      case (Suc m)
      then show ?thesis
        using d by (metis One_nat_def bit_drop_bit_eq comp_apply plus_1_eq_Suc)
    qed (simp add: b0)
  qed
qed simp

lemma crc_bits_inj: "crc_bits n x = crc_bits n y \<longleftrightarrow> x = y"
  by (induction n arbitrary: x y) (simp_all add: crc_bit_inj)

lemma crc_bits_shift: "take_bit n x = 0 \<Longrightarrow> crc_bits n x = drop_bit n x"
proof (induction n arbitrary: x)
  case (Suc n)
  have b: "\<not> bit x k" if "k < Suc n" for k
    using Suc.prems that by (metis bit_0_eq bit_take_bit_iff bot_apply bot_bool_def)
  then have "crc_bit x = drop_bit 1 x"
    using b[of 0] by (simp add: crc_bit_alt)
  moreover have "take_bit n (drop_bit 1 x) = 0"
    by (rule bit_word_eqI) (use b in \<open>auto simp: bit_take_bit_iff bit_drop_bit_eq\<close>)
  ultimately show ?case
    using Suc.IH by (simp add: drop_bit_drop_bit)
qed simp

lemma crc_bits_add: "crc_bits (m + n) x = crc_bits n (crc_bits m x)"
  by (induction m arbitrary: x) simp_all

lemma crc_loop_append: "crc_loop c (xs @ ys) = crc_loop (crc_loop c xs) ys"
  by (induction xs arbitrary: c) simp_all

lemma crc_loop_inj: "crc_loop c xs = crc_loop d xs \<longleftrightarrow> c = d"
  by (induction xs arbitrary: c d) (simp_all add: crc_bits_inj)

section \<open>Up to four bytes at once\<close>

lemma crc_bits_xor_byte:
  assumes "n \<le> 24"
  shows "crc_bits n x XOR ucast (b :: byte) = crc_bits n (x XOR push_bit n (ucast b))"
proof -
  have "crc_bits n (push_bit n (ucast b)) = drop_bit n (push_bit n (ucast b))"
    by (rule crc_bits_shift) (simp add: take_bit_push_bit)
  also have "\<dots> = (ucast b :: u32)"
    by (rule bit_word_eqI) (use assms in \<open>auto simp: bit_simps dest: bit_imp_le_length\<close>)
  finally show ?thesis
    by (simp add: crc_bits_xor)
qed

lemma crc_loop_word:
  "length bs \<le> 4 \<Longrightarrow> crc_loop s bs = crc_bits (8 * length bs) (s XOR word_of_nat (le_nat bs))"
proof (induction bs rule: rev_induct)
  case (snoc b bs)
  let ?k = "8 * length bs"
  have pow: "2 ^ ?k = (256::nat) ^ length bs"
    by (simp add: power_mult)
  have "push_bit ?k (word_of_nat (unat b)) = (word_of_nat (push_bit ?k (unat b)) :: u32)"
    by (simp only: push_bit_of_nat)
  then have "word_of_nat (le_nat bs) XOR push_bit ?k (ucast b)
      = (word_of_nat (le_nat bs XOR push_bit ?k (unat b)) :: u32)"
    by (simp add: of_nat_xor_eq)
  also have "le_nat bs XOR push_bit ?k (unat b) = le_nat (bs @ [b])"
    using le_nat_bound[of bs] by (subst xor_push_bit_nat) (simp_all add: pow le_nat_append)
  finally have val: "word_of_nat (le_nat bs) XOR push_bit ?k (ucast b)
      = (word_of_nat (le_nat (bs @ [b])) :: u32)" .
  have "crc_loop s (bs @ [b]) = crc_bits 8 (crc_bits ?k (s XOR word_of_nat (le_nat bs)) XOR ucast b)"
    using snoc by (simp add: crc_loop_append)
  also have "\<dots> = crc_bits (?k + 8) (s XOR word_of_nat (le_nat bs) XOR push_bit ?k (ucast b))"
    using snoc.prems by (simp add: crc_bits_xor_byte crc_bits_add xor.assoc)
  finally show ?case
    using val by (simp add: xor.assoc add.commute)
qed simp

lemma word_of_le_nat_inj:
  assumes "length xs = length ys" "length xs \<le> 4" "word_of_nat (le_nat xs) = (word_of_nat (le_nat ys) :: u32)"
  shows "xs = ys"
proof -
  have "le_nat xs < 2 ^ 32" "le_nat ys < 2 ^ 32"
    using le_nat_bound[of xs] le_nat_bound[of ys] assms(1,2)
      power_increasing[of "length xs" 4 "256::nat"] by simp_all
  then have "le_nat xs = unat (word_of_nat (le_nat xs) :: u32)"
    "le_nat ys = unat (word_of_nat (le_nat ys) :: u32)"
    by (simp_all add: unat_of_nat)
  then have "le_nat xs = le_nat ys"
    using assms(3) by simp
  then show ?thesis
    using assms(1) by (intro le_nat_inj)
qed

lemma crc_loop_burst_inj:
  assumes "length d = length d'" "length d \<le> 4"
  shows "crc_loop c (a @ d @ b) = crc_loop c (a @ d' @ b) \<longleftrightarrow> d = d'"
proof
  assume "crc_loop c (a @ d @ b) = crc_loop c (a @ d' @ b)"
  then have "crc_loop (crc_loop c a) d = crc_loop (crc_loop c a) d'"
    by (simp add: crc_loop_append crc_loop_inj)
  then show "d = d'"
    using assms word_of_le_nat_inj[of d d'] by (simp add: crc_loop_word crc_bits_inj)
qed simp

lemma crc_bits_32_ones: "crc_bits 32 (- 1) = 0xDEBB20E3"
  by code_simp

section \<open>The table-driven algorithm\<close>

lemma crc_byte_table: "crc_bits 8 (crc XOR ucast b) = crc_ref_byte crc b"
proof -
  let ?hi = "push_bit 8 (drop_bit 8 crc)"
  have split: "crc XOR ucast b = ucast (ucast crc XOR b :: byte) XOR ?hi"
    by (rule bit_word_eqI) (auto simp: bit_simps dest: bit_imp_le_length)
  have "crc_bits 8 ?hi = drop_bit 8 ?hi"
    by (rule crc_bits_shift) (simp add: take_bit_push_bit)
  also have "\<dots> = drop_bit 8 crc"
    by (rule bit_word_eqI) (auto simp: bit_simps dest: bit_imp_le_length)
  finally show ?thesis
    unfolding split by (simp add: crc_bits_xor crc_ref_byte_def crc_table_def)
qed

lemma crc_loop_ref: "crc_loop crc bs = foldl crc_ref_byte crc bs"
  by (induction bs arbitrary: crc) (simp_all add: crc_byte_table)

text \<open>The register reaches the same value whatever the message was.\<close>

lemma crc32_residue: "crc32 (m @ mem32 (crc32 m)) = 0x2144DF1C"
proof -
  let ?s = "crc_loop 0xFFFFFFFF m"
  have "word_of_nat (le_nat (mem32 (crc32 m))) = NOT ?s"
    using read32_mem32[of "crc32 m" "[]"] by (simp add: read32_def crc32_def)
  then have "crc_loop ?s (mem32 (crc32 m)) = crc_bits 32 (- 1)"
    by (simp add: crc_loop_word xor_not_self)
  then show ?thesis
    by (simp add: crc32_def crc_loop_append crc_bits_32_ones)
qed

section \<open>Properties\<close>

lemma crc32_is_crc_ref: "crc32 message = crc_ref message"
proof -
  have "(0xFFFFFFFF :: u32) = - 1"
    by simp
  then have "NOT x = x XOR 0xFFFFFFFF" for x :: u32
    by (simp only:) (simp add: bit_eq_iff bit_not_iff bit_xor_iff)
  then show ?thesis
    by (simp only: crc32_def crc_ref_def crc_loop_ref)
qed

text \<open>C10. The bitwise loop computes the CRC-32 of the Ethernet standard: it agrees with the
  table-driven algorithm on every message, and gives the published check value 0xCBF43926
  for the text "123456789".\<close>

theorem crc32_table_driven:
  "crc32 message = crc_ref message
   \<and> crc32 [0x31, 0x32, 0x33, 0x34, 0x35, 0x36, 0x37, 0x38, 0x39] = 0xCBF43926"
proof
  show "crc32 message = crc_ref message"
    by (rule crc32_is_crc_ref)
  show "crc32 [0x31, 0x32, 0x33, 0x34, 0x35, 0x36, 0x37, 0x38, 0x39] = 0xCBF43926"
    by code_simp
qed

text \<open>C18. Two messages that differ only within four consecutive bytes have different CRCs:
  the check sequence detects every such error, wherever it is.\<close>

theorem crc32_detects_burst:
  assumes "length d = length d'" "length d \<le> 4" "d \<noteq> d'"
  shows "crc32 (a @ d @ b) \<noteq> crc32 (a @ d' @ b)"
proof -
  have "crc_loop 0xFFFFFFFF (a @ d @ b) \<noteq> crc_loop 0xFFFFFFFF (a @ d' @ b)"
    using crc_loop_burst_inj[OF assms(1,2)] assms(3) by blast
  then show ?thesis
    unfolding crc32_def by (metis bit.double_compl)
qed

theorem crc32_detects_burst_witness: "crc32 ([1] @ [2, 3] @ [4]) \<noteq> crc32 ([1] @ [2, 7] @ [4])"
  by (rule crc32_detects_burst) simp_all

end
