(* ===== verification/Libc.thy ===== *)
theory Libc
  imports Prelude
begin

text \<open>
  The parts of the C library that the program calls and whose results its behaviour
  depends on: the \<open>printf\<close> conversions it uses, \<open>sscanf\<close> with \<open>%hhx\<close>, the dotted
  decimal conversions \<open>inet_ntoa\<close> and \<open>inet_addr\<close>, and the byte order functions. The
  lemmas show that printing a number and scanning it again gives the number back.
\<close>

section \<open>Byte order\<close>

definition htons :: "u16 \<Rightarrow> u16" where
  "htons w = read16 (rev (mem16 w))"

definition ntohs :: "u16 \<Rightarrow> u16" where
  "ntohs w = read16 (rev (mem16 w))"

definition htonl :: "u32 \<Rightarrow> u32" where
  "htonl w = read32 (rev (mem32 w))"

definition ntohl :: "u32 \<Rightarrow> u32" where
  "ntohl w = read32 (rev (mem32 w))"

section \<open>Digits\<close>

definition digit_char :: "bool \<Rightarrow> nat \<Rightarrow> char" where
  "digit_char upper d = char_of (if d < 10 then 48 + d else if upper then 55 + d else 87 + d)"

definition digit_val :: "char \<Rightarrow> nat option" where
  "digit_val c = (let n = of_char c :: nat in
     if 48 \<le> n \<and> n \<le> 57 then Some (n - 48)
     else if 97 \<le> n \<and> n \<le> 102 then Some (n - 87)
     else if 65 \<le> n \<and> n \<le> 70 then Some (n - 55)
     else None)"

definition digit_in :: "nat \<Rightarrow> char \<Rightarrow> bool" where
  "digit_in base c = (case digit_val c of None \<Rightarrow> False | Some d \<Rightarrow> d < base)"

fun print_num :: "nat \<Rightarrow> bool \<Rightarrow> nat \<Rightarrow> string" where
  "print_num base upper n =
     (if n < base \<or> base < 2 then [digit_char upper n]
      else print_num base upper (n div base) @ [digit_char upper (n mod base)])"

declare print_num.simps [simp del]

fun scan_num :: "nat \<Rightarrow> nat \<Rightarrow> string \<Rightarrow> nat \<times> string" where
  "scan_num base acc [] = (acc, [])"
| "scan_num base acc (c # cs) =
     (case digit_val c of
        None \<Rightarrow> (acc, c # cs)
      | Some d \<Rightarrow> if d < base then scan_num base (base * acc + d) cs else (acc, c # cs))"

definition is_space :: "char \<Rightarrow> bool" where
  "is_space c = (let n = of_char c :: nat in n = 32 \<or> 9 \<le> n \<and> n \<le> 13)"

section \<open>printf\<close>

text \<open>Arguments of a conversion: an integer (already promoted) or a string.\<close>

datatype fmt_arg = FInt int | FStr string

definition pad_left :: "nat \<Rightarrow> char \<Rightarrow> string \<Rightarrow> string" where
  "pad_left n c s = replicate (n - length s) c @ s"

text \<open>One conversion: zero flag, width, precision (for integers: least number of digits).\<close>

definition convert :: "bool \<Rightarrow> nat \<Rightarrow> nat \<Rightarrow> char \<Rightarrow> fmt_arg \<Rightarrow> string" where
  "convert zero width prec k a = (case a of
     FStr s \<Rightarrow> pad_left width CHR '' '' s
   | FInt i \<Rightarrow>
       if k = CHR ''c'' then pad_left width CHR '' '' [char_of (nat i)]
       else
         (let base = (if k = CHR ''x'' \<or> k = CHR ''X'' then 16 else 10);
              ds = pad_left prec CHR ''0'' (print_num base (k = CHR ''X'') (nat \<bar>i\<bar>));
              sign = (if i < 0 then ''-'' else '''')
          in if zero then sign @ pad_left (width - length sign) CHR ''0'' ds
             else pad_left width CHR '' '' (sign @ ds)))"

text \<open>
  The format string is read character by character. In the conversion part \<open>zero\<close>,
  \<open>width\<close> and \<open>prec\<close> collect the flags, \<open>dot\<close> records that the precision has begun;
  the length modifiers \<open>h\<close> and \<open>l\<close> change nothing, since arguments are integers here.
\<close>

fun format_text :: "string \<Rightarrow> fmt_arg list \<Rightarrow> string"
and format_spec :: "bool \<Rightarrow> bool \<Rightarrow> nat \<Rightarrow> nat \<Rightarrow> string \<Rightarrow> fmt_arg list \<Rightarrow> string" where
  "format_text [] as = []"
| "format_text (c # cs) as =
     (if c = CHR ''%'' then format_spec False False 0 0 cs as else c # format_text cs as)"
| "format_spec zero dot width prec [] as = []"
| "format_spec zero dot width prec (c # cs) as =
     (if c = CHR ''.'' then format_spec zero True width prec cs as
      else if c = CHR ''0'' \<and> width = 0 \<and> \<not> dot then format_spec True dot width prec cs as
      else if c = CHR ''l'' \<or> c = CHR ''h'' then format_spec zero dot width prec cs as
      else if c = CHR ''%'' then c # format_text cs as
      else if digit_in 10 c then
        (if dot then format_spec zero dot width (10 * prec + the (digit_val c)) cs as
         else format_spec zero dot (10 * width + the (digit_val c)) prec cs as)
      else (case as of
              [] \<Rightarrow> format_text cs []
            | a # as' \<Rightarrow> convert zero width prec c a @ format_text cs as'))"

definition sprintf :: "string \<Rightarrow> fmt_arg list \<Rightarrow> string" where
  "sprintf fmt as = format_text fmt as"

section \<open>sscanf with %hhx\<close>

text \<open>
  A hexadecimal field: leading space is skipped, a sign and a \<open>0x\<close> prefix are accepted,
  the number is computed in an \<open>unsigned long\<close> (saturating) and stored in one byte.
\<close>

definition scan_sign :: "string \<Rightarrow> bool \<times> string" where
  "scan_sign s = (case s of
     [] \<Rightarrow> (False, [])
   | c # cs \<Rightarrow> if c = CHR ''-'' then (True, cs) else if c = CHR ''+'' then (False, cs)
               else (False, s))"

definition scan_0x :: "string \<Rightarrow> string" where
  "scan_0x s = (case s of
     c0 # c1 # cs \<Rightarrow> if c0 = CHR ''0'' \<and> (c1 = CHR ''x'' \<or> c1 = CHR ''X'') then cs else s
   | _ \<Rightarrow> s)"

definition scan_hhx :: "string \<Rightarrow> (byte \<times> string) option" where
  "scan_hhx s =
     (let (neg, s2) = scan_sign (dropWhile is_space s);
          s3 = scan_0x s2
      in case s3 of
           [] \<Rightarrow> None
         | c # _ \<Rightarrow>
             if digit_in 16 c then
               (let (v, rest) = scan_num 16 0 s3
                in Some (if 2 ^ 64 \<le> v then -1
                         else if neg then - word_of_nat v else word_of_nat v, rest))
             else None)"

text \<open>\<open>%hhx:%hhx:\<dots>\<close> with \<open>n\<close> fields: the values assigned before the first mismatch.\<close>

fun sscanf_hhx :: "nat \<Rightarrow> string \<Rightarrow> bytes" where
  "sscanf_hhx 0 s = []"
| "sscanf_hhx (Suc n) s =
     (case scan_hhx s of
        None \<Rightarrow> []
      | Some (b, rest) \<Rightarrow>
          b # (case rest of
                 [] \<Rightarrow> []
               | c # cs \<Rightarrow> if n > 0 \<and> c = CHR '':'' then sscanf_hhx n cs else []))"

section \<open>Dotted decimal addresses\<close>

text \<open>An \<open>in_addr\<close> is four bytes in memory; \<open>inet_ntoa\<close> prints them in that order.\<close>

definition inet_ntoa :: "u32 \<Rightarrow> string" where
  "inet_ntoa a = sprintf ''%d.%d.%d.%d'' (map (\<lambda>b. FInt (uint b)) (mem32 a))"

text \<open>\<open>strtoul\<close> with base 0 at a digit: hexadecimal after \<open>0x\<close>, octal after \<open>0\<close>, else decimal.\<close>

definition strtoul0 :: "string \<Rightarrow> nat \<times> string" where
  "strtoul0 s = (case s of
     c0 # c1 # c2 # cs \<Rightarrow>
       if c0 = CHR ''0'' \<and> (c1 = CHR ''x'' \<or> c1 = CHR ''X'') \<and> digit_in 16 c2
       then scan_num 16 0 (c2 # cs)
       else if c0 = CHR ''0'' then scan_num 8 0 s else scan_num 10 0 s
   | c0 # _ \<Rightarrow> if c0 = CHR ''0'' then scan_num 8 0 s else scan_num 10 0 s
   | [] \<Rightarrow> (0, []))"

text \<open>
  \<open>inet_addr\<close>: up to four numbers separated by dots, the last of which fills the bytes
  that are left; the text may be followed by white space. \<open>done\<close> holds the bytes read so
  far. A malformed text gives \<open>INADDR_NONE\<close>.
\<close>

function inet_parts :: "bytes \<Rightarrow> string \<Rightarrow> u32 option" where
  "inet_parts parts s =
     (case s of
        [] \<Rightarrow> None
      | c # _ \<Rightarrow>
          if \<not> digit_in 10 c then None
          else
            (let (v, rest) = strtoul0 s in
             if 2 ^ 32 \<le> v then None
             else (case rest of
                     [] \<Rightarrow>
                       if v < 256 ^ (4 - length parts)
                       then Some (read32 (parts @ rev (le_bytes (4 - length parts) v))) else None
                   | d # ds \<Rightarrow>
                       if d = CHR ''.'' then
                         (if 2 < length parts \<or> 255 < v then None
                          else inet_parts (parts @ [word_of_nat v]) ds)
                       else if is_space d then
                         (if v < 256 ^ (4 - length parts)
                          then Some (read32 (parts @ rev (le_bytes (4 - length parts) v)))
                          else None)
                       else None)))"
  by pat_completeness auto
termination
  by (relation "measure (\<lambda>(parts, s). 4 - length parts)") auto

declare inet_parts.simps [simp del]

definition INADDR_NONE :: u32 where
  "INADDR_NONE = 0xFFFFFFFF"

definition inet_addr :: "string \<Rightarrow> u32" where
  "inet_addr s = (case inet_parts [] s of None \<Rightarrow> INADDR_NONE | Some a \<Rightarrow> a)"

text \<open>The characters of a \<open>std::string\<close> that \<open>c_str()\<close> shows to a C function.\<close>

definition c_str :: "string \<Rightarrow> string" where
  "c_str s = takeWhile (\<lambda>c. c \<noteq> CHR 0x00) s"

section \<open>Lemmas\<close>

lemma mem16_htons: "mem16 (htons w) = rev (mem16 w)"
  by (simp add: htons_def mem16_read16)

lemma mem32_htonl: "mem32 (htonl w) = rev (mem32 w)"
  by (simp add: htonl_def mem32_read32)

lemma ntohs_htons [simp]: "ntohs (htons w) = w"
  using read16_mem16[of w "[]"] by (simp add: ntohs_def mem16_htons)

lemma htons_ntohs [simp]: "htons (ntohs w) = w"
  using ntohs_htons[of w] by (simp add: ntohs_def htons_def)

lemma ntohl_htonl [simp]: "ntohl (htonl w) = w"
  using read32_mem32[of w "[]"] by (simp add: ntohl_def mem32_htonl)

lemma digit_val_digit_char [simp]: "d < 16 \<Longrightarrow> digit_val (digit_char upper d) = Some d"
  by (auto simp: digit_val_def digit_char_def Let_def)

lemma digit_in_digit_char [simp]: "base \<le> 16 \<Longrightarrow> d < base \<Longrightarrow> digit_in base (digit_char upper d)"
  by (simp add: digit_in_def)

lemma print_num_digits:
  "2 \<le> base \<Longrightarrow> base \<le> 16 \<Longrightarrow> c \<in> set (print_num base upper n) \<Longrightarrow> digit_in base c"
proof (induction base upper n rule: print_num.induct)
  case (1 base upper n)
  then show ?case
    by (cases "n < base") (auto simp: print_num.simps[of base upper n])
qed

lemma print_num_nonempty: "print_num base upper n \<noteq> []"
  by (subst print_num.simps) simp

lemma scan_num_snoc:
  "d < base \<Longrightarrow> base \<le> 16 \<Longrightarrow>
   scan_num base acc (digit_char upper d # rest) = scan_num base (base * acc + d) rest"
  by simp

lemma scan_print_num:
  assumes "2 \<le> base" "base \<le> 16"
  shows "scan_num base acc (print_num base upper n @ rest)
    = scan_num base (base ^ length (print_num base upper n) * acc + n) rest"
  using assms
proof (induction base upper n arbitrary: acc rest rule: print_num.induct)
  case (1 base upper n)
  show ?case
  proof (cases "n < base")
    case True
    then show ?thesis
      using "1.prems" by (simp add: print_num.simps[of base upper n])
  next
    case False
    let ?p = "print_num base upper (n div base)"
    have split: "print_num base upper n = ?p @ [digit_char upper (n mod base)]"
      using False "1.prems" by (simp add: print_num.simps[of base upper n])
    have "scan_num base acc (print_num base upper n @ rest)
        = scan_num base (base ^ length ?p * acc + n div base) (digit_char upper (n mod base) # rest)"
      using "1.IH" False "1.prems" by (simp add: split)
    also have "\<dots> = scan_num base (base * (base ^ length ?p * acc + n div base) + n mod base) rest"
      using "1.prems" by (intro scan_num_snoc) auto
    also have "base * (base ^ length ?p * acc + n div base) + n mod base
        = base ^ length (print_num base upper n) * acc + n"
      by (simp add: split algebra_simps)
    finally show ?thesis .
  qed
qed

lemma scan_num_stop: "rest = [] \<or> \<not> digit_in base (hd rest) \<Longrightarrow> scan_num base acc rest = (acc, rest)"
  by (cases rest) (auto simp: digit_in_def split: option.splits)

text \<open>Printing and scanning in a base of at most 16 are inverse.\<close>

lemma scan_printed:
  assumes "2 \<le> base" "base \<le> 16" "rest = [] \<or> \<not> digit_in base (hd rest)"
  shows "scan_num base 0 (print_num base upper n @ rest) = (n, rest)"
  using scan_num_stop[OF assms(3)] scan_print_num[OF assms(1,2)] by simp

lemma print_num_small: "n < base \<Longrightarrow> print_num base upper n = [digit_char upper n]"
  by (subst print_num.simps) simp

lemma print_num_length_bound:
  "2 \<le> base \<Longrightarrow> n < base ^ Suc k \<Longrightarrow> length (print_num base upper n) \<le> Suc k"
proof (induction k arbitrary: n)
  case 0
  then show ?case by (simp add: print_num_small)
next
  case (Suc k)
  have "n div base < base ^ Suc k"
    using Suc.prems by (simp add: less_mult_imp_div_less mult.commute)
  then have "length (print_num base upper (n div base)) \<le> Suc k"
    using Suc.IH Suc.prems by simp
  then show ?case
    by (subst print_num.simps) simp
qed

lemma scan_replicate_0:
  "1 < base \<Longrightarrow> scan_num base 0 (replicate k CHR ''0'' @ s) = scan_num base 0 s"
  by (induction k) (auto simp: digit_val_def)

lemma pad_left_length: "length s \<le> n \<Longrightarrow> length (pad_left n c s) = n"
  by (simp add: pad_left_def)

text \<open>\<open>hex02 b\<close> is what \<open>%02x\<close> prints for a byte: exactly two digits that read back as the byte.\<close>

definition hex02 :: "byte \<Rightarrow> string" where
  "hex02 b = pad_left 2 CHR ''0'' (print_num 16 False (unat b))"

lemma sprintf_hex02: "sprintf ''%02x'' [FInt (uint b)] = hex02 b"
  by (simp add: sprintf_def convert_def hex02_def digit_in_def digit_val_def pad_left_def Let_def numeral_2_eq_2)

lemma length_hex02 [simp]: "length (hex02 b) = 2"
  using print_num_length_bound[of 16 "unat b" 1 False]
  by (simp add: hex02_def pad_left_length)

lemma hex02_digits: "c \<in> set (hex02 b) \<Longrightarrow> digit_in 16 c"
  using print_num_digits[of 16 c False "unat b"]
  by (auto simp: hex02_def pad_left_def digit_in_def digit_val_def split: if_splits)

lemma scan_hex02:
  "rest = [] \<or> \<not> digit_in 16 (hd rest) \<Longrightarrow> scan_num 16 0 (hex02 b @ rest) = (unat b, rest)"
  by (simp add: hex02_def pad_left_def scan_replicate_0 scan_printed)

lemma digit_in_not_space: "digit_in base c \<Longrightarrow> \<not> is_space c"
  by (auto simp: digit_in_def digit_val_def is_space_def Let_def split: if_splits)

lemma digit_in_not_sign: "digit_in base c \<Longrightarrow> c \<noteq> CHR ''-'' \<and> c \<noteq> CHR ''+'' \<and> c \<noteq> CHR ''x'' \<and> c \<noteq> CHR ''X''"
  by (auto simp: digit_in_def digit_val_def Let_def)

lemma hex02_cases:
  obtains c0 c1 where "hex02 b = [c0, c1]" "digit_in 16 c0" "digit_in 16 c1"
proof -
  obtain c0 c1 where cs: "hex02 b = [c0, c1]"
    using length_hex02[of b] by (metis (no_types, lifting) One_nat_def Suc_1 length_0_conv length_Suc_conv)
  then have "digit_in 16 c0" "digit_in 16 c1"
    using hex02_digits[of _ b] by auto
  with cs show ?thesis by (rule that)
qed

lemma scan_hhx_hex02:
  assumes "rest = [] \<or> \<not> digit_in 16 (hd rest)"
  shows "scan_hhx (hex02 b @ rest) = Some (b, rest)"
proof -
  obtain c0 c1 where c: "hex02 b = [c0, c1]" "digit_in 16 c0" "digit_in 16 c1"
    by (rule hex02_cases)
  have "scan_num 16 0 (c0 # c1 # rest) = (unat b, rest)"
    using scan_hex02[OF assms, of b] c by simp
  moreover have "unat b < 2 ^ 64"
    by simp
  ultimately show ?thesis
    using c digit_in_not_space[OF c(2)] digit_in_not_sign[OF c(2)] digit_in_not_sign[OF c(3)]
    by (simp add: scan_hhx_def scan_sign_def scan_0x_def)
qed

lemma print_num_leading:
  "2 \<le> base \<Longrightarrow> base \<le> 16 \<Longrightarrow> 0 < n \<Longrightarrow> hd (print_num base upper n) \<noteq> CHR ''0''"
proof (induction base upper n rule: print_num.induct)
  case (1 base upper n)
  show ?case
  proof (cases "n < base")
    case True
    then have "digit_val (hd (print_num base upper n)) = Some n"
      using "1.prems" by (simp add: print_num_small)
    then show ?thesis
      using "1.prems" by (auto simp: digit_val_def)
  next
    case False
    then have "0 < n div base"
      using "1.prems" by (simp add: div_greater_zero_iff)
    then show ?thesis
      using "1.IH" False "1.prems" print_num_nonempty[of base upper "n div base"]
      by (simp add: print_num.simps[of base upper n])
  qed
qed

lemma strtoul0_printed:
  assumes "rest = [] \<or> hd rest = CHR ''.''"
  shows "strtoul0 (print_num 10 False n @ rest) = (n, rest)"
proof (cases "n = 0")
  case True
  then show ?thesis
    using assms by (cases rest) (auto simp: strtoul0_def print_num_small digit_char_def digit_val_def split: list.splits)
next
  case False
  obtain c cs where p: "print_num 10 False n = c # cs"
    using print_num_nonempty by (meson neq_Nil_conv)
  have "c \<noteq> CHR ''0''"
    using print_num_leading[of 10 n False] False by (simp add: p)
  then have "strtoul0 (print_num 10 False n @ rest) = scan_num 10 0 (print_num 10 False n @ rest)"
    by (simp add: p strtoul0_def split: list.splits)
  moreover have "rest = [] \<or> \<not> digit_in 10 (hd rest)"
    using assms by (auto simp: digit_in_def digit_val_def)
  ultimately show ?thesis
    by (simp add: scan_printed)
qed


text \<open>\<open>dec b\<close> is what \<open>%d\<close> prints for a byte.\<close>

definition dec :: "byte \<Rightarrow> string" where
  "dec b = print_num 10 False (unat b)"

lemma sprintf_dec: "convert False 0 0 CHR ''d'' (FInt (uint b)) = dec b"
  by (simp add: convert_def pad_left_def dec_def Let_def)

lemma mem32_cases: obtains b0 b1 b2 b3 where "mem32 a = [b0, b1, b2, b3]"
  using length_mem(2)[of a] unfolding length_4_conv by blast

lemma inet_ntoa_eq:
  "mem32 a = [b0, b1, b2, b3] \<Longrightarrow>
   inet_ntoa a = dec b0 @ ''.'' @ dec b1 @ ''.'' @ dec b2 @ ''.'' @ dec b3"
  by (simp add: inet_ntoa_def sprintf_def sprintf_dec digit_in_def digit_val_def)

lemma length_dec: "length (dec b) \<le> 3"
  using print_num_length_bound[of 10 "unat b" 2 False] by (simp add: dec_def)

lemma length_inet_ntoa: "length (inet_ntoa a) \<le> 15"
proof -
  obtain b0 b1 b2 b3 where "mem32 a = [b0, b1, b2, b3]"
    by (rule mem32_cases)
  then show ?thesis
    using length_dec[of b0] length_dec[of b1] length_dec[of b2] length_dec[of b3] by (simp add: inet_ntoa_eq)
qed

lemma dec_digits: "c \<in> set (dec b) \<Longrightarrow> digit_in 10 c"
  unfolding dec_def by (rule print_num_digits) auto

lemma inet_parts_dot:
  assumes "length parts \<le> 2"
  shows "inet_parts parts (dec b @ CHR ''.'' # s) = inet_parts (parts @ [b]) s"
proof -
  obtain c cs where p: "dec b = c # cs"
    using print_num_nonempty[of 10 False "unat b"] by (auto simp: dec_def neq_Nil_conv)
  have "digit_in 10 c"
    using dec_digits[of c b] p by simp
  moreover have "strtoul0 (dec b @ CHR ''.'' # s) = (unat b, CHR ''.'' # s)"
    by (simp add: dec_def strtoul0_printed)
  moreover have "unat b \<le> 255" "unat b < 2 ^ 32"
    by simp_all
  ultimately show ?thesis
    using assms p by (subst inet_parts.simps) simp
qed

lemma inet_parts_last:
  "inet_parts [b0, b1, b2] (dec b) = Some (read32 [b0, b1, b2, b])"
proof -
  obtain c cs where p: "dec b = c # cs"
    using print_num_nonempty[of 10 False "unat b"] by (auto simp: dec_def neq_Nil_conv)
  have "digit_in 10 c"
    using dec_digits[of c b] p by simp
  moreover have "strtoul0 (dec b) = (unat b, [])"
    using strtoul0_printed[of "[]" "unat b"] by (simp add: dec_def)
  moreover have "unat b < 2 ^ 32" "unat b mod 256 = unat b"
    by simp_all
  ultimately show ?thesis
    using p by (subst inet_parts.simps) simp
qed

text \<open>Every address survives being printed and parsed.\<close>

lemma inet_addr_inet_ntoa: "inet_addr (inet_ntoa a) = a"
proof -
  obtain b0 b1 b2 b3 where m: "mem32 a = [b0, b1, b2, b3]"
    by (rule mem32_cases)
  have "inet_parts [] (inet_ntoa a) = Some (read32 [b0, b1, b2, b3])"
    by (simp add: inet_ntoa_eq[OF m] inet_parts_dot inet_parts_last)
  moreover have "read32 [b0, b1, b2, b3] = a"
    using read32_mem32[of a "[]"] m by simp
  ultimately show ?thesis
    by (simp add: inet_addr_def)
qed

lemma inet_ntoa_chars: "c \<in> set (inet_ntoa a) \<Longrightarrow> digit_in 10 c \<or> c = CHR ''.''"
  by (rule mem32_cases[of a]) (auto simp: inet_ntoa_eq dest: dec_digits)

end
