(* ===== verification/Net.thy ===== *)
theory Net
  imports Libc
begin

text \<open>
  \<open>netint.h\<close> and \<open>net.h\<close>: the network byte order integers, the MAC and IP address types
  with their orders and their text forms, and the process state every layer above reads and
  writes (command line flags, standard output, \<open>errno\<close>, files, and the state \<open>net\<close> of
  whatever is behind the sockets).

  Abseil's \<open>StrFormat\<close> and the C library's \<open>strerror\<close> are outside the repository. They are
  fields of the record \<open>ext\<close>, an argument of every definition that uses them. The locale
  \<open>absl_format\<close> states the one documented behaviour of \<open>StrFormat\<close> that the program's
  stored data relies on: it prints a byte under \<open>%02x\<close> as \<open>printf\<close> does.
\<close>

section \<open>Definitions: netint.h\<close>

datatype uint16_net = Uint16_net (be_val: u16)

definition uint16_net :: "u16 \<Rightarrow> uint16_net" where
  "uint16_net val = Uint16_net (htons val)"

definition uint16_of_net :: "uint16_net \<Rightarrow> u16" where
  "uint16_of_net n = ntohs (be_val n)"

definition uint16_net_assign :: "u16 \<Rightarrow> uint16_net \<Rightarrow> uint16_net" where
  "uint16_net_assign val n = Uint16_net (htons val)"

text \<open>The member of \<open>uint32_net\<close> is declared \<open>uint16_t\<close>: the initialiser is truncated.\<close>

datatype uint32_net = Uint32_net (be_val32: u16)

definition uint32_net :: "u32 \<Rightarrow> uint32_net" where
  "uint32_net val = Uint32_net (ucast (htonl val))"

definition uint32_of_net :: "uint32_net \<Rightarrow> u32" where
  "uint32_of_net n = ntohl (ucast (be_val32 n))"

definition mem_net16 :: "uint16_net \<Rightarrow> bytes" where
  "mem_net16 n = mem16 (be_val n)"

definition read_net16 :: "bytes \<Rightarrow> uint16_net" where
  "read_net16 bs = Uint16_net (read16 bs)"

section \<open>Definitions: code outside the repository\<close>

datatype MacAddr = MacAddr byte byte byte byte byte byte

record ext =
  StrFormat :: "string \<Rightarrow> fmt_arg list \<Rightarrow> string"
  strerror :: "int \<Rightarrow> string"
  uninit_mac :: MacAddr \<comment> \<open>what an uninitialised \<open>MacAddr\<close> happens to hold\<close>

section \<open>Definitions: MacAddr and IpAddr\<close>

definition kMacAddrLen :: nat where
  "kMacAddrLen = 6"

definition kIpAddrLen :: nat where
  "kIpAddrLen = 4"

primrec mac_bytes :: "MacAddr \<Rightarrow> bytes" where
  "mac_bytes (MacAddr a b c d e f) = [a, b, c, d, e, f]"

definition mac_of_bytes :: "bytes \<Rightarrow> MacAddr" where
  "mac_of_bytes bs = MacAddr (bs ! 0) (bs ! 1) (bs ! 2) (bs ! 3) (bs ! 4) (bs ! 5)"

fun memcmp :: "bytes \<Rightarrow> bytes \<Rightarrow> int" where
  "memcmp (x # xs) (y # ys) = (if x = y then memcmp xs ys else if x < y then -1 else 1)"
| "memcmp _ _ = 0"

definition MacAddr_eq :: "MacAddr \<Rightarrow> MacAddr \<Rightarrow> bool" where
  "MacAddr_eq a b \<longleftrightarrow> memcmp (mac_bytes a) (mac_bytes b) = 0"

definition MacAddr_less :: "MacAddr \<Rightarrow> MacAddr \<Rightarrow> bool" where
  "MacAddr_less a b \<longleftrightarrow> memcmp (mac_bytes a) (mac_bytes b) < 0"

definition mac_format :: string where
  "mac_format = ''%02x:%02x:%02x:%02x:%02x:%02x''"

definition MacAddr_str :: "ext \<Rightarrow> MacAddr \<Rightarrow> string" where
  "MacAddr_str E m = StrFormat E mac_format (map (\<lambda>b. FInt (uint b)) (mac_bytes m))"

definition MacAddr_to_string :: "ext \<Rightarrow> MacAddr \<Rightarrow> string" where
  "MacAddr_to_string E m = MacAddr_str E m"

text \<open>\<open>sscanf\<close> stores the fields it could read; the others keep what was on the stack.\<close>

definition MacAddr_FromString :: "ext \<Rightarrow> string \<Rightarrow> MacAddr" where
  "MacAddr_FromString E mac =
     (let bs = sscanf_hhx 6 (c_str mac)
      in mac_of_bytes (bs @ drop (length bs) (mac_bytes (uninit_mac E))))"

datatype IpAddr = IpAddr (ip_addr: u32)

definition IpAddr_eq :: "IpAddr \<Rightarrow> IpAddr \<Rightarrow> bool" where
  "IpAddr_eq a b \<longleftrightarrow> ip_addr a = ip_addr b"

definition IpAddr_less :: "IpAddr \<Rightarrow> IpAddr \<Rightarrow> bool" where
  "IpAddr_less a b \<longleftrightarrow> ip_addr a < ip_addr b"

definition IpAddr_str :: "IpAddr \<Rightarrow> string" where
  "IpAddr_str a = inet_ntoa (ip_addr a)"

definition IpAddr_to_string :: "IpAddr \<Rightarrow> string" where
  "IpAddr_to_string a = IpAddr_str a"

definition IpAddr_FromString :: "string \<Rightarrow> IpAddr" where
  "IpAddr_FromString ip = IpAddr (inet_addr (c_str ip))"

definition kBroadcastMac :: MacAddr where
  "kBroadcastMac = MacAddr 0xFF 0xFF 0xFF 0xFF 0xFF 0xFF"

definition kBroadcastIp :: IpAddr where
  "kBroadcastIp = IpAddr 0xFFFFFFFF"

definition mem_ip :: "IpAddr \<Rightarrow> bytes" where
  "mem_ip a = mem32 (ip_addr a)"

definition read_ip :: "bytes \<Rightarrow> IpAddr" where
  "read_ip bs = IpAddr (read32 bs)"

record Address =
  address_addr :: IpAddr
  address_port :: int

definition Address_make :: "IpAddr \<Rightarrow> int \<Rightarrow> Address" where
  "Address_make addr port = \<lparr>address_addr = addr, address_port = port\<rparr>"

section \<open>Definitions: process state and output\<close>

record flags =
  dump_ethernet :: bool
  dump_arp :: bool
  arp_cache :: string
  routing_table :: string
  server :: bool
  dest_ip :: string
  num_requests :: int

definition default_flags :: flags where
  "default_flags = \<lparr>dump_ethernet = False, dump_arp = False,
     arp_cache = ''/tmp/arp_cache'', routing_table = ''/tmp/routing_table'',
     server = False, dest_ip = [], num_requests = 1\<rparr>"

text \<open>\<open>files\<close> maps a path to its contents, if it can be read; \<open>writable\<close> says which paths
  can be opened for writing, and such a path can be read once it has been written.\<close>

record 'k io =
  flags :: flags
  stdout :: string
  errno :: int
  files :: "string \<Rightarrow> string option"
  writable :: "string \<Rightarrow> bool"
  net :: 'k

definition printf :: "string \<Rightarrow> fmt_arg list \<Rightarrow> ('k io, unit) prog" where
  "printf fmt args = modify (\<lambda>s. s\<lparr>stdout := stdout s @ sprintf fmt args\<rparr>)"

text \<open>\<open>dump_bytes buffer n\<close> is the loop of \<open>DumpHex\<close>; reading past the buffer is undefined.\<close>

fun dump_bytes :: "bytes \<Rightarrow> nat \<Rightarrow> ('k io, unit) prog" where
  "dump_bytes buffer 0 = ret ()"
| "dump_bytes [] (Suc n) = undef"
| "dump_bytes (b # bs) (Suc n) = seq (printf ''%02x'' [FInt (uint b)]) (dump_bytes bs n)"

definition DumpHex :: "bytes \<Rightarrow> nat \<Rightarrow> ('k io, unit) prog" where
  "DumpHex buffer n = seq (dump_bytes buffer n) (printf [CHR 0x0A] [])"

section \<open>Orders\<close>

lemma memcmp_swap: "length xs = length ys \<Longrightarrow> memcmp ys xs = - memcmp xs ys"
  by (induction xs ys rule: list_induct2) auto

lemma memcmp_eq_0: "length xs = length ys \<Longrightarrow> memcmp xs ys = 0 \<longleftrightarrow> xs = ys"
  by (induction xs ys rule: list_induct2) auto

lemma memcmp_trans:
  "length xs = length ys \<Longrightarrow> length ys = length zs \<Longrightarrow>
   memcmp xs ys < 0 \<Longrightarrow> memcmp ys zs < 0 \<Longrightarrow> memcmp xs zs < 0"
  by (induction xs ys zs rule: list_induct3) (auto split: if_splits)

lemma length_mac_bytes [simp, layout_simps]: "length (mac_bytes m) = 6"
  by (cases m) simp

lemma mac_bytes_inject [simp]: "mac_bytes a = mac_bytes b \<longleftrightarrow> a = b"
  by (cases a; cases b) simp

lemma MacAddr_eq_iff [simp]: "MacAddr_eq a b \<longleftrightarrow> a = b"
  by (simp add: MacAddr_eq_def memcmp_eq_0)

lemma IpAddr_eq_iff [simp]: "IpAddr_eq a b \<longleftrightarrow> a = b"
  by (cases a; cases b) (simp add: IpAddr_eq_def)

instantiation MacAddr :: linorder
begin

definition less_MacAddr :: "MacAddr \<Rightarrow> MacAddr \<Rightarrow> bool" where
  "less_MacAddr = MacAddr_less"

definition less_eq_MacAddr :: "MacAddr \<Rightarrow> MacAddr \<Rightarrow> bool" where
  "less_eq_MacAddr a b \<longleftrightarrow> MacAddr_less a b \<or> a = b"

instance
proof
  have asym: "\<not> MacAddr_less b a" if "MacAddr_less a b" for a b
    using that memcmp_swap[of "mac_bytes a" "mac_bytes b"] by (simp add: MacAddr_less_def)
  have tr: "MacAddr_less a c" if "MacAddr_less a b" "MacAddr_less b c" for a b c
    using that memcmp_trans[of "mac_bytes a" "mac_bytes b" "mac_bytes c"]
    by (simp add: MacAddr_less_def)
  have tot: "MacAddr_less a b \<or> a = b \<or> MacAddr_less b a" for a b
    using memcmp_swap[of "mac_bytes a" "mac_bytes b"] memcmp_eq_0[of "mac_bytes a" "mac_bytes b"]
    by (auto simp: MacAddr_less_def)
  fix x y z :: MacAddr
  show "x < y \<longleftrightarrow> x \<le> y \<and> \<not> y \<le> x"
    using asym[of x y] asym[of x x] by (auto simp: less_MacAddr_def less_eq_MacAddr_def)
  show "x \<le> x" by (simp add: less_eq_MacAddr_def)
  show "x \<le> z" if "x \<le> y" "y \<le> z"
    using that tr by (auto simp: less_eq_MacAddr_def)
  show "x = y" if "x \<le> y" "y \<le> x"
    using that asym by (auto simp: less_eq_MacAddr_def)
  show "x \<le> y \<or> y \<le> x"
    using tot by (auto simp: less_eq_MacAddr_def)
qed

end

instantiation IpAddr :: linorder
begin

definition less_IpAddr :: "IpAddr \<Rightarrow> IpAddr \<Rightarrow> bool" where
  "less_IpAddr = IpAddr_less"

definition less_eq_IpAddr :: "IpAddr \<Rightarrow> IpAddr \<Rightarrow> bool" where
  "less_eq_IpAddr a b \<longleftrightarrow> ip_addr a \<le> ip_addr b"

instance
  by standard (auto simp: less_IpAddr_def less_eq_IpAddr_def IpAddr_less_def IpAddr.expand)

end

section \<open>Byte layout of addresses\<close>

lemma mac_of_bytes_mac_bytes [simp]: "mac_of_bytes (mac_bytes m @ rest) = m"
  by (cases m) (simp add: mac_of_bytes_def)

lemma mac_bytes_mac_of_bytes: "length bs = 6 \<Longrightarrow> mac_bytes (mac_of_bytes bs) = bs"
  unfolding length_6_conv by (auto simp: mac_of_bytes_def)

lemma length_mem_net16 [simp, layout_simps]: "length (mem_net16 n) = 2"
  by (simp add: mem_net16_def)

lemma length_mem_ip [simp, layout_simps]: "length (mem_ip a) = 4"
  by (simp add: mem_ip_def)

lemma read_net16_mem [simp]: "read_net16 (mem_net16 n @ rest) = n"
  by (simp add: read_net16_def mem_net16_def)

lemma read_ip_mem [simp]: "read_ip (mem_ip a @ rest) = a"
  by (simp add: read_ip_def mem_ip_def)

lemma mem_net16_read: "length bs = 2 \<Longrightarrow> mem_net16 (read_net16 bs) = bs"
  by (simp add: read_net16_def mem_net16_def mem16_read16)

lemma mem_ip_read: "length bs = 4 \<Longrightarrow> mem_ip (read_ip bs) = bs"
  by (simp add: read_ip_def mem_ip_def mem32_read32)

lemma uint16_of_net_assign [simp]: "uint16_of_net (uint16_net_assign v n) = v"
  by (simp add: uint16_of_net_def uint16_net_assign_def)

lemma uint16_of_uint16_net [simp]: "uint16_of_net (uint16_net v) = v"
  by (simp add: uint16_of_net_def uint16_net_def)

lemma mem_net16_uint16_net: "mem_net16 (uint16_net v) = rev (mem16 v)"
  by (simp add: mem_net16_def uint16_net_def mem16_htons)

section \<open>Text forms of addresses\<close>

lemma c_str_id: "CHR 0x00 \<notin> set s \<Longrightarrow> c_str s = s"
  by (simp add: c_str_def takeWhile_eq_all_conv) blast

lemma digit_in_not_punct:
  "digit_in base c \<Longrightarrow> c \<noteq> CHR 0x00 \<and> c \<noteq> CHR '','' \<and> c \<noteq> CHR 0x0A \<and> c \<noteq> CHR '':''"
  by (auto simp: digit_in_def digit_val_def)

lemma IpAddr_str_chars: "c \<in> set (IpAddr_str a) \<Longrightarrow> c \<noteq> CHR 0x00 \<and> c \<noteq> CHR '','' \<and> c \<noteq> CHR 0x0A"
  using inet_ntoa_chars[of c "ip_addr a"] digit_in_not_punct[of 10 c] by (auto simp: IpAddr_str_def)

lemma IpAddr_FromString_str: "IpAddr_FromString (IpAddr_str a) = a"
proof -
  have "c_str (IpAddr_str a) = IpAddr_str a"
    using IpAddr_str_chars by (intro c_str_id) blast
  then show ?thesis
    by (simp add: IpAddr_FromString_def IpAddr_str_def inet_addr_inet_ntoa)
qed

text \<open>The text \<open>printf\<close> gives for \<open>mac_format\<close>.\<close>

definition mac_text :: "MacAddr \<Rightarrow> string" where
  "mac_text m = (case m of MacAddr a b c d e f \<Rightarrow>
     hex02 a @ '':'' @ hex02 b @ '':'' @ hex02 c @ '':'' @ hex02 d @ '':'' @ hex02 e @ '':'' @ hex02 f)"

lemma convert_hex02: "convert True (Suc (Suc 0)) 0 CHR ''x'' (FInt (uint b)) = hex02 b"
  by (simp add: convert_def hex02_def pad_left_def Let_def numeral_2_eq_2)

lemma sprintf_mac: "sprintf mac_format (map (\<lambda>b. FInt (uint b)) (mac_bytes m)) = mac_text m"
  by (cases m) (simp add: sprintf_def mac_format_def mac_text_def convert_hex02 digit_in_def digit_val_def)

lemma sscanf_mac_text: "sscanf_hhx 6 (mac_text m) = mac_bytes m"
proof -
  have colon: "\<not> digit_in 16 CHR '':''"
    by (simp add: digit_in_def digit_val_def)
  have six: "(6::nat) = Suc (Suc (Suc (Suc (Suc (Suc 0)))))"
    by simp
  have "scan_hhx (hex02 b @ CHR '':'' # s) = Some (b, CHR '':'' # s)" for b s
    by (rule scan_hhx_hex02) (simp add: colon)
  moreover have "scan_hhx (hex02 b) = Some (b, [])" for b
    using scan_hhx_hex02[of "[]" b] by simp
  ultimately show ?thesis
    unfolding six by (cases m) (simp add: mac_text_def)
qed

lemma mac_text_chars: "c \<in> set (mac_text m) \<Longrightarrow> c \<noteq> CHR 0x00 \<and> c \<noteq> CHR '','' \<and> c \<noteq> CHR 0x0A"
  by (cases m) (auto simp: mac_text_def dest!: hex02_digits digit_in_not_punct)

text \<open>What the program relies on of \<open>absl::StrFormat\<close>, and that \<open>sprintf\<close> provides it.\<close>

locale absl_format =
  fixes E :: ext
  assumes format_mac: "StrFormat E mac_format (map (\<lambda>b. FInt (uint b)) (mac_bytes m)) = mac_text m"
begin

lemma MacAddr_str_text: "MacAddr_str E m = mac_text m"
  by (simp add: MacAddr_str_def format_mac)

lemma MacAddr_FromString_str: "MacAddr_FromString E (MacAddr_str E m) = m"
proof -
  have "c_str (mac_text m) = mac_text m"
    using mac_text_chars by (intro c_str_id) blast
  then show ?thesis
    using mac_of_bytes_mac_bytes[of m "[]"]
    by (simp add: MacAddr_FromString_def MacAddr_str_text sscanf_mac_text Let_def)
qed

lemma MacAddr_str_chars: "c \<in> set (MacAddr_str E m) \<Longrightarrow> c \<noteq> CHR 0x00 \<and> c \<noteq> CHR '','' \<and> c \<noteq> CHR 0x0A"
  using mac_text_chars by (simp add: MacAddr_str_text)

end

text \<open>The external code with \<open>printf\<close> for \<open>StrFormat\<close>, a blank stack and no error texts.\<close>

definition libc_ext :: ext where
  "libc_ext = \<lparr>StrFormat = sprintf, strerror = (\<lambda>_. []), uninit_mac = MacAddr 0 0 0 0 0 0\<rparr>"

interpretation libc: absl_format libc_ext
  by unfold_locales (simp add: libc_ext_def sprintf_mac)

section \<open>Properties\<close>

lemma mem32_inj: "mem32 a = mem32 b \<Longrightarrow> a = b"
  using read32_mem32[of a "[]"] read32_mem32[of b "[]"] by simp

lemma unat_ucast_mod16: "unat (ucast (w :: u32) :: u16) = unat w mod 65536"
  by (simp add: unsigned_ucast_eq take_bit_eq_mod)

lemma mem32_ucast_read16: "mem32 (ucast (read16 [x, y])) = [x, y, 0, 0]"
proof -
  have "unat (ucast (read16 [x, y]) :: u32) = unat (read32 [x, y, 0, 0])"
    using unat_read16[of x y] unat_bounds(2)[of "read16 [x, y]"]
    by (simp add: unat_read32 unsigned_ucast_eq take_bit_nat_eq_self)
  then have "ucast (read16 [x, y]) = read32 [x, y, 0, 0]"
    by (simp add: word_unat_eq_iff)
  then show ?thesis
    by (simp add: mem32_read32)
qed

text \<open>C26. An address that is printed with \<open>str\<close> is read back by \<open>FromString\<close>: every MAC address, provided
  that \<open>StrFormat\<close> prints bytes as \<open>printf\<close> does, and each of the 2^32 IP addresses.\<close>

theorem address_text_roundtrip:
  assumes "absl_format E"
  shows "MacAddr_FromString E (MacAddr_str E m) = m \<and> IpAddr_FromString (IpAddr_str a) = a"
  using absl_format.MacAddr_FromString_str[OF assms] IpAddr_FromString_str by blast

theorem address_text_roundtrip_witness:
  "MacAddr_FromString libc_ext (MacAddr_str libc_ext (MacAddr 2 66 172 17 0 3)) = MacAddr 2 66 172 17 0 3
   \<and> IpAddr_FromString (IpAddr_str (IpAddr 0x030011AC)) = IpAddr 0x030011AC"
  by (rule address_text_roundtrip[OF libc.absl_format_axioms])

text \<open>C34. A \<open>uint16_net\<close> gives back the number it was made from and stores it most significant
  byte first; a \<open>uint32_net\<close>, whose member has only 16 bits, loses the low half of the number.\<close>

theorem netint_values:
  "uint16_of_net (uint16_net v) = v \<and> mem_net16 (uint16_net v) = rev (mem16 v)
   \<and> unat (uint32_of_net (uint32_net x)) = unat x - unat x mod 65536"
proof (intro conjI)
  show "uint16_of_net (uint16_net v) = v"
    by simp
  show "mem_net16 (uint16_net v) = rev (mem16 v)"
    by (rule mem_net16_uint16_net)
  obtain b0 b1 b2 b3 where b: "mem32 x = [b0, b1, b2, b3]"
    by (rule mem32_cases)
  have x: "x = read32 [b0, b1, b2, b3]"
    using b read32_mem32[of x "[]"] by simp
  have h: "htonl x = read32 [b3, b2, b1, b0]"
    by (simp add: htonl_def b)
  have "unat (ucast (htonl x) :: u16) = (unat b3 + 256 * unat b2) mod 65536"
  proof -
    have "unat (htonl x) = (unat b3 + 256 * unat b2) + (unat b1 + 256 * unat b0) * 65536"
      unfolding h unat_read32 by simp
    then show ?thesis
      by (simp only: unat_ucast_mod16 mod_mult_self1)
  qed
  then have "ucast (htonl x) = read16 [b3, b2]"
    using unat_bounds(2)[of "read16 [b3, b2]"] by (simp add: word_unat_eq_iff unat_read16 del: unat_bounds)
  then have "mem32 (ucast (ucast (htonl x) :: u16)) = [b3, b2, 0, 0]"
    by (simp add: mem32_ucast_read16)
  then have "uint32_of_net (uint32_net x) = read32 [0, 0, b2, b3]"
    by (simp add: uint32_of_net_def uint32_net_def ntohl_def)
  then have "unat (uint32_of_net (uint32_net x)) = 65536 * (unat b2 + 256 * unat b3)"
    by (simp add: unat_read32)
  moreover have "unat x = 65536 * (unat b2 + 256 * unat b3) + (unat b0 + 256 * unat b1)"
    unfolding x unat_read32 by simp
  moreover have "unat b0 + 256 * unat b1 < 65536"
    using unat_bounds(1)[of b0] unat_bounds(1)[of b1] by linarith
  moreover have "65536 * q = n - n mod 65536" if "n = 65536 * q + r" "r < 65536" for n q r :: nat
    using that by simp
  ultimately show "unat (uint32_of_net (uint32_net x)) = unat x - unat x mod 65536"
    by metis
qed

end
