(* ===== verification/Socket.thy ===== *)
theory Socket
  imports Net
begin

text \<open>
  \<open>socket.h\<close> and the status values of the program. The abstract class \<open>Socket\<close> is a record of
  its virtual methods; each method runs on the process state. A method that fills a buffer
  returns the value of the C++ method together with the bytes it wrote at the start of the
  buffer. \<open>RecvAll\<close> loops until its buffer is full; its first argument is a bound on the number
  of turns, and its result is \<open>None\<close> when the loop is still running after that many.
  \<open>absl::Status\<close> is a datatype with the four codes the program makes, \<open>StatusOr\<close> a
  sum whose left side is the error.

  The locale \<open>safe_socket\<close> is what the callers rely on for memory safety, \<open>link_socket\<close>
  what they rely on for delivery: it describes a socket by the frames waiting to be received
  and the frames sent so far.
\<close>

section \<open>Definitions\<close>

datatype Status =
    OkStatus
  | InvalidArgumentError string
  | InternalError string
  | AlreadyExistsError string

type_synonym 'a StatusOr = "Status + 'a"

definition status_ok :: "Status \<Rightarrow> bool" where
  "status_ok st \<longleftrightarrow> st = OkStatus"

definition IsAlreadyExists :: "Status \<Rightarrow> bool" where
  "IsAlreadyExists st = (case st of AlreadyExistsError _ \<Rightarrow> True | _ \<Rightarrow> False)"

primrec message :: "Status \<Rightarrow> string" where
  "message OkStatus = []"
| "message (InvalidArgumentError m) = m"
| "message (InternalError m) = m"
| "message (AlreadyExistsError m) = m"

text \<open>\<open>value()\<close> of a \<open>StatusOr\<close> that holds an error throws.\<close>

definition status_value :: "'a StatusOr \<Rightarrow> ('s, 'a) prog" where
  "status_value r = (case r of Inl _ \<Rightarrow> throw bad_status_access | Inr a \<Rightarrow> ret a)"

record 'k Socket =
  Send :: "bytes \<Rightarrow> ('k io, int) prog"
  Recv :: "nat \<Rightarrow> ('k io, int \<times> bytes) prog"
  SendTo :: "bytes \<Rightarrow> MacAddr \<Rightarrow> ('k io, int) prog"
  RecvFrom :: "nat \<Rightarrow> MacAddr \<Rightarrow> ('k io, int \<times> bytes) prog"
  RecvAll :: "nat \<Rightarrow> nat \<Rightarrow> ('k io, (int \<times> bytes) option) prog"
  GetHostMacAddress :: "('k io, MacAddr StatusOr) prog"
  GetHostIpAddress :: "('k io, IpAddr StatusOr) prog"
  GetHostMacAndIp :: "('k io, (MacAddr \<times> IpAddr) StatusOr) prog"

section \<open>Lemmas\<close>

lemma status_simps [simp]:
  "status_ok OkStatus" "\<not> status_ok (InvalidArgumentError m)" "\<not> status_ok (InternalError m)"
  "\<not> status_ok (AlreadyExistsError m)" "IsAlreadyExists (AlreadyExistsError m)"
  "\<not> IsAlreadyExists OkStatus" "\<not> IsAlreadyExists (InternalError m)"
  "\<not> IsAlreadyExists (InvalidArgumentError m)"
  by (simp_all add: status_ok_def IsAlreadyExists_def)

lemma status_value_simps [simp]:
  "status_value (Inr a) = ret a" "status_value (Inl e) = throw bad_status_access"
  by (simp_all add: status_value_def)

text \<open>The files and the flags of the process are not touched by a socket method.\<close>

definition same_files :: "'k io \<Rightarrow> 'k io \<Rightarrow> bool" where
  "same_files s t \<longleftrightarrow> flags t = flags s \<and> files t = files s \<and> writable t = writable s"

lemma same_files_refl [simp]: "same_files s s"
  by (simp add: same_files_def)

lemma same_files_trans: "same_files s t \<Longrightarrow> same_files t u \<Longrightarrow> same_files s u"
  by (simp add: same_files_def)

lemma same_files_printf: "printf fmt args s = Ret u t \<Longrightarrow> same_files s t"
  by (auto simp: printf_def same_files_def)

section \<open>Contracts\<close>

text \<open>
  \<open>Recv\<close> always returns: either -1 with nothing written, or the number of bytes written,
  which fit into the buffer.
\<close>

locale safe_socket =
  fixes sk :: "'k Socket"
  assumes recv_returns: "\<exists>r bs t. Recv sk n s = Ret (r, bs) t \<and> same_files s t \<and> length bs \<le> n
      \<and> (r = -1 \<and> bs = [] \<or> r = int (length bs))"

text \<open>
  A socket on a link: \<open>inbox\<close> holds the frames waiting, \<open>outbox\<close> the frames sent with the
  link address they were sent to, oldest first. Receiving takes the oldest frame and cuts
  it to the size of the buffer; sending appends; the host addresses are those of the
  interface. \<open>view\<close> reads this off the state behind the socket, \<open>up\<close> says that the
  interface works.
\<close>

record link =
  inbox :: "bytes list"
  outbox :: "(bytes \<times> MacAddr) list"
  link_mac :: MacAddr
  link_ip :: IpAddr

text \<open>The longest frame an interface with an MTU of 1500 accepts from a packet socket.\<close>

definition link_max :: nat where
  "link_max = 1514"

locale link_socket = safe_socket sk for sk :: "'k Socket" +
  fixes view :: "'k \<Rightarrow> link" and up :: "'k \<Rightarrow> bool"
  assumes recv_frame:
      "up (net s) \<Longrightarrow> inbox (view (net s)) = f # fs \<Longrightarrow>
       \<exists>t. Recv sk n s = Ret (int (length (take n f)), take n f) t \<and> same_files s t
         \<and> up (net t) \<and> view (net t) = (view (net s))\<lparr>inbox := fs\<rparr>"
    and sendto_frame:
      "up (net s) \<Longrightarrow> length f \<le> link_max \<Longrightarrow>
       \<exists>t. SendTo sk f d s = Ret (int (length f)) t \<and> same_files s t
         \<and> up (net t) \<and> view (net t) = (view (net s))\<lparr>outbox := outbox (view (net s)) @ [(f, d)]\<rparr>"
    and get_mac:
      "up (net s) \<Longrightarrow>
       \<exists>t. GetHostMacAddress sk s = Ret (Inr (link_mac (view (net s)))) t \<and> same_files s t
         \<and> up (net t) \<and> view (net t) = view (net s)"
    and get_ip:
      "up (net s) \<Longrightarrow>
       \<exists>t. GetHostIpAddress sk s = Ret (Inr (link_ip (view (net s)))) t \<and> same_files s t
         \<and> up (net t) \<and> view (net t) = view (net s)"
    and get_mac_ip:
      "up (net s) \<Longrightarrow>
       \<exists>t. GetHostMacAndIp sk s = Ret (Inr (link_mac (view (net s)), link_ip (view (net s)))) t
         \<and> same_files s t \<and> up (net t) \<and> view (net t) = view (net s)"

end
