(* ===== verification/Eth.thy ===== *)
theory Eth
  imports Crc32 Socket
begin

text \<open>
  \<open>eth.h\<close> and \<open>eth.cc\<close>: sending and receiving Ethernet frames with their check sequence.
  The definitions follow the C++ statement by statement, with every access to the frame
  buffer checked. The lemmas give the exact frame that is sent, that a frame which was sent
  is accepted and gives the payload back, that a damaged one is rejected, and on which
  sizes received from the socket the buffer accesses stay inside the frame.
\<close>

section \<open>Definitions\<close>

definition kEtherTypeArp :: uint16_net where
  "kEtherTypeArp = uint16_net 0x0806"

definition kEtherTypeIp :: uint16_net where
  "kEtherTypeIp = uint16_net 0x0800"

record EthernetHeader =
  dst_mac :: MacAddr
  src_mac :: MacAddr
  ether_type :: uint16_net

definition mem_eth_header :: "EthernetHeader \<Rightarrow> bytes" where
  "mem_eth_header h = mac_bytes (dst_mac h) @ mac_bytes (src_mac h) @ mem_net16 (ether_type h)"

definition read_eth_header :: "bytes \<Rightarrow> EthernetHeader" where
  "read_eth_header bs = \<lparr>dst_mac = mac_of_bytes bs, src_mac = mac_of_bytes (drop 6 bs),
     ether_type = read_net16 (drop 12 bs)\<rparr>"

definition sizeof_EthernetHeader :: nat where
  "sizeof_EthernetHeader = 14"

definition kEthernetPayloadMax :: nat where
  "kEthernetPayloadMax = 1500"

definition kEthernetPayloadMin :: nat where
  "kEthernetPayloadMin = 46"

definition kCrcSize :: nat where
  "kCrcSize = 4"

definition kEthernetOverhead :: nat where
  "kEthernetOverhead = sizeof_EthernetHeader + kCrcSize"

definition kEthernetMinFrameSize :: nat where
  "kEthernetMinFrameSize = kEthernetPayloadMin + kEthernetOverhead"

text \<open>\<open>frame\<close> is the whole buffer, \<open>n\<close> the size the caller passes.\<close>

definition DumpEthernetFrame :: "ext \<Rightarrow> bytes \<Rightarrow> nat \<Rightarrow> ('k io, unit) prog" where
  "DumpEthernetFrame E frame n =
     checked (sizeof_EthernetHeader \<le> length frame \<and> kCrcSize \<le> n \<and> n \<le> length frame)
       (let hdr = read_eth_header frame;
            payload = drop sizeof_EthernetHeader frame;
            crc = read32 (drop (n - kCrcSize) frame)
        in seq (printf ''[eth] %s -> %s (%x) (crc: 0x%x)  ''
                 [FStr (MacAddr_str E (src_mac hdr)), FStr (MacAddr_str E (dst_mac hdr)),
                  FInt (uint (uint16_of_net (ether_type hdr))), FInt (uint crc)])
             (DumpHex payload (size_t (int n - int kEthernetOverhead))))"

definition too_big :: "ext \<Rightarrow> nat \<Rightarrow> Status" where
  "too_big E n = InvalidArgumentError (StrFormat E ''Size too big: %d > 1500'' [FInt (int n)])"

definition SendEthernetFrame ::
  "ext \<Rightarrow> 'k Socket \<Rightarrow> MacAddr \<Rightarrow> MacAddr \<Rightarrow> bytes \<Rightarrow> uint16_net \<Rightarrow> ('k io, Status) prog" where
  "SendEthernetFrame E sk src dst payload etype =
     (let payload_size = length payload in
      if payload_size > kEthernetPayloadMax then ret (too_big E payload_size)
      else
        let header = \<lparr>dst_mac = dst, src_mac = src, ether_type = etype\<rparr>;
            padded_payload_size =
              (if payload_size < kEthernetPayloadMin then kEthernetPayloadMin else payload_size);
            frame_size = sizeof_EthernetHeader + padded_payload_size + kCrcSize
        in
        bnd (memcpy_to (replicate frame_size 0) 0 (mem_eth_header header)) (\<lambda>frame.
        bnd (memcpy_to frame sizeof_EthernetHeader payload) (\<lambda>frame.
        bnd (memcpy_to frame (length frame - kCrcSize)
              (mem32 (crc32 (take (length frame - kCrcSize) frame)))) (\<lambda>frame.
        bnd (gets (\<lambda>s. dump_ethernet (flags s))) (\<lambda>dump.
        seq (only_if dump (DumpEthernetFrame E frame (length frame)))
        (bnd (SendTo sk frame dst) (\<lambda>r.
          if r = -1 then
            bnd (gets errno) (\<lambda>err. ret (InternalError (StrFormat E
              (''Send failed ('' @ [CHR 0x27] @ ''%s'' @ [CHR 0x27] @ '')'') [FStr (strerror E err)])))
          else ret OkStatus)))))))"

text \<open>
  The result is the status and the caller's vector, which an error leaves as it was. A
  \<open>resize\<close> to a negative size throws; \<open>&(*payload)[0]\<close> needs a vector that is not empty.
\<close>

definition RecvEthernetFrame ::
  "ext \<Rightarrow> 'k Socket \<Rightarrow> bytes \<Rightarrow> nat \<Rightarrow> ('k io, Status \<times> bytes) prog" where
  "RecvEthernetFrame E sk payload wanted =
     (let payload_size = (if wanted < kEthernetPayloadMin then kEthernetPayloadMin else wanted) in
      if payload_size > kEthernetPayloadMax then ret (too_big E payload_size, payload)
      else
        bnd (Recv sk (payload_size + kEthernetOverhead)) (\<lambda>(n, written).
        bnd (memcpy_to (replicate (payload_size + kEthernetOverhead) 0) 0 written) (\<lambda>frame.
        if n = -1 then ret (InternalError ''No data'', payload)
        else
          bnd (gets (\<lambda>s. dump_ethernet (flags s))) (\<lambda>dump.
          seq (only_if dump (DumpEthernetFrame E frame (size_t n)))
          (checked (int kCrcSize \<le> n \<and> n \<le> int (length frame))
            (let expected_crc = read32 (drop (nat n - kCrcSize) frame);
                 crc = crc32 (take (nat n - kCrcSize) frame)
             in if crc \<noteq> expected_crc then
                  ret (InternalError (StrFormat E ''CRC mismatch: 0x%04x vs 0x%04x''
                         [FInt (uint crc), FInt (uint expected_crc)]), payload)
                else if n < int kEthernetOverhead then throw length_error
                else checked (int kEthernetOverhead < n)
                  (ret (OkStatus,
                     take (nat n - kEthernetOverhead) (drop sizeof_EthernetHeader frame)))))))))"

section \<open>The frame that is sent\<close>

lemmas eth_sizes = sizeof_EthernetHeader_def kEthernetPayloadMax_def kEthernetPayloadMin_def
  kCrcSize_def kEthernetOverhead_def kEthernetMinFrameSize_def

declare eth_sizes [layout_simps]

text \<open>The frame as the Ethernet standard describes it: header, payload, padding, check sequence.\<close>

definition eth_body :: "MacAddr \<Rightarrow> MacAddr \<Rightarrow> bytes \<Rightarrow> uint16_net \<Rightarrow> bytes" where
  "eth_body src dst payload etype =
     mac_bytes dst @ mac_bytes src @ mem_net16 etype @ payload @ replicate (46 - length payload) 0"

definition eth_frame :: "MacAddr \<Rightarrow> MacAddr \<Rightarrow> bytes \<Rightarrow> uint16_net \<Rightarrow> bytes" where
  "eth_frame src dst payload etype =
     eth_body src dst payload etype @ mem32 (crc32 (eth_body src dst payload etype))"

lemma length_eth_body [layout_simps]: "length (eth_body src dst payload et) = 14 + max 46 (length payload)"
  by (simp add: eth_body_def)

lemma length_eth_frame [layout_simps]: "length (eth_frame src dst payload et) = 18 + max 46 (length payload)"
  by (simp add: eth_frame_def length_eth_body)

lemma length_mem_eth_header [simp, layout_simps]: "length (mem_eth_header h) = 14"
  by (simp add: mem_eth_header_def)

lemma dump_bytes_returns: "n \<le> length bs \<Longrightarrow> \<exists>t. dump_bytes bs n s = Ret () t \<and> net t = net s \<and> same_files s t"
proof (induction bs n arbitrary: s rule: dump_bytes.induct)
  case (3 b bs n)
  let ?s = "s\<lparr>stdout := stdout s @ sprintf ''%02x'' [FInt (uint b)]\<rparr>"
  obtain t where "dump_bytes bs n ?s = Ret () t" "net t = net ?s" "same_files ?s t"
    using "3.IH"[of ?s] "3.prems" by auto
  then show ?case
    by (auto simp: seq_run printf_def same_files_def)
qed auto

lemma dump_bytes_overrun: "length bs < n \<Longrightarrow> dump_bytes bs n s = Undef"
  by (induction bs n arbitrary: s rule: dump_bytes.induct) (auto simp: seq_run printf_def)

lemma DumpHex_returns: "n \<le> length bs \<Longrightarrow> \<exists>t. DumpHex bs n s = Ret () t \<and> net t = net s \<and> same_files s t"
  using dump_bytes_returns[of n bs s] by (auto simp: DumpHex_def seq_run printf_def same_files_def)

lemma DumpEthernetFrame_returns:
  assumes "kEthernetOverhead \<le> n" "n \<le> length frame" "n < 2 ^ 64"
  shows "\<exists>t. DumpEthernetFrame E frame n s = Ret () t \<and> net t = net s \<and> same_files s t"
proof -
  let ?n = "size_t (int n - int kEthernetOverhead)"
  have "?n \<le> length (drop sizeof_EthernetHeader frame)"
    using assms by (simp add: eth_sizes)
  then have dump: "\<exists>t. DumpHex (drop sizeof_EthernetHeader frame) ?n u = Ret () t \<and> net t = net u \<and> same_files u t"
    for u :: "'a io"
    by (rule DumpHex_returns)
  show ?thesis
    using assms(1,2) dump[of "s\<lparr>stdout := _\<rparr>"] unfolding DumpEthernetFrame_def Let_def
    by (simp add: checked_def seq_run printf_def eth_sizes) (auto simp: same_files_def)
qed

lemma DumpEthernetFrame_short: "n < kEthernetOverhead \<Longrightarrow> length frame < 2 ^ 63 \<Longrightarrow> DumpEthernetFrame E frame n s = Undef"
proof -
  assume n: "n < kEthernetOverhead" and small: "length frame < 2 ^ 63"
  have "size_t (int n - int kEthernetOverhead) = 2 ^ 64 + n - 18"
    using n by (subst size_t_neg) (simp_all add: eth_sizes)
  then have "length (drop 14 frame) < size_t (int n - int kEthernetOverhead)"
    using small by simp
  then show ?thesis
    by (simp add: DumpEthernetFrame_def checked_def Let_def seq_run printf_def DumpHex_def eth_sizes
        dump_bytes_overrun)
qed

lemma memcpy_frame:
  assumes "length payload \<le> 1500"
  shows "memcpy (memcpy (replicate (14 + max 46 (length payload) + 4) 0) 0 (mem_eth_header h)) 14 payload
    = mem_eth_header h @ payload @ replicate (46 - length payload + 4) 0"
  by (simp add: memcpy_def max_def)

lemma SendEthernetFrame_eq:
  assumes "length payload \<le> kEthernetPayloadMax"
  shows "SendEthernetFrame E sk src dst payload et =
    bnd (gets (\<lambda>s. dump_ethernet (flags s))) (\<lambda>dump.
    seq (only_if dump (DumpEthernetFrame E (eth_frame src dst payload et) (length (eth_frame src dst payload et))))
    (bnd (SendTo sk (eth_frame src dst payload et) dst) (\<lambda>r.
      if r = -1 then
        bnd (gets errno) (\<lambda>err. ret (InternalError (StrFormat E
          (''Send failed ('' @ [CHR 0x27] @ ''%s'' @ [CHR 0x27] @ '')'') [FStr (strerror E err)])))
      else ret OkStatus)))"
proof -
  let ?hdr = "\<lparr>dst_mac = dst, src_mac = src, ether_type = et\<rparr>"
  let ?pad = "if length payload < kEthernetPayloadMin then kEthernetPayloadMin else length payload"
  let ?zero = "replicate (sizeof_EthernetHeader + ?pad + kCrcSize) (0::byte)"
  let ?f1 = "memcpy ?zero 0 (mem_eth_header ?hdr)"
  let ?f2 = "memcpy ?f1 sizeof_EthernetHeader payload"
  let ?f3 = "memcpy ?f2 (length ?f2 - kCrcSize) (mem32 (crc32 (take (length ?f2 - kCrcSize) ?f2)))"
  have size: "sizeof_EthernetHeader + ?pad + kCrcSize = 14 + max 46 (length payload) + 4"
    by (simp add: eth_sizes max_def)
  have f2: "?f2 = eth_body src dst payload et @ replicate 4 0"
    unfolding size using memcpy_frame[of payload ?hdr] assms
    by (simp add: eth_sizes eth_body_def mem_eth_header_def replicate_add[symmetric])
  have "?f3 = eth_frame src dst payload et"
    unfolding f2 by (simp add: memcpy_def eth_frame_def kCrcSize_def)
  moreover have "length ?f1 = length ?zero" "length ?f2 = length ?zero"
    unfolding size by (simp_all add: eth_sizes max_def)
  ultimately show ?thesis
    using assms unfolding SendEthernetFrame_def Let_def
    by (simp add: eth_sizes max_def)
qed

section \<open>The frame that is received\<close>

text \<open>The check that \<open>RecvEthernetFrame\<close> makes, and the payload it hands on.\<close>

definition fcs_ok :: "bytes \<Rightarrow> bool" where
  "fcs_ok f \<longleftrightarrow> crc32 (take (length f - 4) f) = read32 (drop (length f - 4) f)"

definition eth_payload :: "bytes \<Rightarrow> bytes" where
  "eth_payload f = take (length f - 18) (drop 14 f)"

definition crc_mismatch :: "ext \<Rightarrow> bytes \<Rightarrow> Status" where
  "crc_mismatch E f = InternalError (StrFormat E ''CRC mismatch: 0x%04x vs 0x%04x''
     [FInt (uint (crc32 (take (length f - 4) f))), FInt (uint (read32 (drop (length f - 4) f)))])"

lemma fcs_ok_eth_frame: "fcs_ok (eth_frame src dst payload et)"
  using read32_mem32[of "crc32 (eth_body src dst payload et)" "[]"]
  by (simp add: fcs_ok_def eth_frame_def)

lemma eth_payload_eth_frame:
  "eth_payload (eth_frame src dst payload et) = payload @ replicate (46 - length payload) 0"
  unfolding eth_payload_def length_eth_frame by (simp add: eth_frame_def eth_body_def)

text \<open>A frame passes the check exactly when its CRC is the residue.\<close>

lemma fcs_ok_residue:
  assumes "4 \<le> length f"
  shows "fcs_ok f \<longleftrightarrow> crc32 f = 0x2144DF1C"
proof -
  let ?m = "take (length f - 4) f" and ?x = "drop (length f - 4) f"
  have len: "length ?x = 4"
    using assms by simp
  have res: "crc32 (?m @ mem32 (crc32 ?m)) = 0x2144DF1C"
    by (rule crc32_residue)
  have "crc32 (?m @ ?x) = crc32 (?m @ mem32 (crc32 ?m)) \<longleftrightarrow> ?x = mem32 (crc32 ?m)"
    using crc_loop_burst_inj[of ?x "mem32 (crc32 ?m)" "0xFFFFFFFF" ?m "[]"] len
    by (simp add: crc32_def)
  moreover have "?x = mem32 (crc32 ?m) \<longleftrightarrow> crc32 ?m = read32 ?x"
    using mem32_read32[OF len] read32_mem32[of "crc32 ?m" "[]"] by (metis append_Nil2)
  ultimately show ?thesis
    unfolding fcs_ok_def using res by simp
qed

lemma fcs_burst:
  assumes "fcs_ok (a @ d @ b)" "length d' = length d" "length d \<le> 4" "d' \<noteq> d" "4 \<le> length (a @ d @ b)"
  shows "\<not> fcs_ok (a @ d' @ b)"
proof -
  have "crc32 (a @ d @ b) = 0x2144DF1C"
    using assms(1,5) by (simp add: fcs_ok_residue)
  moreover have "crc32 (a @ d' @ b) \<noteq> crc32 (a @ d @ b)"
    using crc_loop_burst_inj[of d' d "0xFFFFFFFF" a b] assms(2-4) by (simp add: crc32_def)
  ultimately show ?thesis
    using assms(2,5) by (simp add: fcs_ok_residue)
qed

text \<open>What \<open>RecvEthernetFrame\<close> does with a frame of more than 18 bytes.\<close>

lemma RecvEthernetFrame_frame:
  assumes recv: "Recv sk (max 46 wanted + 18) s = Ret (int (length f), f) t"
    and size: "wanted \<le> 1500" "18 < length f" "length f \<le> max 46 wanted + 18"
  shows "\<exists>u. net u = net t \<and> same_files t u \<and> RecvEthernetFrame E sk p wanted s
    = Ret (if fcs_ok f then (OkStatus, eth_payload f) else (crc_mismatch E f, p)) u"
proof -
  let ?buf = "memcpy (replicate (max 46 wanted + 18) 0) 0 f"
  have ps: "(if wanted < kEthernetPayloadMin then kEthernetPayloadMin else wanted) = max 46 wanted"
    by (simp add: kEthernetPayloadMin_def max_def)
  have buf: "take (length f - 4) ?buf = take (length f - 4) f"
    "read32 (drop (length f - 4) ?buf) = read32 (drop (length f - 4) f)"
    "take (length f - 18) (drop 14 ?buf) = eth_payload f" "length ?buf = max 46 wanted + 18"
    using size by (simp_all add: memcpy_def read32_def eth_payload_def)
  have n: "size_t (int (length f)) = length f" "nat (int (length f)) = length f"
    using size by simp_all
  have small: "length f < 2 ^ 64" and le: "\<not> 1500 < max 46 wanted"
    using size by simp_all
  obtain u where dump: "only_if (dump_ethernet (flags t)) (DumpEthernetFrame E ?buf (length f)) t = Ret () u"
    and u: "net u = net t" "same_files t u"
    using DumpEthernetFrame_returns[of "length f" ?buf E t] size(2,3) buf(4) small
    by (cases "dump_ethernet (flags t)") (auto simp: eth_sizes)
  have "RecvEthernetFrame E sk p wanted s
      = Ret (if fcs_ok f then (OkStatus, eth_payload f) else (crc_mismatch E f, p)) u"
    using size le unfolding RecvEthernetFrame_def Let_def ps
    by (simp add: eth_sizes recv bnd_run_Ret bnd_run_if seq_run n dump buf fcs_ok_def crc_mismatch_def)
  with u show ?thesis by blast
qed

section \<open>Over any socket that meets the contract\<close>

lemma maybe_dump_returns:
  assumes "18 \<le> length f" "length f < 2 ^ 64"
  shows "\<exists>t. only_if d (DumpEthernetFrame E f (length f)) s = Ret () t \<and> net t = net s \<and> same_files s t"
  using DumpEthernetFrame_returns[of "length f" f E s] assms by (cases d) (auto simp: eth_sizes)

context link_socket
begin

lemma send_frame:
  assumes "up (net s)" "length payload \<le> 1496"
  shows "\<exists>t. SendEthernetFrame E sk src dst payload et s = Ret OkStatus t \<and> same_files s t \<and> up (net t)
    \<and> view (net t) = (view (net s))\<lparr>outbox := outbox (view (net s)) @ [(eth_frame src dst payload et, dst)]\<rparr>"
proof -
  let ?f = "eth_frame src dst payload et"
  have len: "length ?f \<le> link_max" "18 \<le> length ?f" "length ?f < 2 ^ 64"
    using assms(2) by (auto simp: length_eth_frame link_max_def)
  obtain u where u: "only_if (dump_ethernet (flags s)) (DumpEthernetFrame E ?f (length ?f)) s = Ret () u"
    "net u = net s" "same_files s u"
    using maybe_dump_returns[OF len(2,3)] by blast
  obtain t where t: "SendTo sk ?f dst u = Ret (int (length ?f)) t" "same_files u t" "up (net t)"
    "view (net t) = (view (net u))\<lparr>outbox := outbox (view (net u)) @ [(?f, dst)]\<rparr>"
    using sendto_frame[of u ?f dst] assms(1) u(2) len(1) by auto
  have "SendEthernetFrame E sk src dst payload et s = Ret OkStatus t"
    using assms(2) by (simp add: SendEthernetFrame_eq kEthernetPayloadMax_def bnd_run_if seq_run u(1) t(1))
  with t u show ?thesis
    by (auto intro: same_files_trans)
qed

lemma recv_next_frame:
  assumes "up (net s)" "inbox (view (net s)) = f # fs"
    and "wanted \<le> 1500" "18 < length f" "length f \<le> max 46 wanted + 18"
  shows "\<exists>t. RecvEthernetFrame E sk p wanted s
      = Ret (if fcs_ok f then (OkStatus, eth_payload f) else (crc_mismatch E f, p)) t
    \<and> same_files s t \<and> up (net t) \<and> view (net t) = (view (net s))\<lparr>inbox := fs\<rparr>"
proof -
  obtain t where t: "Recv sk (max 46 wanted + 18) s = Ret (int (length f), f) t" "same_files s t" "up (net t)"
    "view (net t) = (view (net s))\<lparr>inbox := fs\<rparr>"
    using recv_frame[OF assms(1,2), of "max 46 wanted + 18"] assms(5) by auto
  obtain u where "net u = net t" "same_files t u" "RecvEthernetFrame E sk p wanted s
      = Ret (if fcs_ok f then (OkStatus, eth_payload f) else (crc_mismatch E f, p)) u"
    using RecvEthernetFrame_frame[OF t(1) assms(3-5)] by blast
  with t show ?thesis
    by (auto intro: same_files_trans)
qed

end

context safe_socket
begin

text \<open>Only a frame of at most 18 bytes can make \<open>RecvEthernetFrame\<close> leave its buffer or throw.\<close>

lemma recv_ethernet_returns:
  assumes "\<And>r bs t. Recv sk (max 46 wanted + 18) s = Ret (r, bs) t \<Longrightarrow> r \<noteq> -1 \<Longrightarrow> 18 < r"
  shows "\<exists>st q t. RecvEthernetFrame E sk p wanted s = Ret (st, q) t
    \<and> (if status_ok st then 0 < length q \<and> length q \<le> max 46 wanted else q = p)"
proof (cases "wanted \<le> 1500")
  case False
  then show ?thesis
    by (simp add: RecvEthernetFrame_def eth_sizes too_big_def)
next
  case True
  obtain r bs t where rec: "Recv sk (max 46 wanted + 18) s = Ret (r, bs) t" "length bs \<le> max 46 wanted + 18"
    "r = -1 \<and> bs = [] \<or> r = int (length bs)"
    using recv_returns[of "max 46 wanted + 18" s] by blast
  show ?thesis
  proof (cases "r = -1")
    case r: True
    have "(if wanted < kEthernetPayloadMin then kEthernetPayloadMin else wanted) = max 46 wanted"
      "\<not> 1500 < max 46 wanted"
      using True by (simp_all add: kEthernetPayloadMin_def max_def)
    then show ?thesis
      using r rec True unfolding RecvEthernetFrame_def Let_def
      by (simp add: eth_sizes bnd_run_if)
  next
    case False
    then have r: "r = int (length bs)" "18 < length bs"
      using rec assms[OF rec(1)] by auto
    then obtain u where u: "RecvEthernetFrame E sk p wanted s
        = Ret (if fcs_ok bs then (OkStatus, eth_payload bs) else (crc_mismatch E bs, p)) u"
      using RecvEthernetFrame_frame[of sk wanted s bs t E p] rec True by auto
    have "0 < length (eth_payload bs)" "length (eth_payload bs) \<le> max 46 wanted"
      using r rec(2) by (auto simp: eth_payload_def)
    then show ?thesis
      using u by (intro exI[of _ "if fcs_ok bs then OkStatus else crc_mismatch E bs"]
          exI[of _ "if fcs_ok bs then eth_payload bs else p"] exI[of _ u])
        (simp add: crc_mismatch_def)
  qed
qed

end

end
