(* ===== verification/SerializableMap.thy ===== *)
theory SerializableMap
  imports Net
begin

text \<open>
  \<open>serializable_map.h\<close>: the ordered map that the ARP cache and the routing table are stored
  in, and its text form on disk, one \<open>key, value\<close> line per entry.

  \<open>std::map\<close> is a list of entries in increasing key order. Its contract is the locale
  \<open>std_map\<close>; what the map needs of its key and value types (a text form without \<open>','\<close> and
  newline that \<open>FromString\<close> reads back) is the locale \<open>codec\<close>. The result of
  \<open>deserialize\<close> is \<open>None\<close> when the C++ code reads outside the buffer.
\<close>

section \<open>Definitions\<close>

type_synonym ('k, 'v) smap = "('k \<times> 'v) list"

definition map_find :: "('k, 'v) smap \<Rightarrow> 'k \<Rightarrow> 'v option" where
  "map_find m k = map_of m k"

text \<open>\<open>m[k] = v\<close> on a \<open>std::map\<close>.\<close>

fun map_put :: "'k::linorder \<Rightarrow> 'v \<Rightarrow> ('k, 'v) smap \<Rightarrow> ('k, 'v) smap" where
  "map_put k v [] = [(k, v)]"
| "map_put k v ((k', v') # m) =
     (if k < k' then (k, v) # (k', v') # m
      else if k = k' then (k, v) # m
      else (k', v') # map_put k v m)"

definition map_ok :: "('k::linorder, 'v) smap \<Rightarrow> bool" where
  "map_ok m \<longleftrightarrow> sorted_wrt (<) (map fst m)"

abbreviation newline :: char where
  "newline \<equiv> CHR 0x0A"

definition write_str :: "string \<Rightarrow> string \<Rightarrow> string" where
  "write_str ss str = ss @ str"

definition writeline :: "string \<Rightarrow> string \<Rightarrow> string \<Rightarrow> string" where
  "writeline ss key val = write_str (write_str (write_str (write_str ss key) '', '') val) [newline]"

fun serialize_loop :: "('k \<Rightarrow> string) \<Rightarrow> ('v \<Rightarrow> string) \<Rightarrow> string \<Rightarrow> ('k, 'v) smap \<Rightarrow> string" where
  "serialize_loop kstr vstr ss [] = ss"
| "serialize_loop kstr vstr ss ((k, v) # m) =
     serialize_loop kstr vstr (writeline ss (kstr k) (vstr v)) m"

definition serialize :: "('k \<Rightarrow> string) \<Rightarrow> ('v \<Rightarrow> string) \<Rightarrow> ('k, 'v) smap \<Rightarrow> string" where
  "serialize kstr vstr m = serialize_loop kstr vstr [] m"

text \<open>
  \<open>substr(buffer.data() + off, size, delim)\<close>: the text before the first delimiter, the
  empty string when there is none among the next \<open>size\<close> characters.
\<close>

function substr_loop :: "string \<Rightarrow> nat \<Rightarrow> u64 \<Rightarrow> char \<Rightarrow> nat \<Rightarrow> string option" where
  "substr_loop buf off sz delim i =
     (if i < unat sz then
        if off + i < length buf then
          if buf ! (off + i) = delim then Some (take i (drop off buf))
          else substr_loop buf off sz delim (Suc i)
        else None
      else Some [])"
  by pat_completeness auto
termination
  by (relation "measure (\<lambda>(buf, off, sz, delim, i). unat sz - i)") auto

declare substr_loop.simps [simp del]

definition substr :: "string \<Rightarrow> nat \<Rightarrow> u64 \<Rightarrow> char \<Rightarrow> string option" where
  "substr buf off sz delim = substr_loop buf off sz delim 0"

text \<open>\<open>readuntil\<close>: the parsed value and the advanced \<open>offset_\<close> and \<open>remaining_\<close>, which is a
  \<open>size_t\<close> and wraps around.\<close>

definition readuntil ::
  "(string \<Rightarrow> 'a) \<Rightarrow> string \<Rightarrow> char \<Rightarrow> nat \<Rightarrow> u64 \<Rightarrow> ('a \<times> nat \<times> u64) option" where
  "readuntil FromString buf delim off remaining =
     map_option (\<lambda>s. (FromString s, off + length s, remaining - word_of_nat (length s)))
       (substr buf off remaining delim)"

function deserialize_loop ::
  "(string \<Rightarrow> 'k::linorder) \<Rightarrow> (string \<Rightarrow> 'v) \<Rightarrow> string \<Rightarrow> nat \<Rightarrow> u64 \<Rightarrow> ('k, 'v) smap
   \<Rightarrow> ('k, 'v) smap option" where
  "deserialize_loop kfrom vfrom buf off remaining m =
     (if off < length buf then
        case readuntil kfrom buf CHR '','' off remaining of
          None \<Rightarrow> None
        | Some (key, off1, rem1) \<Rightarrow>
            (case readuntil vfrom buf newline (off1 + 2) (rem1 - 2) of
               None \<Rightarrow> None
             | Some (val, off2, rem2) \<Rightarrow>
                 deserialize_loop kfrom vfrom buf (off2 + 1) (rem2 - 1) (map_put key val m))
      else Some m)"
  by pat_completeness auto
termination
  by (relation "measure (\<lambda>(kfrom, vfrom, buf, off, remaining, m). length buf - off)")
    (auto simp: readuntil_def)

declare deserialize_loop.simps [simp del]

definition deserialize ::
  "(string \<Rightarrow> 'k::linorder) \<Rightarrow> (string \<Rightarrow> 'v) \<Rightarrow> string \<Rightarrow> ('k, 'v) smap \<Rightarrow> ('k, 'v) smap option" where
  "deserialize kfrom vfrom buffer m =
     deserialize_loop kfrom vfrom buffer 0 (word_of_nat (length buffer)) m"

fun show_map :: "('k \<Rightarrow> string) \<Rightarrow> ('v \<Rightarrow> string) \<Rightarrow> ('k, 'v) smap \<Rightarrow> ('s io, unit) prog" where
  "show_map kstr vstr [] = ret ()"
| "show_map kstr vstr ((k, v) # m) =
     seq (printf (''%s, %s'' @ [newline]) [FStr (kstr k), FStr (vstr v)]) (show_map kstr vstr m)"

section \<open>The ordered map\<close>

lemma strict_sorted_distinct: "sorted_wrt (<) (xs :: 'a::linorder list) \<Longrightarrow> distinct xs"
  by (simp add: strict_sorted_iff)

locale std_map =
  fixes empty :: 'm
    and put :: "'k::linorder \<Rightarrow> 'v \<Rightarrow> 'm \<Rightarrow> 'm"
    and find :: "'m \<Rightarrow> 'k \<Rightarrow> 'v option"
    and entries :: "'m \<Rightarrow> ('k \<times> 'v) list"
    and invar :: "'m \<Rightarrow> bool"
  assumes find_empty: "find empty = Map.empty"
    and find_put: "invar m \<Longrightarrow> find (put k v m) = (find m)(k \<mapsto> v)"
    and find_entries: "invar m \<Longrightarrow> find m = map_of (entries m)"
    and entries_sorted: "invar m \<Longrightarrow> sorted_wrt (<) (map fst (entries m))"
    and invar_empty: "invar empty"
    and invar_put: "invar m \<Longrightarrow> invar (put k v m)"
begin

lemma invar_put_all: "invar m \<Longrightarrow> invar (fold (\<lambda>(k, v). put k v) kvs m)"
  by (induction kvs arbitrary: m) (auto simp: invar_put)

lemma find_put_all:
  "invar m \<Longrightarrow> find (fold (\<lambda>(k, v). put k v) kvs m) = find m ++ map_of (rev kvs)"
  by (induction kvs arbitrary: m) (auto simp: invar_put find_put map_add_upds)

lemma entries_unique:
  assumes "invar m" "invar n" "find m = find n"
  shows "entries m = entries n"
proof -
  have d: "distinct (map fst (entries m))" "distinct (map fst (entries n))"
    using entries_sorted assms(1,2) by (auto intro: strict_sorted_distinct)
  have same: "set (entries m) = set (entries n)"
    using assms(3) by (simp add: find_entries assms(1,2) map_of_inject_set d)
  moreover have "sorted (map fst (entries m))" "sorted (map fst (entries n))"
    using entries_sorted assms(1,2) by (simp_all add: strict_sorted_iff)
  moreover have "inj_on fst (set (entries m) \<union> set (entries n))"
    using same d(1) by (simp add: distinct_map)
  ultimately show ?thesis
    using d by (intro map_sorted_distinct_set_unique[of fst])
qed

lemma find_put_entries:
  assumes "invar m" "invar n"
  shows "find (fold (\<lambda>(k, v). put k v) (entries n) m) = find m ++ find n"
proof -
  have "distinct (map fst (entries n))"
    using entries_sorted assms(2) by (blast intro: strict_sorted_distinct)
  then have "map_of (rev (entries n)) = map_of (entries n)"
    by (intro map_of_eqI) (auto simp: rev_map[symmetric] map_of_eq_Some_iff)
  then show ?thesis
    using assms by (simp add: find_put_all find_entries)
qed

end

lemma sorted_map_put_keys: "set (map fst (map_put k v m)) = insert k (set (map fst m))"
  by (induction k v m rule: map_put.induct) auto

lemma map_ok_map_put: "map_ok m \<Longrightarrow> map_ok (map_put k v m)"
proof (induction k v m rule: map_put.induct)
  case (2 k v k' v' m)
  then show ?case
    using sorted_map_put_keys[of k v m] by (auto simp: map_ok_def)
qed (simp add: map_ok_def)

lemma map_find_map_put: "map_ok m \<Longrightarrow> map_find (map_put k v m) = (map_find m)(k \<mapsto> v)"
  by (induction k v m rule: map_put.induct)
    (auto simp: map_ok_def map_find_def fun_eq_iff)

interpretation sl: std_map "[]" map_put map_find "\<lambda>m. m" map_ok
  by unfold_locales
    (auto simp: map_find_def fun_eq_iff map_find_map_put map_ok_map_put,
     auto simp: map_ok_def map_find_def)

section \<open>Reading one field\<close>

lemma substr_loop_found:
  assumes "buf = pre @ s @ delim # post" "off = length pre"
    and "delim \<notin> set s" "length s < unat sz" "i \<le> length s"
  shows "substr_loop buf off sz delim i = Some s"
  using assms(5)
proof (induction "length s - i" arbitrary: i)
  case 0
  then have "i = length s" by simp
  then show ?case
    using assms by (subst substr_loop.simps) (simp add: nth_append)
next
  case (Suc d)
  then have i: "i < length s" by simp
  then have "buf ! (off + i) = s ! i"
    using assms(1,2) by (simp add: nth_append)
  moreover have "s ! i \<noteq> delim"
    using i assms(3) by (metis nth_mem)
  moreover have "substr_loop buf off sz delim (Suc i) = Some s"
    using Suc by simp
  ultimately show ?case
    using i assms(1,2,4) by (subst substr_loop.simps) simp
qed

lemma readuntil_found:
  assumes "buf = pre @ s @ delim # post" "off = length pre"
    and "delim \<notin> set s" "length s < unat remaining"
  shows "readuntil parse buf delim off remaining
    = Some (parse s, off + length s, remaining - word_of_nat (length s))"
  using substr_loop_found[OF assms, of 0] by (simp add: readuntil_def substr_def)

text \<open>\<open>remaining_\<close> always holds the number of characters behind \<open>offset_\<close>.\<close>

lemma word_of_nat_diff: "b \<le> a \<Longrightarrow> word_of_nat a - word_of_nat b = (word_of_nat (a - b) :: u64)"
  by (simp add: of_nat_diff)

section \<open>Round trip through the text form\<close>

locale codec =
  fixes str :: "'a \<Rightarrow> string" and parse :: "string \<Rightarrow> 'a"
  assumes parse_str: "parse (str x) = x"
    and str_clean: "c \<in> set (str x) \<Longrightarrow> c \<noteq> CHR '','' \<and> c \<noteq> newline"

locale serializable_map = key: codec kstr kfrom + val: codec vstr vfrom
  for kstr :: "'k::linorder \<Rightarrow> string" and kfrom :: "string \<Rightarrow> 'k"
    and vstr :: "'v \<Rightarrow> string" and vfrom :: "string \<Rightarrow> 'v"
begin

lemma serialize_loop_append: "serialize_loop kstr vstr ss m = ss @ serialize kstr vstr m"
proof -
  have "serialize_loop kstr vstr (ss @ ts) m = ss @ serialize_loop kstr vstr ts m" for ss ts
    by (induction m arbitrary: ts) (auto simp: writeline_def write_str_def)
  from this[of ss "[]"] show ?thesis
    by (simp add: serialize_def)
qed

lemma serialize_Cons:
  "serialize kstr vstr ((k, v) # m) = kstr k @ '', '' @ vstr v @ newline # serialize kstr vstr m"
  using serialize_loop_append[of "writeline [] (kstr k) (vstr v)" m]
  by (simp add: serialize_def writeline_def write_str_def)

lemma serialize_Nil: "serialize kstr vstr [] = []"
  by (simp add: serialize_def)

text \<open>One turn of the loop consumes one line.\<close>

lemma deserialize_line:
  assumes buf: "buf = pre @ kstr k @ '', '' @ vstr v @ newline # post" and small: "length buf < 2 ^ 64"
  shows "deserialize_loop kfrom vfrom buf (length pre) (word_of_nat (length buf - length pre)) m
    = deserialize_loop kfrom vfrom buf (length buf - length post) (word_of_nat (length post)) (map_put k v m)"
proof -
  let ?rem = "word_of_nat (length buf - length pre) :: u64"
  let ?off2 = "length pre + length (kstr k) + 2" and ?rem2 = "word_of_nat (length (vstr v @ newline # post)) :: u64"
  have unat: "unat (word_of_nat n :: u64) = n" if "n \<le> length buf" for n
    using that small by (simp add: unat_of_nat)
  have key: "readuntil kfrom buf CHR '','' (length pre) ?rem
      = Some (k, length pre + length (kstr k), ?rem - word_of_nat (length (kstr k)))"
    using key.str_clean[of _ k] unat[of "length buf - length pre"]
    by (subst readuntil_found[where pre = pre and s = "kstr k" and post = "'' '' @ vstr v @ newline # post"])
      (auto simp: buf key.parse_str)
  have rem2: "?rem - word_of_nat (length (kstr k)) - 2 = ?rem2"
    by (simp add: buf)
  have val: "readuntil vfrom buf newline ?off2 ?rem2
      = Some (v, ?off2 + length (vstr v), ?rem2 - word_of_nat (length (vstr v)))"
    using val.str_clean[of _ v] unat[of "length (vstr v @ newline # post)"]
    by (subst readuntil_found[where pre = "pre @ kstr k @ '', ''" and s = "vstr v" and post = post])
      (auto simp: buf val.parse_str)
  have rem3: "?rem2 - word_of_nat (length (vstr v)) - 1 = word_of_nat (length post)"
    by simp
  have off3: "?off2 + length (vstr v) + 1 = length buf - length post"
    by (simp add: buf)
  have lt: "length pre < length buf"
    by (simp add: buf)
  show ?thesis
    by (subst deserialize_loop.simps) (simp only: lt key rem2 val rem3 off3 option.case prod.case if_True)
qed

lemma deserialize_lines:
  assumes "buf = pre @ serialize kstr vstr n" "length buf < 2 ^ 64"
  shows "deserialize_loop kfrom vfrom buf (length pre) (word_of_nat (length buf - length pre)) m
    = Some (fold (\<lambda>(k, v). map_put k v) n m)"
  using assms(1)
proof (induction n arbitrary: pre m)
  case Nil
  then show ?case
    by (subst deserialize_loop.simps) (simp add: serialize_Nil)
next
  case (Cons kv n)
  obtain k v where kv: "kv = (k, v)" by (cases kv)
  let ?pre = "pre @ kstr k @ '', '' @ vstr v @ [newline]"
  have buf: "buf = ?pre @ serialize kstr vstr n"
    using Cons.prems by (simp add: kv serialize_Cons)
  have "length buf - length (serialize kstr vstr n) = length ?pre"
    "length buf - length ?pre = length (serialize kstr vstr n)"
    by (simp_all add: buf)
  then show ?case
    using deserialize_line[of buf pre k v "serialize kstr vstr n" m] Cons.IH[OF buf, of "map_put k v m"]
      Cons.prems assms(2)
    by (simp only: kv serialize_Cons fold.simps comp_apply prod.case)
qed

theorem deserialize_serialize:
  assumes "length (serialize kstr vstr n) < 2 ^ 64"
  shows "deserialize kfrom vfrom (serialize kstr vstr n) m = Some (fold (\<lambda>(k, v). map_put k v) n m)"
  using deserialize_lines[of "serialize kstr vstr n" "[]" n m] assms
  by (simp add: deserialize_def)

corollary deserialize_serialize_find:
  assumes "length (serialize kstr vstr n) < 2 ^ 64" "map_ok n" "map_ok m"
  obtains m' where "deserialize kfrom vfrom (serialize kstr vstr n) m = Some m'"
    and "map_ok m'" and "map_find m' = map_find m ++ map_find n"
  using deserialize_serialize[OF assms(1)] sl.invar_put_all[OF assms(3)]
    sl.find_put_entries[OF assms(3,2)] by blast

corollary deserialize_serialize_empty:
  assumes "length (serialize kstr vstr n) < 2 ^ 64" "map_ok n"
  shows "deserialize kfrom vfrom (serialize kstr vstr n) [] = Some n"
proof -
  obtain m' where m': "deserialize kfrom vfrom (serialize kstr vstr n) [] = Some m'"
    "map_ok m'" "map_find m' = map_find [] ++ map_find n"
    using deserialize_serialize_find[OF assms sl.invar_empty] .
  then have "m' = n"
    using assms(2) by (intro sl.entries_unique) (simp_all add: sl.find_empty)
  with m'(1) show ?thesis by simp
qed

end

section \<open>Text without delimiters\<close>

text \<open>
  A missing delimiter makes \<open>substr\<close> return the empty string, and the loop steps three
  characters at a time; it leaves the buffer exactly when the length of the text is one
  more than a multiple of three.
\<close>

lemma substr_loop_missing:
  assumes "buf = pre @ t" "off = length pre" "delim \<notin> set t" "unat sz \<le> length t"
  shows "substr_loop buf off sz delim i = Some []"
proof (induction "unat sz - i" arbitrary: i)
  case 0
  then show ?case by (subst substr_loop.simps) simp
next
  case (Suc d)
  then have i: "i < unat sz" by simp
  then have "buf ! (off + i) = t ! i" "t ! i \<noteq> delim"
    using assms by (auto simp: nth_append)
  moreover have "substr_loop buf off sz delim (Suc i) = Some []"
    using Suc by simp
  ultimately show ?case
    using i assms(1,2,4) by (subst substr_loop.simps) simp
qed

lemma readuntil_missing:
  assumes "buf = pre @ t" "off = length pre" "delim \<notin> set t" "unat remaining \<le> length t"
  shows "readuntil parse buf delim off remaining = Some (parse [], off, remaining)"
  using substr_loop_missing[OF assms, of 0] by (simp add: readuntil_def substr_def)

lemma readuntil_overrun:
  assumes "length buf \<le> off" "0 < unat remaining"
  shows "readuntil parse buf delim off remaining = None"
  using assms unfolding readuntil_def substr_def by (subst substr_loop.simps) simp

text \<open>A text without delimiters reads as an empty field, and the parser moves on by three characters.\<close>

lemma readuntil_no_delim:
  assumes "length buf < 2 ^ 64" "delim \<notin> set t" "buf = pre @ t"
  shows "readuntil from_text buf delim (length pre) (word_of_nat (length t))
    = Some (from_text [], length pre, word_of_nat (length t))"
  using assms by (intro readuntil_missing) (auto simp: unat_of_nat)

lemma deserialize_loop_skip:
  assumes "length buf < 2 ^ 64" "CHR '','' \<notin> set (a # b # c # u)" "newline \<notin> set (a # b # c # u)"
    and "buf = pre @ a # b # c # u"
  shows "deserialize_loop kfrom vfrom buf (length pre) (word_of_nat (length (a # b # c # u))) m
    = deserialize_loop kfrom vfrom buf (length (pre @ [a, b, c])) (word_of_nat (length u))
        (map_put (kfrom []) (vfrom []) m)"
proof -
  let ?w = "word_of_nat (length (a # b # c # u)) :: u64"
  have "?w - 2 = word_of_nat (length (c # u))" and w3: "?w - 2 - 1 = word_of_nat (length u)"
    by simp_all
  then have "readuntil vfrom buf newline (length pre + 2) (?w - 2) = Some (vfrom [], length pre + 2, ?w - 2)"
    using readuntil_no_delim[of buf newline "c # u" "pre @ [a, b]" vfrom] assms by simp
  then show ?thesis
    using readuntil_no_delim[OF assms(1,2,4), of kfrom] assms(4) w3 by (subst deserialize_loop.simps) simp
qed

lemma deserialize_loop_no_delims:
  assumes "length buf < 2 ^ 64" "CHR '','' \<notin> set t" "newline \<notin> set t" "buf = pre @ t"
  shows "deserialize_loop kfrom vfrom buf (length pre) (word_of_nat (length t)) m = None
    \<longleftrightarrow> length t mod 3 = 1"
  using assms(2-)
proof (induction "length t" arbitrary: t pre m rule: less_induct)
  case less
  let ?w = "word_of_nat (length t) :: u64"
  note key = readuntil_no_delim[OF assms(1) less.prems(1,3), of kfrom]
  consider (zero) "t = []" | (one) a where "t = [a]" | (two) a b where "t = [a, b]"
    | (more) a b c u where "t = a # b # c # u"
    by (metis list.exhaust)
  then show ?case
  proof cases
    case zero
    then show ?thesis using less.prems by (subst deserialize_loop.simps) simp
  next
    case one
    then have "readuntil vfrom buf newline (length pre + 2) (?w - 2) = None"
      using less.prems by (intro readuntil_overrun) (auto simp: unat_gt_0)
    then show ?thesis
      using one key less.prems by (subst deserialize_loop.simps) simp
  next
    case two
    have "readuntil vfrom buf newline (length pre + 2) (?w - 2) = Some (vfrom [], length pre + 2, 0)"
      using two less.prems readuntil_missing[of buf buf "[]" "length pre + 2" newline 0 vfrom] by simp
    moreover have "deserialize_loop kfrom vfrom buf (Suc (Suc (Suc (length pre)))) r n = Some n" for r n
      using two less.prems by (subst deserialize_loop.simps) simp
    ultimately show ?thesis
      using two key less.prems by (subst deserialize_loop.simps) simp
  next
    case more
    have "length t mod 3 = length u mod 3"
      using mod_add_self1[of 3 "length u"] by (simp add: more)
    then show ?thesis
      using deserialize_loop_skip[OF assms(1), of a b c u pre kfrom vfrom m]
        less.hyps[of u "pre @ [a, b, c]"] less.prems more by simp
  qed
qed

section \<open>The two maps of the program\<close>

interpretation ip_codec: codec IpAddr_str IpAddr_FromString
  by unfold_locales (auto simp: IpAddr_FromString_str dest: IpAddr_str_chars)

interpretation routes: serializable_map IpAddr_str IpAddr_FromString IpAddr_str IpAddr_FromString
  by unfold_locales

sublocale absl_format \<subseteq> mac_codec: codec "MacAddr_str E" "MacAddr_FromString E"
  by unfold_locales (auto simp: MacAddr_FromString_str dest: MacAddr_str_chars)

sublocale absl_format \<subseteq> arp_map:
  serializable_map IpAddr_str IpAddr_FromString "MacAddr_str E" "MacAddr_FromString E"
  by unfold_locales

section \<open>Properties\<close>

context absl_format
begin

lemma is_serializable_map: "serializable_map IpAddr_str IpAddr_FromString (MacAddr_str E) (MacAddr_FromString E)"
  by (rule arp_map.serializable_map_axioms)

lemma length_serialize: "length (serialize IpAddr_str (MacAddr_str E) m) \<le> 35 * length m"
proof (induction m)
  case (Cons kv m)
  obtain k v where kv: "kv = (k, v)"
    by (cases kv)
  have "length (IpAddr_str k) \<le> 15" "length (MacAddr_str E v) = 17"
    using length_inet_ntoa[of "ip_addr k"] by (cases v; simp add: IpAddr_str_def MacAddr_str_text mac_text_def)+
  then show ?case
    using Cons.IH by (simp add: kv arp_map.serialize_Cons)
qed (simp add: arp_map.serialize_Nil)

end

text \<open>C19. A map that is written with \<open>serialize\<close> and read into an empty map with \<open>deserialize\<close> is the
  same map, entry for entry and in the same order, for an ARP cache of fewer than 2^58 entries.\<close>

theorem arp_cache_file_roundtrip:
  assumes "absl_format E" "map_ok m" "length m < 2 ^ 58"
  shows "deserialize IpAddr_FromString (MacAddr_FromString E) (serialize IpAddr_str (MacAddr_str E) m) [] = Some m"
proof (rule serializable_map.deserialize_serialize_empty[OF absl_format.is_serializable_map[OF assms(1)] _ assms(2)])
  show "length (serialize IpAddr_str (MacAddr_str E) m) < 2 ^ 64"
    using absl_format.length_serialize[OF assms(1), of m] assms(3) by simp
qed

theorem arp_cache_file_roundtrip_witness:
  "deserialize IpAddr_FromString (MacAddr_FromString libc_ext) (serialize IpAddr_str (MacAddr_str libc_ext)
     [(IpAddr 1, MacAddr 2 0 0 0 0 1), (IpAddr 2, MacAddr 2 0 0 0 0 2)]) []
   = Some [(IpAddr 1, MacAddr 2 0 0 0 0 1), (IpAddr 2, MacAddr 2 0 0 0 0 2)]"
  by (rule arp_cache_file_roundtrip[OF libc.absl_format_axioms])
    (simp_all add: map_ok_def less_IpAddr_def IpAddr_less_def)

text \<open>C35. What \<open>deserialize\<close> does with a text that holds neither a comma nor a newline, such as a
  file cut off in its first field: it reads outside the buffer exactly when the length of
  the text is one more than a multiple of three.\<close>

theorem deserialize_damaged_file:
  assumes "CHR '','' \<notin> set t" "newline \<notin> set t" "length t < 2 ^ 64"
  shows "deserialize kfrom vfrom t m = None \<longleftrightarrow> length t mod 3 = 1"
  using deserialize_loop_no_delims[OF assms(3,1,2), of "[]" kfrom vfrom m] by (simp add: deserialize_def)

theorem deserialize_damaged_file_witness:
  "deserialize IpAddr_FromString IpAddr_FromString ''10.0.0.10.'' [] = None"
  using deserialize_damaged_file[of "''10.0.0.10.''" IpAddr_FromString IpAddr_FromString "[]"] by simp

end
