(* ===== verification/Arp.thy ===== *)
theory Arp
  imports Eth SerializableMap
begin

text \<open>
  \<open>arp.h\<close> and \<open>arp.cc\<close>: the ARP packet, the cache with its file, and the four operations
  \<open>Request\<close>, \<open>HandleRequest\<close>, \<open>HandleResponse\<close> and \<open>GetMac\<close>. The state adds the cache and the
  \<open>loaded\<close> flag, both static in \<open>arp.cc\<close>, to the process state. An out parameter is an
  argument, the caller's variable, and part of the result.

  The lemmas are proved once for every socket that meets the contract \<open>link_socket\<close>: the
  frame a request puts on the link, the reply to a request for this host, the cache entry
  a reply leaves behind, and what happens on every other branch.
\<close>

section \<open>Definitions\<close>

definition kEthernetHwType :: uint16_net where
  "kEthernetHwType = uint16_net 1"

definition kIpProtocolType :: uint16_net where
  "kIpProtocolType = uint16_net 2048"

definition kArpRequest :: uint16_net where
  "kArpRequest = uint16_net 1"

definition kArpResponse :: uint16_net where
  "kArpResponse = uint16_net 2"

record Packet =
  hw_type :: uint16_net
  p_type :: uint16_net
  hw_addr_len :: byte
  p_len :: byte
  opcode :: uint16_net
  src_hw_addr :: MacAddr
  src_ip_addr :: IpAddr
  dst_hw_addr :: MacAddr
  dst_ip_addr :: IpAddr

definition sizeof_Packet :: nat where
  "sizeof_Packet = 28"

definition mem_packet :: "Packet \<Rightarrow> bytes" where
  "mem_packet p = mem_net16 (hw_type p) @ mem_net16 (p_type p) @ [hw_addr_len p, p_len p]
     @ mem_net16 (opcode p) @ mac_bytes (src_hw_addr p) @ mem_ip (src_ip_addr p)
     @ mac_bytes (dst_hw_addr p) @ mem_ip (dst_ip_addr p)"

definition read_packet :: "bytes \<Rightarrow> Packet" where
  "read_packet bs = \<lparr>hw_type = read_net16 bs, p_type = read_net16 (drop 2 bs),
     hw_addr_len = bs ! 4, p_len = bs ! 5, opcode = read_net16 (drop 6 bs),
     src_hw_addr = mac_of_bytes (drop 8 bs), src_ip_addr = read_ip (drop 14 bs),
     dst_hw_addr = mac_of_bytes (drop 18 bs), dst_ip_addr = read_ip (drop 24 bs)\<rparr>"

definition Packet_str :: "ext \<Rightarrow> Packet \<Rightarrow> string" where
  "Packet_str E p = StrFormat E
     (''arp_packet:'' @ [newline] @ ''  hw_type: %d'' @ [newline] @ ''  p_type: %d'' @ [newline] @
      ''  hw_addr_len: %d'' @ [newline] @ ''  p_len: %d'' @ [newline] @ ''  opcode: %d'' @ [newline] @
      ''  src_hw_addr: %s'' @ [newline] @ ''  src_ip_addr: %s'' @ [newline] @
      ''  dst_hw_addr: %s'' @ [newline] @ ''  dst_ip_addr: %s'')
     [FInt (uint (uint16_of_net (hw_type p))), FInt (uint (uint16_of_net (p_type p))),
      FInt (uint (hw_addr_len p)), FInt (uint (p_len p)), FInt (uint (uint16_of_net (opcode p))),
      FStr (MacAddr_str E (src_hw_addr p)), FStr (IpAddr_str (src_ip_addr p)),
      FStr (MacAddr_str E (dst_hw_addr p)), FStr (IpAddr_str (dst_ip_addr p))]"

record 'k arp_state =
  sys :: "'k io"
  g_arp_cache :: "(IpAddr, MacAddr) smap"
  arp_loaded :: bool

text \<open>An operation of a lower layer, run on the process state.\<close>

definition on_io :: "('k io, 'a) prog \<Rightarrow> ('k arp_state, 'a) prog" where
  "on_io m = zoom sys (\<lambda>i w. w\<lparr>sys := i\<rparr>) m"

text \<open>A file that cannot be opened reads as empty.\<close>

definition read_file :: "string \<Rightarrow> 'k io \<Rightarrow> string" where
  "read_file path s = (case files s path of None \<Rightarrow> [] | Some c \<Rightarrow> c)"

definition write_file :: "string \<Rightarrow> string \<Rightarrow> 'k io \<Rightarrow> 'k io" where
  "write_file path buffer s =
     (if writable s path then s\<lparr>files := (files s)(path \<mapsto> buffer)\<rparr> else s)"

definition MaybeLoadArpCache :: "ext \<Rightarrow> ('k arp_state, unit) prog" where
  "MaybeLoadArpCache E =
     bnd (gets arp_loaded) (\<lambda>loaded.
     if loaded then ret ()
     else
       bnd (gets (\<lambda>w. read_file (arp_cache (flags (sys w))) (sys w))) (\<lambda>buffer.
       bnd (gets g_arp_cache) (\<lambda>cache.
       case deserialize IpAddr_FromString (MacAddr_FromString E) buffer cache of
         None \<Rightarrow> undef
       | Some cache' \<Rightarrow> modify (\<lambda>w. w\<lparr>g_arp_cache := cache', arp_loaded := True\<rparr>))))"

definition SerializeArpCache :: "ext \<Rightarrow> ('k arp_state, unit) prog" where
  "SerializeArpCache E =
     bnd (gets (\<lambda>w. serialize IpAddr_str (MacAddr_str E) (g_arp_cache w))) (\<lambda>buffer.
     modify (\<lambda>w. w\<lparr>sys := write_file (arp_cache (flags (sys w))) buffer (sys w)\<rparr>))"

definition make_arp_packet :: "uint16_net \<Rightarrow> MacAddr \<Rightarrow> IpAddr \<Rightarrow> MacAddr \<Rightarrow> IpAddr \<Rightarrow> Packet" where
  "make_arp_packet op smac sip dmac dip = \<lparr>hw_type = kEthernetHwType, p_type = kIpProtocolType,
     hw_addr_len = word_of_nat kMacAddrLen, p_len = word_of_nat kIpAddrLen, opcode = op,
     src_hw_addr = smac, src_ip_addr = sip, dst_hw_addr = dmac, dst_ip_addr = dip\<rparr>"

definition log_arp :: "string \<Rightarrow> fmt_arg list \<Rightarrow> ('k arp_state, unit) prog" where
  "log_arp fmt args =
     bnd (gets (\<lambda>w. dump_arp (flags (sys w)))) (\<lambda>d. only_if d (on_io (printf fmt args)))"

definition Request ::
  "ext \<Rightarrow> 'k Socket \<Rightarrow> IpAddr \<Rightarrow> MacAddr \<Rightarrow> ('k arp_state, Status \<times> MacAddr) prog" where
  "Request E sk dst_ip mac_addr_out =
     seq (MaybeLoadArpCache E)
     (bnd (gets (\<lambda>w. map_find (g_arp_cache w) dst_ip)) (\<lambda>hit. case hit of
        Some mac \<Rightarrow> ret (AlreadyExistsError ''MAC found'', mac)
      | None \<Rightarrow>
          bnd (on_io (GetHostMacAddress sk)) (\<lambda>mac_result. case mac_result of
            Inl _ \<Rightarrow> ret (InternalError ''Failed to get source MAC address'', mac_addr_out)
          | Inr smac \<Rightarrow>
              bnd (on_io (GetHostIpAddress sk)) (\<lambda>ip_result. case ip_result of
                Inl _ \<Rightarrow> ret (InternalError ''Failed to get source IP address'', mac_addr_out)
              | Inr ip \<Rightarrow>
                  let arp_request = make_arp_packet kArpRequest smac ip kBroadcastMac dst_ip in
                  seq (log_arp (''[arp] Sending request %s'' @ [newline]) [FStr (Packet_str E arp_request)])
                  (bnd (on_io (SendEthernetFrame E sk smac kBroadcastMac (mem_packet arp_request)
                          kEtherTypeArp)) (\<lambda>st. ret (st, mac_addr_out)))))))"

definition not_opcode :: "ext \<Rightarrow> string \<Rightarrow> Packet \<Rightarrow> Status" where
  "not_opcode E fmt p = InternalError (StrFormat E fmt [FInt (uint (uint16_of_net (opcode p)))])"

text \<open>
  A received payload is read through a pointer to a \<open>Packet\<close>: \<open>&payload[0]\<close> must be an element, and a
  member can be read when the payload reaches to its end. Printing the packet reads all of it.
\<close>

definition log_packet :: "ext \<Rightarrow> string \<Rightarrow> bytes \<Rightarrow> ('k arp_state, unit) prog" where
  "log_packet E fmt payload =
     bnd (gets (\<lambda>w. dump_arp (flags (sys w)))) (\<lambda>d. only_if d
       (checked (sizeof_Packet \<le> length payload) (on_io (printf fmt [FStr (Packet_str E (read_packet payload))]))))"

definition HandleRequest :: "ext \<Rightarrow> 'k Socket \<Rightarrow> ('k arp_state, Status) prog" where
  "HandleRequest E sk =
     bnd (on_io (RecvEthernetFrame E sk [] sizeof_Packet)) (\<lambda>(status, payload).
     if \<not> status_ok status then ret status
     else checked (payload \<noteq> [])
       (let arp_request = read_packet payload in
        seq (log_packet E (''[arp] Handling request %s'' @ [newline]) payload)
        (checked (8 \<le> length payload)
        (if uint16_of_net (opcode arp_request) \<noteq> uint16_of_net kArpRequest then
           ret (not_opcode E ''%d is not an ARP repuest?'' arp_request)
         else
           bnd (on_io (GetHostIpAddress sk)) (\<lambda>ip_result. case ip_result of
             Inl _ \<Rightarrow> ret (InternalError ''Failed to get IP address'')
           | Inr ip \<Rightarrow>
               checked (sizeof_Packet \<le> length payload)
               (if \<not> IpAddr_eq (dst_ip_addr arp_request) ip then
                 seq (log_arp (''[arp] Ignoring request: got %s but host is %s'' @ [newline])
                        [FStr (IpAddr_str (dst_ip_addr arp_request)), FStr (IpAddr_str ip)])
                 (ret OkStatus)
               else
                 bnd (on_io (GetHostMacAddress sk)) (\<lambda>mac_result. case mac_result of
                   Inl _ \<Rightarrow> ret (InternalError ''Failed to get MAC address'')
                 | Inr mac \<Rightarrow>
                     let arp_response = make_arp_packet kArpResponse mac (dst_ip_addr arp_request)
                           (src_hw_addr arp_request) (src_ip_addr arp_request) in
                     seq (log_arp (''[arp] Sending response %s'' @ [newline])
                            [FStr (Packet_str E arp_response)])
                     (on_io (SendEthernetFrame E sk mac (dst_hw_addr arp_response)
                        (mem_packet arp_response) kEtherTypeArp)))))))))"

definition HandleResponse ::
  "ext \<Rightarrow> 'k Socket \<Rightarrow> MacAddr \<Rightarrow> ('k arp_state, Status \<times> MacAddr) prog" where
  "HandleResponse E sk mac_addr_out =
     seq (MaybeLoadArpCache E)
     (bnd (on_io (RecvEthernetFrame E sk [] sizeof_Packet)) (\<lambda>(status, payload).
      if \<not> status_ok status then ret (status, mac_addr_out)
      else checked (payload \<noteq> [])
        (let arp_response = read_packet payload in
         seq (log_packet E (''[arp] Got response %s'' @ [newline]) payload)
         (checked (8 \<le> length payload)
         (if uint16_of_net (opcode arp_response) \<noteq> uint16_of_net kArpResponse then
            ret (not_opcode E ''%d is not an ARP reply?'' arp_response, mac_addr_out)
          else
            checked (18 \<le> length payload)
            (let mac = src_hw_addr arp_response in
             seq (modify (\<lambda>w. w\<lparr>g_arp_cache := map_put (src_ip_addr arp_response) mac (g_arp_cache w)\<rparr>))
             (seq (SerializeArpCache E)
             (ret (OkStatus, mac)))))))))"

definition GetMac :: "ext \<Rightarrow> 'k Socket \<Rightarrow> IpAddr \<Rightarrow> ('k arp_state, MacAddr StatusOr) prog" where
  "GetMac E sk ip =
     bnd (Request E sk ip (uninit_mac E)) (\<lambda>(result, dst_mac).
     if IsAlreadyExists result then ret (Inr dst_mac)
     else if \<not> status_ok result then
       ret (Inl (InternalError (StrFormat E ''ARP request failed: %s'' [FStr (message result)])))
     else
       bnd (HandleResponse E sk dst_mac) (\<lambda>(result, dst_mac).
       if \<not> status_ok result then
         ret (Inl (InternalError (StrFormat E ''Failed to handle ARP response: %s'' [FStr (message result)])))
       else ret (Inr dst_mac)))"

section \<open>Packets in memory\<close>

lemma length_mem_packet [simp, layout_simps]: "length (mem_packet p) = 28"
  by (simp add: mem_packet_def)

lemma read_packet_mem_packet [simp]: "read_packet (mem_packet p @ rest) = p"
  by (simp add: read_packet_def mem_packet_def nth_append)

lemma opcode_make [simp]: "opcode (make_arp_packet op a b c d) = op"
  by (simp add: make_arp_packet_def)

lemma make_arp_packet_simps [simp]:
  "src_hw_addr (make_arp_packet op a b c d) = a" "src_ip_addr (make_arp_packet op a b c d) = b"
  "dst_hw_addr (make_arp_packet op a b c d) = c" "dst_ip_addr (make_arp_packet op a b c d) = d"
  by (simp_all add: make_arp_packet_def)

section \<open>The cache and its file\<close>

text \<open>The cache as the next operation sees it: loaded already, or read from the file now.\<close>

definition arp_view :: "ext \<Rightarrow> 'k arp_state \<Rightarrow> (IpAddr, MacAddr) smap option" where
  "arp_view E w = (if arp_loaded w then Some (g_arp_cache w)
     else deserialize IpAddr_FromString (MacAddr_FromString E)
       (read_file (arp_cache (flags (sys w))) (sys w)) (g_arp_cache w))"

lemma MaybeLoadArpCache_run:
  "arp_view E w = Some m \<Longrightarrow>
   MaybeLoadArpCache E w = Ret () (w\<lparr>g_arp_cache := m, arp_loaded := True\<rparr>)"
  by (auto simp: MaybeLoadArpCache_def arp_view_def bnd_run_if split: if_splits)

lemma on_io_run: "m (sys w) = Ret a i \<Longrightarrow> on_io m w = Ret a (w\<lparr>sys := i\<rparr>)"
  by (simp add: on_io_def zoom_Ret)

lemma log_arp_run:
  "\<exists>i. log_arp fmt args w = Ret () (w\<lparr>sys := i\<rparr>) \<and> net i = net (sys w) \<and> same_files (sys w) i"
proof (cases "dump_arp (flags (sys w))")
  case True
  then show ?thesis
    by (auto simp: log_arp_def bnd_run_if on_io_def zoom_def printf_def same_files_def)
next
  case False
  then show ?thesis
    by (intro exI[of _ "sys w"]) (simp add: log_arp_def bnd_run_if)
qed

lemma log_arp_sys:
  "\<exists>j. log_arp fmt args (w\<lparr>sys := i\<rparr>) = Ret () (w\<lparr>sys := j\<rparr>) \<and> net j = net i \<and> same_files i j"
  using log_arp_run[of fmt args "w\<lparr>sys := i\<rparr>"] by auto

lemma log_packet_whole:
  "sizeof_Packet \<le> length payload \<Longrightarrow>
   log_packet E fmt payload = log_arp fmt [FStr (Packet_str E (read_packet payload))]"
  by (simp add: log_packet_def log_arp_def)

lemma whole_packet: "sizeof_Packet \<le> length payload \<Longrightarrow> payload \<noteq> [] \<and> 8 \<le> length payload \<and> 18 \<le> length payload"
  by (auto simp: sizeof_Packet_def)

lemma SerializeArpCache_run:
  "SerializeArpCache E w = Ret () (w\<lparr>sys := write_file (arp_cache (flags (sys w)))
     (serialize IpAddr_str (MacAddr_str E) (g_arp_cache w)) (sys w)\<rparr>)"
  by (simp add: SerializeArpCache_def bnd_run_if)

lemma net_write_file [simp]: "net (write_file p b s) = net s" "flags (write_file p b s) = flags s"
  by (simp_all add: write_file_def)

section \<open>What a responder puts on the link\<close>

text \<open>
  The abstract ARP responder: the frames that answer a packet received on a link, none
  unless the packet is a request for the address of this host.
\<close>

definition arp_reply :: "link \<Rightarrow> Packet \<Rightarrow> Packet" where
  "arp_reply l p = make_arp_packet kArpResponse (link_mac l) (dst_ip_addr p) (src_hw_addr p) (src_ip_addr p)"

definition arp_answer :: "link \<Rightarrow> Packet \<Rightarrow> (bytes \<times> MacAddr) list" where
  "arp_answer l p =
     (if uint16_of_net (opcode p) = 1 \<and> dst_ip_addr p = link_ip l
      then [(eth_frame (link_mac l) (src_hw_addr p) (mem_packet (arp_reply l p)) kEtherTypeArp, src_hw_addr p)]
      else [])"

definition arp_request_frame :: "link \<Rightarrow> IpAddr \<Rightarrow> bytes" where
  "arp_request_frame l ip = eth_frame (link_mac l) kBroadcastMac
     (mem_packet (make_arp_packet kArpRequest (link_mac l) (link_ip l) kBroadcastMac ip)) kEtherTypeArp"

lemma eth_payload_packet: "46 \<le> length f \<Longrightarrow> sizeof_Packet \<le> length (eth_payload f)"
  by (simp add: eth_payload_def sizeof_Packet_def)

lemma kArp_values [simp]: "uint16_of_net kArpRequest = 1" "uint16_of_net kArpResponse = 2"
  by (simp_all add: kArpRequest_def kArpResponse_def)

lemma arp_frame_facts:
  "fcs_ok (arp_request_frame l ip)" "length (arp_request_frame l ip) = 64"
  "read_packet (eth_payload (arp_request_frame l ip))
     = make_arp_packet kArpRequest (link_mac l) (link_ip l) kBroadcastMac ip"
  by (simp_all add: arp_request_frame_def fcs_ok_eth_frame length_eth_frame eth_payload_eth_frame)

lemma arp_reply_facts:
  "fcs_ok (eth_frame src dst (mem_packet q) et)" "length (eth_frame src dst (mem_packet q) et) = 64"
  "read_packet (eth_payload (eth_frame src dst (mem_packet q) et)) = q"
  by (simp_all add: fcs_ok_eth_frame length_eth_frame eth_payload_eth_frame)

section \<open>Over any socket that meets the contract\<close>

lemma Request_hit:
  assumes "arp_view E w = Some m" "map_find m ip = Some mac"
  shows "Request E sk ip out w = Ret (AlreadyExistsError ''MAC found'', mac) (w\<lparr>g_arp_cache := m, arp_loaded := True\<rparr>)"
  using assms by (simp add: Request_def seq_run MaybeLoadArpCache_run bnd_run_if)

context link_socket
begin

lemma request_miss:
  assumes "up (net (sys w))" "arp_view E w = Some m" "map_find m ip = None"
  defines "l \<equiv> view (net (sys w))"
  shows "\<exists>i. Request E sk ip out w = Ret (OkStatus, out) (w\<lparr>sys := i, g_arp_cache := m, arp_loaded := True\<rparr>)
    \<and> same_files (sys w) i \<and> up (net i)
    \<and> view (net i) = l\<lparr>outbox := outbox l @ [(arp_request_frame l ip, kBroadcastMac)]\<rparr>"
proof -
  let ?w = "w\<lparr>g_arp_cache := m, arp_loaded := True\<rparr>"
  obtain i1 where i1: "GetHostMacAddress sk (sys w) = Ret (Inr (link_mac l)) i1" "same_files (sys w) i1"
    "up (net i1)" "view (net i1) = l"
    using get_mac[OF assms(1)] by (auto simp: l_def)
  obtain i2 where i2: "GetHostIpAddress sk i1 = Ret (Inr (link_ip l)) i2" "same_files i1 i2"
    "up (net i2)" "view (net i2) = l"
    using get_ip[OF i1(3)] i1(4) by auto
  let ?p = "make_arp_packet kArpRequest (link_mac l) (link_ip l) kBroadcastMac ip"
  obtain i3 where i3: "log_arp (''[arp] Sending request %s'' @ [newline]) [FStr (Packet_str E ?p)] (?w\<lparr>sys := i2\<rparr>)
      = Ret () (?w\<lparr>sys := i3\<rparr>)" "net i3 = net i2" "same_files i2 i3"
    using log_arp_sys by blast
  obtain i4 where i4: "SendEthernetFrame E sk (link_mac l) kBroadcastMac (mem_packet ?p) kEtherTypeArp i3 = Ret OkStatus i4"
    "same_files i3 i4" "up (net i4)"
    "view (net i4) = (view (net i3))\<lparr>outbox := outbox (view (net i3)) @ [(arp_request_frame l ip, kBroadcastMac)]\<rparr>"
    using send_frame[of i3 "mem_packet ?p" E "link_mac l" kBroadcastMac kEtherTypeArp] i2(3) i3(2) unfolding arp_request_frame_def by auto
  have "Request E sk ip out w = Ret (OkStatus, out) (?w\<lparr>sys := i4\<rparr>)"
    using assms(2,3) i1(1) i2(1) i3(1) i4(1)
    by (simp add: Request_def seq_run MaybeLoadArpCache_run bnd_run_if on_io_run Let_def)
  moreover have "same_files (sys w) i4"
    using i1(2) i2(2) i3(3) i4(2) by (blast intro: same_files_trans)
  ultimately show ?thesis
    using i2(4) i3(2) i4(3,4) by (intro exI[of _ i4]) simp
qed

lemma recv_packet:
  assumes "up (net (sys w))" "inbox (view (net (sys w))) = f # fs" "46 \<le> length f" "length f \<le> 64"
  shows "\<exists>i. on_io (RecvEthernetFrame E sk [] sizeof_Packet) w
      = Ret (if fcs_ok f then (OkStatus, eth_payload f) else (crc_mismatch E f, [])) (w\<lparr>sys := i\<rparr>)
    \<and> same_files (sys w) i \<and> up (net i) \<and> view (net i) = (view (net (sys w)))\<lparr>inbox := fs\<rparr>"
  using recv_next_frame[OF assms(1,2), of sizeof_Packet E "[]"] assms(3,4)
  by (auto simp: sizeof_Packet_def on_io_run)

text \<open>Both handlers start by receiving a packet and logging it.\<close>

lemma recv_and_log:
  assumes "up (net (sys w))" "inbox (view (net (sys w))) = f # fs" "46 \<le> length f" "length f \<le> 64"
  defines "l \<equiv> (view (net (sys w)))\<lparr>inbox := fs\<rparr>"
  shows "\<exists>i j. on_io (RecvEthernetFrame E sk [] sizeof_Packet) w
      = Ret (if fcs_ok f then (OkStatus, eth_payload f) else (crc_mismatch E f, [])) (w\<lparr>sys := i\<rparr>)
    \<and> same_files (sys w) i \<and> up (net i) \<and> view (net i) = l
    \<and> log_arp fmt args (w\<lparr>sys := i\<rparr>) = Ret () (w\<lparr>sys := j\<rparr>)
    \<and> same_files (sys w) j \<and> up (net j) \<and> view (net j) = l"
proof -
  obtain i where i: "on_io (RecvEthernetFrame E sk [] sizeof_Packet) w
      = Ret (if fcs_ok f then (OkStatus, eth_payload f) else (crc_mismatch E f, [])) (w\<lparr>sys := i\<rparr>)"
    "same_files (sys w) i" "up (net i)" "view (net i) = l"
    using recv_packet[OF assms(1-4)] unfolding l_def by blast
  obtain j where "log_arp fmt args (w\<lparr>sys := i\<rparr>) = Ret () (w\<lparr>sys := j\<rparr>)" "net j = net i" "same_files i j"
    using log_arp_sys by blast
  with i show ?thesis
    by (intro exI[of _ i] exI[of _ j]) (auto intro: same_files_trans)
qed

text \<open>The steps of an answer: the own MAC address, the log line, the frame.\<close>

lemma reply_steps:
  fixes w :: "'k arp_state"
  assumes "up (net i)" "view (net i) = l" "uint16_of_net (opcode p) = 1" "dst_ip_addr p = link_ip l"
  shows "\<exists>i4 i5 i6. GetHostMacAddress sk i = Ret (Inr (link_mac l)) i4
    \<and> log_arp fmt args (w\<lparr>sys := i4\<rparr>) = Ret () (w\<lparr>sys := i5\<rparr>)
    \<and> SendEthernetFrame E sk (link_mac l) (src_hw_addr p) (mem_packet (arp_reply l p)) kEtherTypeArp i5 = Ret OkStatus i6
    \<and> same_files i i6 \<and> up (net i6) \<and> view (net i6) = l\<lparr>outbox := outbox l @ arp_answer l p\<rparr>"
proof -
  obtain i4 where i4: "GetHostMacAddress sk i = Ret (Inr (link_mac l)) i4" "same_files i i4"
    "up (net i4)" "view (net i4) = l"
    using get_mac[of i] assms(1,2) by auto
  obtain i5 where i5: "log_arp fmt args (w\<lparr>sys := i4\<rparr>) = Ret () (w\<lparr>sys := i5\<rparr>)" "net i5 = net i4" "same_files i4 i5"
    using log_arp_sys by blast
  obtain i6 where i6: "SendEthernetFrame E sk (link_mac l) (src_hw_addr p) (mem_packet (arp_reply l p)) kEtherTypeArp i5 = Ret OkStatus i6"
    "same_files i5 i6" "up (net i6)" "view (net i6) = l\<lparr>outbox := outbox l @ arp_answer l p\<rparr>"
    using send_frame[of i5 "mem_packet (arp_reply l p)" E "link_mac l" "src_hw_addr p" kEtherTypeArp] i4(3,4) i5(2) assms(3,4)
    unfolding arp_answer_def by auto
  have "same_files i i6"
    using i4(2) i5(3) i6(2) by (blast intro: same_files_trans)
  with i4(1) i5(1) i6 show ?thesis by blast
qed

lemma handle_request:
  assumes "up (net (sys w))" "inbox (view (net (sys w))) = f # fs" "46 \<le> length f" "length f \<le> 64"
  defines "l \<equiv> (view (net (sys w)))\<lparr>inbox := fs\<rparr>" and "p \<equiv> read_packet (eth_payload f)"
  shows "\<exists>i. HandleRequest E sk w = Ret
      (if \<not> fcs_ok f then crc_mismatch E f
       else if uint16_of_net (opcode p) \<noteq> 1 then not_opcode E ''%d is not an ARP repuest?'' p
       else OkStatus) (w\<lparr>sys := i\<rparr>)
    \<and> same_files (sys w) i \<and> up (net i)
    \<and> view (net i) = l\<lparr>outbox := outbox l @ (if fcs_ok f then arp_answer l p else [])\<rparr>"
proof -
  obtain i1 i2 where i: "on_io (RecvEthernetFrame E sk [] sizeof_Packet) w
      = Ret (if fcs_ok f then (OkStatus, eth_payload f) else (crc_mismatch E f, [])) (w\<lparr>sys := i1\<rparr>)"
    "log_arp (''[arp] Handling request %s'' @ [newline]) [FStr (Packet_str E p)] (w\<lparr>sys := i1\<rparr>) = Ret () (w\<lparr>sys := i2\<rparr>)"
    and i1: "same_files (sys w) i1" "up (net i1)" "view (net i1) = l"
    and i2: "same_files (sys w) i2" "up (net i2)" "view (net i2) = l"
    using recv_and_log[OF assms(1-4)] unfolding l_def by blast
  obtain i3 where i3: "GetHostIpAddress sk i2 = Ret (Inr (link_ip l)) i3" "same_files i2 i3"
    "up (net i3)" "view (net i3) = l"
    using get_ip[of i2] i2 by auto
  note run = HandleRequest_def bnd_run_if seq_run Let_def on_io_run eth_payload_packet[OF assms(3)]
    whole_packet[OF eth_payload_packet[OF assms(3)]] log_packet_whole p_def[symmetric]
  consider (bad) "\<not> fcs_ok f" | (op) "fcs_ok f" "uint16_of_net (opcode p) \<noteq> 1"
    | (other) "fcs_ok f" "uint16_of_net (opcode p) = 1" "dst_ip_addr p \<noteq> link_ip l"
    | (mine) "fcs_ok f" "uint16_of_net (opcode p) = 1" "dst_ip_addr p = link_ip l"
    by blast
  then show ?thesis
  proof cases
    case bad
    then show ?thesis
      using i i1 by (intro exI[of _ i1]) (simp add: run crc_mismatch_def)
  next
    case op
    then show ?thesis
      using i i2 by (intro exI[of _ i2]) (simp add: run arp_answer_def)
  next
    case other
    obtain i4 where "log_arp (''[arp] Ignoring request: got %s but host is %s'' @ [newline])
        [FStr (IpAddr_str (dst_ip_addr p)), FStr (IpAddr_str (link_ip l))] (w\<lparr>sys := i3\<rparr>)
        = Ret () (w\<lparr>sys := i4\<rparr>)" "net i4 = net i3" "same_files i3 i4"
      using log_arp_sys by blast
    then show ?thesis
      using i i2(1) i3 other by (intro exI[of _ i4]) (auto simp: run arp_answer_def intro: same_files_trans)
  next
    case mine
    obtain i4 i5 i6 where "GetHostMacAddress sk i3 = Ret (Inr (link_mac l)) i4"
      "log_arp (''[arp] Sending response %s'' @ [newline]) [FStr (Packet_str E (arp_reply l p))] (w\<lparr>sys := i4\<rparr>) = Ret () (w\<lparr>sys := i5\<rparr>)"
      "SendEthernetFrame E sk (link_mac l) (src_hw_addr p) (mem_packet (arp_reply l p)) kEtherTypeArp i5 = Ret OkStatus i6"
      and i6: "same_files i3 i6" "up (net i6)" "view (net i6) = l\<lparr>outbox := outbox l @ arp_answer l p\<rparr>"
      using reply_steps[OF i3(3,4) mine(2,3)] by blast
    then have "HandleRequest E sk w = Ret OkStatus (w\<lparr>sys := i6\<rparr>)"
      using mine i i3(1) by (simp add: run arp_reply_def)
    then show ?thesis
      using i6 mine i2(1) i3(2) by (intro exI[of _ i6]) (auto intro: same_files_trans)
  qed
qed

lemma handle_response:
  assumes "up (net (sys w))" "inbox (view (net (sys w))) = f # fs" "46 \<le> length f" "length f \<le> 64"
    and "arp_view E w = Some m"
  defines "l \<equiv> (view (net (sys w)))\<lparr>inbox := fs\<rparr>" and "p \<equiv> read_packet (eth_payload f)"
  shows "\<exists>i. HandleResponse E sk out w =
      (if \<not> fcs_ok f then Ret (crc_mismatch E f, out) (w\<lparr>sys := i, g_arp_cache := m, arp_loaded := True\<rparr>)
       else if uint16_of_net (opcode p) \<noteq> 2 then
         Ret (not_opcode E ''%d is not an ARP reply?'' p, out) (w\<lparr>sys := i, g_arp_cache := m, arp_loaded := True\<rparr>)
       else let m' = map_put (src_ip_addr p) (src_hw_addr p) m in
         Ret (OkStatus, src_hw_addr p)
           (w\<lparr>sys := write_file (arp_cache (flags i)) (serialize IpAddr_str (MacAddr_str E) m') i,
              g_arp_cache := m', arp_loaded := True\<rparr>))
    \<and> same_files (sys w) i \<and> up (net i) \<and> view (net i) = l"
proof -
  let ?w = "w\<lparr>g_arp_cache := m, arp_loaded := True\<rparr>"
  obtain i1 i2 where i: "on_io (RecvEthernetFrame E sk [] sizeof_Packet) ?w
      = Ret (if fcs_ok f then (OkStatus, eth_payload f) else (crc_mismatch E f, [])) (?w\<lparr>sys := i1\<rparr>)"
    "log_arp (''[arp] Got response %s'' @ [newline]) [FStr (Packet_str E p)] (?w\<lparr>sys := i1\<rparr>) = Ret () (?w\<lparr>sys := i2\<rparr>)"
    and i1: "same_files (sys w) i1" "up (net i1)" "view (net i1) = l"
    and i2: "same_files (sys w) i2" "up (net i2)" "view (net i2) = l"
    using recv_and_log[of ?w f fs E "''[arp] Got response %s'' @ [newline]" "[FStr (Packet_str E p)]"] assms(1-4) unfolding l_def by auto
  show ?thesis
  proof (cases "fcs_ok f")
    case False
    then show ?thesis
      using i(1) i1 assms(5) by (intro exI[of _ i1])
        (simp add: HandleResponse_def bnd_run_if seq_run MaybeLoadArpCache_run crc_mismatch_def)
  next
    case True
    then show ?thesis
      using i i2 eth_payload_packet[OF assms(3)] whole_packet[OF eth_payload_packet[OF assms(3)]] assms(5)
      by (intro exI[of _ i2])
        (simp add: HandleResponse_def bnd_run_if seq_run Let_def MaybeLoadArpCache_run p_def
          log_packet_whole SerializeArpCache_run)
  qed
qed

text \<open>A request that is not answered from the cache and the reply that is waiting.\<close>

lemma request_and_response:
  assumes "up (net (sys w))" "inbox (view (net (sys w))) = f # fs" "46 \<le> length f" "length f \<le> 64" "fcs_ok f"
    and "uint16_of_net (opcode (read_packet (eth_payload f))) = 2" "arp_view E w = Some m" "map_find m ip = None"
  defines "l \<equiv> view (net (sys w))" and "p \<equiv> read_packet (eth_payload f)"
  shows "\<exists>w1 i. Request E sk ip out w = Ret (OkStatus, out) w1
    \<and> HandleResponse E sk out w1 = Ret (OkStatus, src_hw_addr p)
        (w\<lparr>sys := i, g_arp_cache := map_put (src_ip_addr p) (src_hw_addr p) m, arp_loaded := True\<rparr>)
    \<and> flags i = flags (sys w) \<and> up (net i)
    \<and> view (net i) = l\<lparr>inbox := fs, outbox := outbox l @ [(arp_request_frame l ip, kBroadcastMac)]\<rparr>"
proof -
  obtain i where i: "Request E sk ip out w = Ret (OkStatus, out) (w\<lparr>sys := i, g_arp_cache := m, arp_loaded := True\<rparr>)"
    "same_files (sys w) i" "up (net i)"
    "view (net i) = l\<lparr>outbox := outbox l @ [(arp_request_frame l ip, kBroadcastMac)]\<rparr>"
    using request_miss[OF assms(1,7,8), of out] unfolding l_def by blast
  let ?w1 = "w\<lparr>sys := i, g_arp_cache := m, arp_loaded := True\<rparr>" and ?m = "map_put (src_ip_addr p) (src_hw_addr p) m"
  have w1: "up (net (sys ?w1))" "inbox (view (net (sys ?w1))) = f # fs" "arp_view E ?w1 = Some m"
    using i assms(2) by (simp_all add: arp_view_def l_def)
  obtain j where "HandleResponse E sk out ?w1 = Ret (OkStatus, src_hw_addr p)
      (w\<lparr>sys := write_file (arp_cache (flags j)) (serialize IpAddr_str (MacAddr_str E) ?m) j, g_arp_cache := ?m, arp_loaded := True\<rparr>)"
    "same_files i j" "up (net j)" "view (net j) = (view (net i))\<lparr>inbox := fs\<rparr>"
    using handle_response[OF w1(1,2) assms(3,4) w1(3), of out] assms(5,6) by (auto simp: p_def Let_def)
  with i show ?thesis
    by (intro exI[of _ ?w1] exI[of _ "write_file (arp_cache (flags j)) (serialize IpAddr_str (MacAddr_str E) ?m) j"])
      (auto simp: same_files_def)
qed

lemma get_mac_miss:
  assumes "up (net (sys w))" "inbox (view (net (sys w))) = f # fs" "46 \<le> length f" "length f \<le> 64" "fcs_ok f"
    and "uint16_of_net (opcode (read_packet (eth_payload f))) = 2" "arp_view E w = Some m" "map_find m ip = None"
  defines "l \<equiv> view (net (sys w))" and "p \<equiv> read_packet (eth_payload f)"
  shows "\<exists>i. GetMac E sk ip w = Ret (Inr (src_hw_addr p))
        (w\<lparr>sys := i, g_arp_cache := map_put (src_ip_addr p) (src_hw_addr p) m, arp_loaded := True\<rparr>)
    \<and> flags i = flags (sys w) \<and> up (net i)
    \<and> view (net i) = l\<lparr>inbox := fs, outbox := outbox l @ [(arp_request_frame l ip, kBroadcastMac)]\<rparr>"
  using request_and_response[OF assms(1-8), of "uninit_mac E"] unfolding l_def p_def
  by (auto simp: GetMac_def bnd_run_if)

end

section \<open>A reply\<close>

text \<open>A frame with the reply of one host to another, used in the witnesses.\<close>

definition reply_frame :: bytes where
  "reply_frame = eth_frame (MacAddr 2 66 172 17 0 3) (MacAddr 2 66 172 17 0 2)
     (mem_packet (make_arp_packet kArpResponse (MacAddr 2 66 172 17 0 3) (IpAddr 0x030011AC)
       (MacAddr 2 66 172 17 0 2) (IpAddr 0x020011AC))) kEtherTypeArp"

lemma reply_frame_facts:
  "fcs_ok reply_frame" "length reply_frame = 64"
  "read_packet (eth_payload reply_frame) = make_arp_packet kArpResponse (MacAddr 2 66 172 17 0 3) (IpAddr 0x030011AC)
       (MacAddr 2 66 172 17 0 2) (IpAddr 0x020011AC)"
  by (simp_all add: reply_frame_def arp_reply_facts)

end
