(* ===== verification/Checksum.thy ===== *)
theory Checksum
  imports Prelude
begin

text \<open>
  \<open>Checksum\<close> of \<open>ip.cc\<close>, the Internet checksum of RFC 1071 over 16-bit words as the machine
  reads them. The lemmas relate the 32-bit loops to arithmetic modulo 65535 and show that a
  buffer whose checksum field holds its checksum sums to zero.
\<close>

section \<open>Definitions\<close>

fun sum_loop :: "u32 \<Rightarrow> bytes \<Rightarrow> u32" where
  "sum_loop acc (a # b # bs) = sum_loop (acc + ucast (read16 [a, b])) bs"
| "sum_loop acc [a] = acc + ucast a"
| "sum_loop acc [] = acc"

lemma unat_low_high:
  "unat ((s::u32) AND 0xFFFF) = unat s mod 65536" "unat (drop_bit 16 s) = unat s div 65536"
proof -
  have "s AND 0xFFFF = take_bit 16 s"
    by (simp add: take_bit_eq_mask mask_eq_exp_minus_1)
  then have "unat (s AND 0xFFFF) = take_bit 16 (unat s)"
    by (simp only: unsigned_take_bit_eq)
  then show "unat (s AND 0xFFFF) = unat s mod 65536"
    by (simp add: take_bit_eq_mod)
  show "unat (drop_bit 16 s) = unat s div 65536"
    by (simp only: unat_drop_bit_eq) (simp add: drop_bit_eq_div)
qed

lemma unat_fold_step: "unat (((s::u32) AND 0xFFFF) + drop_bit 16 s) = unat s mod 65536 + unat s div 65536"
proof -
  have "unat s div 65536 < 65536"
    using unat_bounds(3)[of s] by linarith
  moreover have "unat s mod 65536 < 65536"
    by simp
  ultimately have "unat s mod 65536 + unat s div 65536 < 4294967296"
    by linarith
  then show ?thesis
    by (simp add: unat_word_ariths unat_low_high)
qed

lemma high_zero: "drop_bit 16 (s::u32) = 0 \<longleftrightarrow> unat s < 65536"
  by (simp add: unat_eq_0[symmetric] unat_low_high div_eq_0_iff)

function fold_loop :: "u32 \<Rightarrow> u32" where
  "fold_loop acc =
     (if drop_bit 16 acc \<noteq> 0 then fold_loop ((acc AND 0xFFFF) + drop_bit 16 acc) else acc)"
  by pat_completeness auto
termination
proof (relation "measure unat")
  fix s :: u32
  assume "drop_bit 16 s \<noteq> 0"
  then have "65536 \<le> unat s"
    by (simp add: high_zero)
  then have "unat s mod 65536 + unat s div 65536 < unat s"
    using div_mult_mod_eq[of "unat s" 65536] by linarith
  then show "((s AND 0xFFFF) + drop_bit 16 s, s) \<in> measure unat"
    by (simp add: unat_fold_step)
qed simp

declare fold_loop.simps [simp del]

definition Checksum :: "bytes \<Rightarrow> u16" where
  "Checksum buffer = ucast (NOT (fold_loop (sum_loop 0 buffer)))"

section \<open>Arithmetic of the checksum\<close>

text \<open>The sum of the 16-bit words, without wrap-around; a last odd byte counts as itself.\<close>

fun words_sum :: "bytes \<Rightarrow> nat" where
  "words_sum (a # b # bs) = unat a + 256 * unat b + words_sum bs"
| "words_sum [a] = unat a"
| "words_sum [] = 0"

text \<open>One's complement sum of numbers below 65536: zero only for zero.\<close>

definition ones_complement :: "nat \<Rightarrow> nat" where
  "ones_complement n = (if n = 0 then 0 else (n - 1) mod 65535 + 1)"

lemma words_sum_bound: "words_sum bs \<le> 65535 * ((length bs + 1) div 2)"
proof (induction bs rule: words_sum.induct)
  case (1 a b bs)
  have "unat a + 256 * unat b \<le> 65535"
    using unat_bounds(1)[of a] unat_bounds(1)[of b] by linarith
  then show ?case
    using "1.IH" by simp
qed simp_all

lemma unat_ucast_small [simp]: "unat (ucast (w :: u16) :: u32) = unat w" "unat (ucast (b :: byte) :: u32) = unat b"
  by (simp_all add: unsigned_ucast_eq take_bit_nat_eq_self)

lemma sum_loop_words:
  "unat s + words_sum bs < 2 ^ 32 \<Longrightarrow> unat (sum_loop s bs) = unat s + words_sum bs"
proof (induction s bs rule: sum_loop.induct)
  case (1 s a b bs)
  then have "unat (s + ucast (read16 [a, b])) = unat s + (unat a + 256 * unat b)"
    by (simp add: unat_word_ariths unat_ucast_small unat_read16)
  then show ?case
    using 1 by simp
next
  case (2 s a)
  then show ?case
    by (simp add: unat_word_ariths unat_ucast_small)
qed simp

lemma fold_loop_ones: "unat (fold_loop s) = ones_complement (unat s)"
proof (induction s rule: fold_loop.induct)
  case (1 s)
  show ?case
  proof (cases "drop_bit 16 s = 0")
    case True
    then have "unat s < 65536"
      by (simp add: high_zero)
    then show ?thesis
      using True by (auto simp: fold_loop.simps[of s] ones_complement_def)
  next
    case False
    let ?n = "unat s" and ?m = "unat s mod 65536 + unat s div 65536"
    have n: "65536 \<le> ?n"
      using False by (simp add: high_zero)
    have eq: "?n = 65535 * (?n div 65536) + ?m"
      using div_mult_mod_eq[of ?n 65536] by linarith
    have m: "0 < ?m"
      using n by (simp add: div_greater_zero_iff)
    then have "?n - 1 = 65535 * (?n div 65536) + (?m - 1)"
      using eq by linarith
    then have "(?n - 1) mod 65535 = (?m - 1) mod 65535"
      by (metis mod_mult_self4)
    then show ?thesis
      using 1 False n m
      by (simp add: fold_loop.simps[of s] unat_fold_step ones_complement_def)
  qed
qed

lemma ones_complement_le: "ones_complement n \<le> 65535"
proof -
  have "(n - 1) mod 65535 < 65535"
    by simp
  then show ?thesis
    unfolding ones_complement_def by (auto simp: Suc_le_eq)
qed

lemma ucast_not_u16: "ucast (NOT (x :: u32)) = NOT (ucast x :: u16)"
  by (rule bit_word_eqI) (simp add: bit_simps)

lemma unat_not_u16: "unat (NOT (w :: u16)) = 65535 - unat w"
proof -
  have "NOT w = 65535 - w"
    by (simp add: not_eq_complement)
  moreover have "unat w \<le> 65535"
    using unat_bounds(2)[of w] by linarith
  then have "w \<le> 65535"
    by (simp add: word_le_nat_alt)
  ultimately show ?thesis
    by (simp add: unat_sub)
qed

lemma unat_Checksum:
  assumes "length bs \<le> 131072"
  shows "unat (Checksum bs) = 65535 - ones_complement (words_sum bs)"
proof -
  let ?f = "fold_loop (sum_loop 0 bs)"
  have "words_sum bs \<le> 65535 * 65536"
  proof -
    have "(length bs + 1) div 2 \<le> 65536"
      using assms by linarith
    then show ?thesis
      using words_sum_bound[of bs] by linarith
  qed
  then have "unat ?f = ones_complement (words_sum bs)"
    by (simp add: fold_loop_ones sum_loop_words)
  moreover have "unat (Checksum bs) = 65535 - unat ?f mod 65536"
    by (simp add: Checksum_def ucast_not_u16 unat_not_u16 unsigned_ucast_eq take_bit_eq_mod)
  moreover have "ones_complement (words_sum bs) mod 65536 = ones_complement (words_sum bs)"
    using ones_complement_le[of "words_sum bs"] by simp
  ultimately show ?thesis
    by simp
qed

lemma words_sum_append: "even (length xs) \<Longrightarrow> words_sum (xs @ ys) = words_sum xs + words_sum ys"
  by (induction xs rule: words_sum.induct) auto

lemma words_sum_mem16: "words_sum (mem16 w @ bs) = unat w + words_sum bs"
proof -
  obtain a b where ab: "mem16 w = [a, b]"
    using length_mem(1)[of w] unfolding length_2_conv by blast
  then have "unat w = unat a + 256 * unat b"
    using read16_mem16[of w "[]"] unat_read16[of a b] by simp
  then show ?thesis
    by (simp add: ab)
qed

text \<open>Adding the complement of a one's complement sum gives a multiple of 65535 that is not 0.\<close>

lemma ones_complement_cancel: "ones_complement (n + (65535 - ones_complement n)) = 65535"
proof (cases "n = 0")
  case False
  let ?r = "(n - 1) mod 65535"
  have r: "?r < 65535" and "n - 1 = 65535 * ((n - 1) div 65535) + ?r"
    by simp_all
  then have "n + (65535 - (?r + 1)) - 1 = 65534 + 65535 * ((n - 1) div 65535)"
    using False by linarith
  then show ?thesis
    using False by (simp add: ones_complement_def)
qed (simp add: ones_complement_def)

lemma Checksum_verifies:
  assumes "even (length pre)" "length (pre @ [0, 0] @ post) \<le> 131072"
  shows "Checksum (pre @ mem16 (Checksum (pre @ [0, 0] @ post)) @ post) = 0"
proof -
  let ?zero = "pre @ [0, 0] @ post" and ?c = "Checksum (pre @ [0, 0] @ post)"
  let ?full = "pre @ mem16 ?c @ post"
  have "words_sum ?full = words_sum ?zero + unat ?c"
    using assms(1) by (simp add: words_sum_append words_sum_mem16)
  then have "ones_complement (words_sum ?full) = 65535"
    using ones_complement_cancel[of "words_sum ?zero"] unat_Checksum[OF assms(2)] by simp
  then have "unat (Checksum ?full) = 0"
    using assms(2) by (subst unat_Checksum) simp_all
  then show ?thesis
    by (simp add: unat_eq_0)
qed

section \<open>Properties\<close>

text \<open>C11. On every buffer of at most 128 KiB the checksum is the one's complement of the one's
  complement sum of its 16-bit words (RFC 1071): the 32-bit accumulator loses no carry and
  the folding loop ends.\<close>

theorem Checksum_rfc1071:
  assumes "length buffer \<le> 131072"
  shows "unat (Checksum buffer) = 65535 - ones_complement (words_sum buffer)"
  by (rule unat_Checksum[OF assms])

theorem Checksum_rfc1071_witness:
  "unat (Checksum [0x00, 0x01, 0xf2, 0x03, 0xf4, 0xf5, 0xf6, 0xf7])
     = 65535 - ones_complement (words_sum [0x00, 0x01, 0xf2, 0x03, 0xf4, 0xf5, 0xf6, 0xf7])"
  by (rule Checksum_rfc1071) simp

end
