(* ===== verification/Ip.thy ===== *)
theory Ip
  imports Arp Checksum
begin

text \<open>
  \<open>ip.h\<close> and \<open>ip.cc\<close>: the IPv4 header, the routing table and the two datagram operations.
  The state adds the routing table and its \<open>loaded\<close> flag to the state of the ARP layer.
  Lengths that the C++ code keeps in a \<open>uint16_t\<close> or a \<open>size_t\<close> wrap around as they do there,
  and a copy past the end of a vector is undefined.
\<close>

section \<open>Definitions\<close>

record Ipv4Header =
  version_and_header_len :: byte
  tos :: byte
  total_len :: uint16_net
  frag_id :: uint16_net
  frag_flags_and_offset :: u16
  ttl :: byte
  proto :: byte
  checksum :: u16
  ip_src :: IpAddr
  ip_dst :: IpAddr

definition sizeof_Ipv4Header :: nat where
  "sizeof_Ipv4Header = 20"

definition mem_ipv4 :: "Ipv4Header \<Rightarrow> bytes" where
  "mem_ipv4 h = [version_and_header_len h, tos h] @ mem_net16 (total_len h) @ mem_net16 (frag_id h)
     @ mem16 (frag_flags_and_offset h) @ [ttl h, proto h] @ mem16 (checksum h)
     @ mem_ip (ip_src h) @ mem_ip (ip_dst h)"

datatype Protocol = Protocol_icmp | Protocol_tcp | Protocol_udp

primrec protocol_byte :: "Protocol \<Rightarrow> byte" where
  "protocol_byte Protocol_icmp = 1"
| "protocol_byte Protocol_tcp = 6"
| "protocol_byte Protocol_udp = 17"

definition kIpv4AndDefaultHeaderLen :: byte where
  "kIpv4AndDefaultHeaderLen = 0x45"

definition kTos :: byte where
  "kTos = 0"

definition kTtl :: byte where
  "kTtl = 64"

definition kDefaultDst :: IpAddr where
  "kDefaultDst = IpAddr 0"

record 'k ip_state =
  arp :: "'k arp_state"
  g_routing_table :: "(IpAddr, IpAddr) smap"
  routes_loaded :: bool

definition on_arp :: "('k arp_state, 'a) prog \<Rightarrow> ('k ip_state, 'a) prog" where
  "on_arp m = zoom arp (\<lambda>a w. w\<lparr>arp := a\<rparr>) m"

definition MaybeLoadRoutingTable :: "('k ip_state, unit) prog" where
  "MaybeLoadRoutingTable =
     bnd (gets routes_loaded) (\<lambda>loaded.
     if loaded then ret ()
     else
       bnd (gets (\<lambda>w. read_file (routing_table (flags (sys (arp w)))) (sys (arp w)))) (\<lambda>buffer.
       bnd (gets g_routing_table) (\<lambda>table.
       case deserialize IpAddr_FromString IpAddr_FromString buffer table of
         None \<Rightarrow> undef
       | Some table' \<Rightarrow> modify (\<lambda>w. w\<lparr>g_routing_table := table', routes_loaded := True\<rparr>))))"

text \<open>
  \<open>total_len\<close> is computed in 16 bits and the vector gets that many bytes, but \<open>size\<close> bytes
  are copied behind the header. \<open>&datagram[sizeof(hdr)]\<close> must be an element.
\<close>

definition MakeDatagram :: "IpAddr \<Rightarrow> IpAddr \<Rightarrow> bytes \<Rightarrow> Protocol \<Rightarrow> ('s, bytes) prog" where
  "MakeDatagram src dst payload pr =
     (let total = uint16_net (word_of_nat (sizeof_Ipv4Header + length payload));
          datagram = replicate (unat (uint16_of_net total)) 0;
          hdr = \<lparr>version_and_header_len = kIpv4AndDefaultHeaderLen, tos = kTos, total_len = total,
                 frag_id = uint16_net 0, frag_flags_and_offset = 0, ttl = kTtl,
                 proto = protocol_byte pr, checksum = uint16_of_net (uint16_net 0),
                 ip_src = src, ip_dst = dst\<rparr>;
          hdr = hdr\<lparr>checksum := Checksum (mem_ipv4 hdr)\<rparr>
      in
      bnd (memcpy_to datagram 0 (mem_ipv4 hdr)) (\<lambda>datagram.
      checked (sizeof_Ipv4Header < length datagram)
        (memcpy_to datagram sizeof_Ipv4Header payload)))"

definition route :: "(IpAddr, IpAddr) smap \<Rightarrow> IpAddr \<Rightarrow> IpAddr" where
  "route table dst =
     (case map_find table kDefaultDst of
        Some gateway \<Rightarrow> gateway
      | None \<Rightarrow> (case map_find table dst of Some gateway \<Rightarrow> gateway | None \<Rightarrow> dst))"

definition SendDatagram ::
  "ext \<Rightarrow> 'k Socket \<Rightarrow> IpAddr \<Rightarrow> bytes \<Rightarrow> Protocol \<Rightarrow> ('k ip_state, Status) prog" where
  "SendDatagram E sk dst data pr =
     seq MaybeLoadRoutingTable
     (bnd (on_arp (on_io (GetHostMacAndIp sk))) (\<lambda>mac_ip_status.
      bnd (status_value mac_ip_status) (\<lambda>(smac, sip).
      bnd (gets (\<lambda>w. route (g_routing_table w) dst)) (\<lambda>routed_dst.
      bnd (on_arp (GetMac E sk routed_dst)) (\<lambda>mac_status. case mac_status of
        Inl _ \<Rightarrow> ret (InternalError ''Failed to get MAC address'')
      | Inr dmac \<Rightarrow>
          bnd (MakeDatagram sip dst data pr) (\<lambda>datagram.
          on_arp (on_io (SendEthernetFrame E sk smac dmac datagram kEtherTypeIp))))))))"

text \<open>The largest size a \<open>std::vector<uint8_t>\<close> can be resized to.\<close>

definition vector_max :: nat where
  "vector_max = 2 ^ 63 - 1"

definition RecvDatagram ::
  "ext \<Rightarrow> 'k Socket \<Rightarrow> bytes \<Rightarrow> nat \<Rightarrow> ('k ip_state, Status \<times> bytes) prog" where
  "RecvDatagram E sk data data_size =
     (let n = size_t (int (data_size + sizeof_Ipv4Header + kEthernetOverhead)) in
      if vector_max < n then throw length_error
      else
        bnd (on_arp (on_io (RecvEthernetFrame E sk (replicate n 0) n))) (\<lambda>(status, datagram).
        if \<not> status_ok status then ret (status, data)
        else if vector_max < data_size then throw length_error
        else checked (sizeof_Ipv4Header + data_size \<le> length datagram)
          (ret (OkStatus, take data_size (drop sizeof_Ipv4Header datagram)))))"

section \<open>Datagrams\<close>

lemma length_mem_ipv4 [simp, layout_simps]: "length (mem_ipv4 h) = 20"
  by (simp add: mem_ipv4_def)

text \<open>The header of a datagram, as RFC 791 lays it out, with a given checksum.\<close>

definition ipv4_header :: "IpAddr \<Rightarrow> IpAddr \<Rightarrow> nat \<Rightarrow> Protocol \<Rightarrow> u16 \<Rightarrow> bytes" where
  "ipv4_header src dst n pr c =
     [0x45, 0] @ rev (mem16 (word_of_nat (20 + n))) @ [0, 0, 0, 0, 64, protocol_byte pr]
     @ mem16 c @ mem_ip src @ mem_ip dst"

definition ipv4_datagram :: "IpAddr \<Rightarrow> IpAddr \<Rightarrow> bytes \<Rightarrow> Protocol \<Rightarrow> bytes" where
  "ipv4_datagram src dst payload pr =
     ipv4_header src dst (length payload) pr (Checksum (ipv4_header src dst (length payload) pr 0)) @ payload"

text \<open>The frame that carries a datagram from the host on the link \<open>l\<close>, and where it is sent.\<close>

definition ip_frame :: "link \<Rightarrow> MacAddr \<Rightarrow> IpAddr \<Rightarrow> bytes \<Rightarrow> Protocol \<Rightarrow> bytes \<times> MacAddr" where
  "ip_frame l dmac dst data pr =
     (eth_frame (link_mac l) dmac (ipv4_datagram (link_ip l) dst data pr) kEtherTypeIp, dmac)"

lemma length_ipv4_header [simp, layout_simps]: "length (ipv4_header src dst n pr c) = 20"
  by (simp add: ipv4_header_def)

lemma mem16_0: "mem16 0 = [0, 0]"
  by (simp add: mem16_def numeral_2_eq_2)

lemma mem_ipv4_header:
  "mem_ipv4 \<lparr>version_and_header_len = kIpv4AndDefaultHeaderLen, tos = kTos,
     total_len = uint16_net (word_of_nat (sizeof_Ipv4Header + n)), frag_id = uint16_net 0,
     frag_flags_and_offset = 0, ttl = kTtl, proto = protocol_byte pr, checksum = c,
     ip_src = src, ip_dst = dst\<rparr> = ipv4_header src dst n pr c"
  by (simp add: mem_ipv4_def ipv4_header_def mem_net16_uint16_net mem16_0 sizeof_Ipv4Header_def
      kIpv4AndDefaultHeaderLen_def kTos_def kTtl_def)

lemma ipv4_header_verifies:
  "Checksum (ipv4_header src dst n pr (Checksum (ipv4_header src dst n pr 0))) = 0"
  using Checksum_verifies[of "[0x45, 0] @ rev (mem16 (word_of_nat (20 + n))) @ [0, 0, 0, 0, 64, protocol_byte pr]"
      "mem_ip src @ mem_ip dst"]
  by (simp add: ipv4_header_def mem16_0)

lemma MakeDatagram_unfold:
  "MakeDatagram src dst payload pr =
     (let c = Checksum (ipv4_header src dst (length payload) pr 0);
          datagram = replicate (unat (word_of_nat (20 + length payload) :: u16)) 0 in
      bnd (memcpy_to datagram 0 (ipv4_header src dst (length payload) pr c)) (\<lambda>datagram.
      checked (20 < length datagram) (memcpy_to datagram 20 payload)))"
  unfolding MakeDatagram_def Let_def Ipv4Header.simps mem_ipv4_header uint16_of_uint16_net
  by (simp add: sizeof_Ipv4Header_def mem_ipv4_header del: of_nat_add)

lemma MakeDatagram_ok:
  assumes "payload \<noteq> []" "length payload \<le> 65515"
  shows "MakeDatagram src dst payload pr = ret (ipv4_datagram src dst payload pr)"
proof -
  have len: "unat (word_of_nat (20 + length payload) :: u16) = 20 + length payload"
    using assms(2) by (simp add: unat_of_nat del: of_nat_add)
  show ?thesis
    using assms unfolding MakeDatagram_unfold len Let_def
    by (simp add: memcpy_def ipv4_datagram_def) (simp add: ret_def)
qed

lemma MakeDatagram_overflow:
  assumes "65516 \<le> length payload"
  shows "MakeDatagram src dst payload pr = undef"
proof -
  let ?n = "unat (word_of_nat (20 + length payload) :: u16)"
  have n: "?n < 65536"
    by simp
  then have "\<not> 20 + length payload \<le> ?n"
    using assms by linarith
  then show ?thesis
    unfolding MakeDatagram_unfold Let_def
    by (cases "20 \<le> ?n")
      (simp_all add: memcpy_to_def checked_def memcpy_def)
qed

lemma length_ipv4_datagram [simp]: "length (ipv4_datagram src dst payload pr) = 20 + length payload"
  by (simp add: ipv4_datagram_def)

lemma MakeDatagram_empty: "MakeDatagram src dst [] pr = undef"
  unfolding MakeDatagram_unfold Let_def by (simp add: unat_of_nat) (simp add: undef_def)

section \<open>Routing\<close>

text \<open>The routing table as the next operation sees it.\<close>

definition route_view :: "'k ip_state \<Rightarrow> (IpAddr, IpAddr) smap option" where
  "route_view w = (if routes_loaded w then Some (g_routing_table w)
     else deserialize IpAddr_FromString IpAddr_FromString
       (read_file (routing_table (flags (sys (arp w)))) (sys (arp w))) (g_routing_table w))"

lemma MaybeLoadRoutingTable_run:
  "route_view w = Some m \<Longrightarrow>
   MaybeLoadRoutingTable w = Ret () (w\<lparr>g_routing_table := m, routes_loaded := True\<rparr>)"
  by (auto simp: MaybeLoadRoutingTable_def route_view_def bnd_run_if split: if_splits)

lemma on_arp_run: "m (arp w) = Ret a i \<Longrightarrow> on_arp m w = Ret a (w\<lparr>arp := i\<rparr>)"
  by (simp add: on_arp_def zoom_Ret)

lemma on_arp_io_run: "m (sys (arp w)) = Ret a i \<Longrightarrow> on_arp (on_io m) w = Ret a (w\<lparr>arp := (arp w)\<lparr>sys := i\<rparr>\<rparr>)"
  by (simp add: on_arp_run on_io_run)

lemma arp_view_sys: "same_files (sys a) i \<Longrightarrow> arp_view E (a\<lparr>sys := i\<rparr>) = arp_view E a"
  by (simp add: arp_view_def same_files_def read_file_def)

lemma route_view_sys:
  "same_files (sys (arp w)) i \<Longrightarrow> route_view (w\<lparr>arp := (arp w)\<lparr>sys := i\<rparr>\<rparr>) = route_view w"
  by (simp add: route_view_def same_files_def read_file_def)

section \<open>Over any socket that meets the contract\<close>

context link_socket
begin

text \<open>\<open>GetMac\<close> with the address in the cache touches nothing but the cache.\<close>

lemma get_mac_cached:
  assumes "arp_view E a = Some m" "map_find m ip = Some mac"
  shows "GetMac E sk ip a = Ret (Inr mac) (a\<lparr>g_arp_cache := m, arp_loaded := True\<rparr>)"
  using Request_hit[OF assms] by (simp add: GetMac_def bnd_run_if)

text \<open>A datagram once the next hop is resolved, from the cache or over the link; \<open>R\<close> is what
  resolving it does to the rest of the process, \<open>l'\<close> the link after it.\<close>

lemma send_datagram_via:
  assumes "up (net (sys (arp w)))" "view (net (sys (arp w))) = l" "route_view w = Some rt" "data \<noteq> []" "length data \<le> 1476"
    and get: "\<And>i. same_files (sys (arp w)) i \<Longrightarrow> up (net i) \<Longrightarrow> view (net i) = l \<Longrightarrow>
      \<exists>j. GetMac E sk (route rt dst) ((arp w)\<lparr>sys := i\<rparr>) = Ret (Inr dmac) ((arp w)\<lparr>sys := j, g_arp_cache := m, arp_loaded := True\<rparr>)
        \<and> R i j \<and> up (net j) \<and> view (net j) = l'"
  shows "\<exists>i j k. SendDatagram E sk dst data pr w = Ret OkStatus
      (w\<lparr>arp := (arp w)\<lparr>sys := k, g_arp_cache := m, arp_loaded := True\<rparr>, g_routing_table := rt, routes_loaded := True\<rparr>)
    \<and> same_files (sys (arp w)) i \<and> R i j \<and> same_files j k \<and> up (net k)
    \<and> view (net k) = l'\<lparr>outbox := outbox l' @
        [(eth_frame (link_mac l) dmac (ipv4_datagram (link_ip l) dst data pr) kEtherTypeIp, dmac)]\<rparr>"
proof -
  let ?d = "ipv4_datagram (link_ip l) dst data pr"
  obtain i where i: "GetHostMacAndIp sk (sys (arp w)) = Ret (Inr (link_mac l, link_ip l)) i"
    "same_files (sys (arp w)) i" "up (net i)" "view (net i) = l"
    using get_mac_ip[OF assms(1)] assms(2) by auto
  obtain j where j: "GetMac E sk (route rt dst) ((arp w)\<lparr>sys := i\<rparr>) = Ret (Inr dmac) ((arp w)\<lparr>sys := j, g_arp_cache := m, arp_loaded := True\<rparr>)"
    "R i j" "up (net j)" "view (net j) = l'"
    using get[OF i(2-4)] by blast
  have mk: "MakeDatagram (link_ip l) dst data pr = ret ?d"
    using assms(4,5) by (simp add: MakeDatagram_ok)
  obtain k where k: "SendEthernetFrame E sk (link_mac l) dmac ?d kEtherTypeIp j = Ret OkStatus k" "same_files j k" "up (net k)"
    "view (net k) = l'\<lparr>outbox := outbox l' @ [(eth_frame (link_mac l) dmac ?d kEtherTypeIp, dmac)]\<rparr>"
    using send_frame[of j ?d E "link_mac l" dmac kEtherTypeIp] j(3,4) assms(5) by auto
  have "SendDatagram E sk dst data pr w = Ret OkStatus
      (w\<lparr>arp := (arp w)\<lparr>sys := k, g_arp_cache := m, arp_loaded := True\<rparr>, g_routing_table := rt, routes_loaded := True\<rparr>)"
    using assms(3) i(1) j(1) k(1)
    by (simp add: SendDatagram_def seq_run MaybeLoadRoutingTable_run bnd_run_if on_arp_io_run on_arp_run mk)
  with i j k show ?thesis
    by blast
qed

text \<open>The next hop is in the ARP cache.\<close>

lemma send_datagram:
  assumes "up (net (sys (arp w)))" "route_view w = Some rt" "arp_view E (arp w) = Some m"
    and "map_find m (route rt dst) = Some dmac" "data \<noteq> []" "length data \<le> 1476"
  defines "l \<equiv> view (net (sys (arp w)))"
  shows "\<exists>i. SendDatagram E sk dst data pr w = Ret OkStatus
      (w\<lparr>arp := (arp w)\<lparr>sys := i, g_arp_cache := m, arp_loaded := True\<rparr>,
         g_routing_table := rt, routes_loaded := True\<rparr>)
    \<and> same_files (sys (arp w)) i \<and> up (net i)
    \<and> view (net i) = l\<lparr>outbox := outbox l @
        [(eth_frame (link_mac l) dmac (ipv4_datagram (link_ip l) dst data pr) kEtherTypeIp, dmac)]\<rparr>"
proof -
  have "\<exists>j. GetMac E sk (route rt dst) ((arp w)\<lparr>sys := i\<rparr>) = Ret (Inr dmac) ((arp w)\<lparr>sys := j, g_arp_cache := m, arp_loaded := True\<rparr>)
      \<and> same_files i j \<and> up (net j) \<and> view (net j) = l"
    if "same_files (sys (arp w)) i" "up (net i)" "view (net i) = l" for i
    using get_mac_cached[of E "(arp w)\<lparr>sys := i\<rparr>" m] assms(3,4) that by (intro exI[of _ i]) (simp add: arp_view_sys)
  from send_datagram_via[of w l rt data E dst dmac m same_files l pr, OF assms(1) l_def[symmetric, THEN meta_eq_to_obj_eq] assms(2,5,6) this] show ?thesis
    by (blast intro: same_files_trans)
qed

text \<open>The next hop is not in the cache: it is asked for, and the reply that is waiting is believed.\<close>

lemma send_datagram_miss:
  assumes "up (net (sys (arp w)))" "route_view w = Some rt" "arp_view E (arp w) = Some m"
    and "map_find m (route rt dst) = None" "data \<noteq> []" "length data \<le> 1476"
    and "inbox (view (net (sys (arp w)))) = f # fs" "46 \<le> length f" "length f \<le> 64" "fcs_ok f"
    and "uint16_of_net (opcode (read_packet (eth_payload f))) = 2"
  defines "l \<equiv> view (net (sys (arp w)))" and "mac \<equiv> src_hw_addr (read_packet (eth_payload f))"
  shows "\<exists>w'. SendDatagram E sk dst data pr w = Ret OkStatus w'
    \<and> view (net (sys (arp w'))) = l\<lparr>inbox := fs, outbox := outbox l @ [(arp_request_frame l (route rt dst), kBroadcastMac),
        (eth_frame (link_mac l) mac (ipv4_datagram (link_ip l) dst data pr) kEtherTypeIp, mac)]\<rparr>"
proof -
  let ?m = "map_put (src_ip_addr (read_packet (eth_payload f))) mac m"
  let ?l = "l\<lparr>inbox := fs, outbox := outbox l @ [(arp_request_frame l (route rt dst), kBroadcastMac)]\<rparr>"
  have "\<exists>j. GetMac E sk (route rt dst) ((arp w)\<lparr>sys := i\<rparr>) = Ret (Inr mac) ((arp w)\<lparr>sys := j, g_arp_cache := ?m, arp_loaded := True\<rparr>)
      \<and> True \<and> up (net j) \<and> view (net j) = ?l"
    if "same_files (sys (arp w)) i" "up (net i)" "view (net i) = l" for i
    using get_mac_miss[of "(arp w)\<lparr>sys := i\<rparr>" f fs E m "route rt dst"] assms(3,4,7-11) that
    by (auto simp: arp_view_sys mac_def l_def)
  from send_datagram_via[of w l rt data E dst mac ?m "\<lambda>_ _. True" ?l pr, OF assms(1) l_def[symmetric, THEN meta_eq_to_obj_eq] assms(2,5,6) this]
  show ?thesis
    by fastforce
qed

text \<open>\<open>RecvDatagram\<close> asks for a frame of \<open>data_size + 38\<close> payload bytes and hands on
  \<open>data_size\<close> bytes behind the header.\<close>

lemma recv_datagram:
  assumes "up (net (sys (arp w)))" "inbox (view (net (sys (arp w)))) = f # fs"
    and "n \<le> 1462" "38 + n \<le> length f" "length f \<le> max 64 (56 + n)"
  shows "\<exists>i. RecvDatagram E sk data n w
      = Ret (if fcs_ok f then (OkStatus, take n (drop 20 (eth_payload f))) else (crc_mismatch E f, data))
          (w\<lparr>arp := (arp w)\<lparr>sys := i\<rparr>\<rparr>)
    \<and> same_files (sys (arp w)) i \<and> up (net i)
    \<and> view (net i) = (view (net (sys (arp w))))\<lparr>inbox := fs\<rparr>"
proof -
  have n: "size_t (int (n + sizeof_Ipv4Header + kEthernetOverhead)) = n + 38"
    using assms(3) by (simp add: sizeof_Ipv4Header_def eth_sizes)
  have len: "length f \<le> max 46 (n + 38) + 18"
    using assms(5) by simp
  obtain i where i: "RecvEthernetFrame E sk (replicate (n + 38) 0) (n + 38) (sys (arp w))
      = Ret (if fcs_ok f then (OkStatus, eth_payload f) else (crc_mismatch E f, replicate (n + 38) 0)) i"
    "same_files (sys (arp w)) i" "up (net i)" "view (net i) = (view (net (sys (arp w))))\<lparr>inbox := fs\<rparr>"
    using recv_next_frame[OF assms(1,2), of "n + 38" E "replicate (n + 38) 0"] assms(3,4) len by auto
  have "20 + n \<le> length (eth_payload f)"
    using assms(4) by (simp add: eth_payload_def)
  then have "RecvDatagram E sk data n w
      = Ret (if fcs_ok f then (OkStatus, take n (drop 20 (eth_payload f))) else (crc_mismatch E f, data))
          (w\<lparr>arp := (arp w)\<lparr>sys := i\<rparr>\<rparr>)"
    unfolding RecvDatagram_def Let_def n
    using assms(3) i(1)
    by (auto simp: vector_max_def bnd_run_if on_arp_io_run sizeof_Ipv4Header_def crc_mismatch_def)
  with i show ?thesis
    by blast
qed

end

section \<open>Properties\<close>

text \<open>C12. \<open>MakeDatagram\<close> on every payload. From 1 to 65515 bytes it returns the IPv4 datagram: a 20 byte
  header with version 4, the total length, the addresses and a checksum that verifies (a
  receiver that sums the header gets 0), then the payload. For a longer payload the 16-bit
  total length wraps around, the vector is too small, and the copy of the payload runs past
  its end; an empty payload indexes one past the end.\<close>

theorem MakeDatagram_total:
  "MakeDatagram src dst payload pr s =
     (if payload = [] \<or> 65516 \<le> length payload then Undef else Ret (ipv4_datagram src dst payload pr) s)
   \<and> Checksum (take 20 (ipv4_datagram src dst payload pr)) = 0
   \<and> drop 20 (ipv4_datagram src dst payload pr) = payload"
  using ipv4_header_verifies[of src dst "length payload" pr]
  by (auto simp: MakeDatagram_ok MakeDatagram_overflow MakeDatagram_empty ipv4_datagram_def)

end
