(* ===== verification/Icmp.thy ===== *)
theory Icmp
  imports Ip
begin

text \<open>
  \<open>icmp.h\<close> and \<open>icmp.cc\<close>: the echo request. The function-local \<open>static int seq\<close> is a field
  of the state; incrementing it past the largest \<open>int\<close> is undefined.
\<close>

section \<open>Definitions\<close>

record IcmpHeader =
  icmp_type :: byte
  code :: byte
  icmp_checksum :: u16

record EchoBody =
  hdr :: IcmpHeader
  echo_id :: uint16_net
  sequence :: uint16_net

definition sizeof_EchoBody :: nat where
  "sizeof_EchoBody = 8"

definition mem_echo :: "EchoBody \<Rightarrow> bytes" where
  "mem_echo b = [icmp_type (hdr b), code (hdr b)] @ mem16 (icmp_checksum (hdr b))
     @ mem_net16 (echo_id b) @ mem_net16 (sequence b)"

record 'k icmp_state =
  ip_layer :: "'k ip_state"
  echo_seq :: int

definition on_ip :: "('k ip_state, 'a) prog \<Rightarrow> ('k icmp_state, 'a) prog" where
  "on_ip m = zoom ip_layer (\<lambda>i w. w\<lparr>ip_layer := i\<rparr>) m"

text \<open>The assignment to \<open>sequence\<close> converts the \<open>int\<close> to 16 bits.\<close>

definition MakeEchoRequest :: "('k icmp_state, EchoBody) prog" where
  "MakeEchoRequest =
     bnd (gets echo_seq) (\<lambda>n.
     checked (n < int_max)
       (let out = \<lparr>hdr = \<lparr>icmp_type = 8, code = 0, icmp_checksum = 0\<rparr>,
              echo_id = uint16_net 0x1337, sequence = uint16_net (word_of_int n)\<rparr>;
            out = out\<lparr>hdr := (hdr out)\<lparr>icmp_checksum := Checksum (mem_echo out)\<rparr>\<rparr>
        in seq (modify (\<lambda>w. w\<lparr>echo_seq := n + 1\<rparr>)) (ret out)))"

section \<open>Echo requests\<close>

text \<open>The message of RFC 792: type 8, code 0, checksum, identifier and sequence number.\<close>

definition echo_request :: "u16 \<Rightarrow> u16 \<Rightarrow> bytes" where
  "echo_request c n = [8, 0] @ mem16 c @ [0x13, 0x37] @ rev (mem16 n)"

definition echo_message :: "u16 \<Rightarrow> bytes" where
  "echo_message n = echo_request (Checksum (echo_request 0 n)) n"

lemma length_mem_echo [simp, layout_simps]: "length (mem_echo b) = sizeof_EchoBody"
  by (simp add: mem_echo_def sizeof_EchoBody_def)

lemma mem16_1337: "mem16 0x1337 = [0x37, 0x13]"
  by code_simp

lemma length_echo_message [simp]: "length (echo_message n) = 8"
  by (simp add: echo_message_def echo_request_def)

lemma MakeEchoRequest_run:
  assumes "echo_seq w < int_max"
  shows "\<exists>b. MakeEchoRequest w = Ret b (w\<lparr>echo_seq := echo_seq w + 1\<rparr>)
    \<and> mem_echo b = echo_message (word_of_int (echo_seq w))"
  using assms
  by (simp add: MakeEchoRequest_def bnd_run_if seq_run Let_def mem_echo_def echo_message_def
      echo_request_def mem16_1337 mem_net16_uint16_net)

lemma echo_message_verifies: "Checksum (echo_message n) = 0"
  using Checksum_verifies[of "[8, 0]" "[0x13, 0x37] @ rev (mem16 n)"]
  by (simp add: echo_message_def echo_request_def mem16_0)

lemma on_ip_run: "m (ip_layer w) = Ret a i \<Longrightarrow> on_ip m w = Ret a (w\<lparr>ip_layer := i\<rparr>)"
  by (simp add: on_ip_def zoom_Ret)

section \<open>Properties\<close>

text \<open>C25. \<open>MakeEchoRequest\<close> returns an echo request with the identifier 0x1337 and the low 16 bits of
  the counter, advances the counter, and the checksum of the whole message verifies.\<close>

theorem MakeEchoRequest_message:
  assumes "echo_seq w < int_max"
  shows "\<exists>b. MakeEchoRequest w = Ret b (w\<lparr>echo_seq := echo_seq w + 1\<rparr>)
    \<and> take 2 (mem_echo b) = [8, 0] \<and> drop 4 (mem_echo b) = [0x13, 0x37] @ rev (mem16 (word_of_int (echo_seq w)))
    \<and> Checksum (mem_echo b) = 0"
  using MakeEchoRequest_run[OF assms] echo_message_verifies[of "word_of_int (echo_seq w)"]
  by (auto simp: echo_message_def echo_request_def)

theorem MakeEchoRequest_message_witness:
  "\<exists>b w'. MakeEchoRequest \<lparr>ip_layer = (undefined :: unit ip_state), echo_seq = 65536\<rparr> = Ret b w'
     \<and> Checksum (mem_echo b) = 0"
  using MakeEchoRequest_message[of "\<lparr>ip_layer = (undefined :: unit ip_state), echo_seq = 65536\<rparr>"]
  by (auto simp: int_max_def)

end
