(* ===== verification/RawSocket.thy ===== *)
theory RawSocket
  imports Socket
begin

text \<open>
  \<open>raw_socket.cc\<close>: the \<open>Socket\<close> implementation on a Linux packet socket. The kernel is the
  record \<open>kernel\<close> of the system calls the class makes, an argument of every method; what it
  does is stated by the locale \<open>packet_kernel\<close>, the documented behaviour of packet sockets
  (\<open>packet(7)\<close>) and of the interface requests (\<open>netdevice(7)\<close>).

  The members of an object are options, \<open>None\<close> while the member is not initialised. The
  function-local \<open>static bool cached\<close> variables belong to the class, not to the object, so
  they are fields of the state next to the objects.
\<close>

section \<open>Definitions\<close>

record sockaddr_ll =
  sll_family :: int
  sll_ifindex :: int
  sll_halen :: nat
  sll_addr :: bytes

definition AF_PACKET :: int where
  "AF_PACKET = 17"

definition SOCK_RAW :: int where
  "SOCK_RAW = 3"

definition ETH_P_ALL :: u16 where
  "ETH_P_ALL = 3"

text \<open>Every call gives its result, what it wrote for the caller, the error number, and the new
  state of the kernel.\<close>

record 'k kernel =
  sys_socket :: "int \<Rightarrow> int \<Rightarrow> u16 \<Rightarrow> 'k \<Rightarrow> (int \<times> unit) \<times> int \<times> 'k"
  sys_send :: "int \<Rightarrow> bytes \<Rightarrow> 'k \<Rightarrow> (int \<times> unit) \<times> int \<times> 'k"
  sys_recvfrom :: "int \<Rightarrow> nat \<Rightarrow> 'k \<Rightarrow> (int \<times> bytes) \<times> int \<times> 'k"
  sys_sendto :: "int \<Rightarrow> bytes \<Rightarrow> sockaddr_ll \<Rightarrow> 'k \<Rightarrow> (int \<times> unit) \<times> int \<times> 'k"
  sys_ifindex :: "int \<Rightarrow> string \<Rightarrow> 'k \<Rightarrow> (int \<times> int) \<times> int \<times> 'k"
  sys_hwaddr :: "int \<Rightarrow> string \<Rightarrow> 'k \<Rightarrow> (int \<times> bytes) \<times> int \<times> 'k"
  sys_ifaddr :: "int \<Rightarrow> string \<Rightarrow> 'k \<Rightarrow> (int \<times> u32) \<times> int \<times> 'k"

record RawSocket =
  fd :: int
  host_mac :: "MacAddr option"
  host_ip :: "IpAddr option"
  interface_index :: "int option"

record 'k raw =
  kern :: 'k
  index_cached :: bool
  mac_cached :: bool
  ip_cached :: bool
  objs :: "nat \<Rightarrow> RawSocket"
  next_obj :: nat

definition kEthDevice :: string where
  "kEthDevice = ''eth0''"

text \<open>A system call: \<open>errno\<close> is set when the result is negative.\<close>

definition syscall ::
  "('k \<Rightarrow> (int \<times> 'a) \<times> int \<times> 'k) \<Rightarrow> ('k raw io, int \<times> 'a) prog" where
  "syscall f = (\<lambda>s. case f (kern (net s)) of ((r, a), err, k) \<Rightarrow>
     Ret (r, a) (s\<lparr>errno := (if r < 0 then err else errno s), net := (net s)\<lparr>kern := k\<rparr>\<rparr>))"

definition set_obj :: "nat \<Rightarrow> (RawSocket \<Rightarrow> RawSocket) \<Rightarrow> ('k raw io, unit) prog" where
  "set_obj this f = modify (\<lambda>s. s\<lparr>net := (net s)\<lparr>objs := (objs (net s))(this := f (objs (net s) this))\<rparr>\<rparr>)"

definition get_fd :: "nat \<Rightarrow> ('k raw io, int) prog" where
  "get_fd this = gets (\<lambda>s. fd (objs (net s) this))"

text \<open>Reading a member that was never written is undefined.\<close>

definition get_member :: "nat \<Rightarrow> (RawSocket \<Rightarrow> 'a option) \<Rightarrow> ('k raw io, 'a) prog" where
  "get_member this f =
     bnd (gets (\<lambda>s. f (objs (net s) this))) (\<lambda>m. case m of None \<Rightarrow> undef | Some a \<Rightarrow> ret a)"

definition get_strerror :: "ext \<Rightarrow> ('k io, Status) prog" where
  "get_strerror E = bnd (gets errno) (\<lambda>e. ret (InternalError (strerror E e)))"

text \<open>The constructor initialises \<open>fd_\<close> only.\<close>

definition RawSocket_make :: "int \<Rightarrow> RawSocket" where
  "RawSocket_make f = \<lparr>fd = f, host_mac = None, host_ip = None, interface_index = None\<rparr>"

definition RawSocket_Create :: "ext \<Rightarrow> 'k kernel \<Rightarrow> ('k raw io, nat StatusOr) prog" where
  "RawSocket_Create E K =
     bnd (syscall (sys_socket K AF_PACKET SOCK_RAW (htons ETH_P_ALL))) (\<lambda>(f, _).
     if f < 0 then
       bnd (gets errno) (\<lambda>e. ret (Inl (InternalError
         (StrFormat E ''Failed to create socket: %s'' [FStr (strerror E e)]))))
     else
       bnd (gets (\<lambda>s. next_obj (net s))) (\<lambda>this.
       seq (modify (\<lambda>s. s\<lparr>net := (net s)\<lparr>next_obj := Suc this\<rparr>\<rparr>))
       (seq (set_obj this (\<lambda>_. RawSocket_make f))
       (ret (Inr this)))))"

text \<open>The message goes to standard error, which is not part of the state.\<close>

definition RawSocket_CreateOrDie :: "ext \<Rightarrow> 'k kernel \<Rightarrow> ('k raw io, nat) prog" where
  "RawSocket_CreateOrDie E K =
     bnd (RawSocket_Create E K) (\<lambda>r. case r of Inl _ \<Rightarrow> exit_with 1 | Inr this \<Rightarrow> ret this)"

definition RawSocket_Send :: "'k kernel \<Rightarrow> nat \<Rightarrow> bytes \<Rightarrow> ('k raw io, int) prog" where
  "RawSocket_Send K this buffer =
     bnd (get_fd this) (\<lambda>f. bnd (syscall (sys_send K f buffer)) (\<lambda>(r, _). ret r))"

definition RawSocket_Recv :: "'k kernel \<Rightarrow> nat \<Rightarrow> nat \<Rightarrow> ('k raw io, int \<times> bytes) prog" where
  "RawSocket_Recv K this len =
     seq (printf (''recv here'' @ [CHR 0x0A]) [])
     (bnd (get_fd this) (\<lambda>f. syscall (sys_recvfrom K f len)))"

definition RawSocket_GetInterfaceIndex :: "ext \<Rightarrow> 'k kernel \<Rightarrow> nat \<Rightarrow> ('k raw io, int StatusOr) prog" where
  "RawSocket_GetInterfaceIndex E K this =
     bnd (gets (\<lambda>s. index_cached (net s))) (\<lambda>cached.
     if cached then bnd (get_member this interface_index) (\<lambda>i. ret (Inr i))
     else
       bnd (get_fd this) (\<lambda>f.
       bnd (syscall (sys_ifindex K f kEthDevice)) (\<lambda>(r, i).
       if r < 0 then bnd (get_strerror E) (\<lambda>e. ret (Inl e))
       else
         seq (set_obj this (\<lambda>ob. ob\<lparr>interface_index := Some i\<rparr>))
         (seq (modify (\<lambda>s. s\<lparr>net := (net s)\<lparr>index_cached := True\<rparr>\<rparr>))
         (ret (Inr i))))))"

definition RawSocket_MakeSockAddr ::
  "ext \<Rightarrow> 'k kernel \<Rightarrow> nat \<Rightarrow> MacAddr \<Rightarrow> ('k raw io, sockaddr_ll StatusOr) prog" where
  "RawSocket_MakeSockAddr E K this dst =
     bnd (RawSocket_GetInterfaceIndex E K this) (\<lambda>idx. case idx of
       Inl _ \<Rightarrow> ret (Inl (InternalError ''Failed to fill sockaddr''))
     | Inr i \<Rightarrow> ret (Inr \<lparr>sll_family = AF_PACKET, sll_ifindex = i, sll_halen = kMacAddrLen,
                 sll_addr = memcpy (replicate 8 0) 0 (mac_bytes dst)\<rparr>))"

definition RawSocket_SendTo ::
  "ext \<Rightarrow> 'k kernel \<Rightarrow> nat \<Rightarrow> bytes \<Rightarrow> MacAddr \<Rightarrow> ('k raw io, int) prog" where
  "RawSocket_SendTo E K this buffer dst =
     bnd (RawSocket_MakeSockAddr E K this dst) (\<lambda>sock. case sock of
       Inl _ \<Rightarrow> ret (-123)
     | Inr ll \<Rightarrow>
         bnd (get_fd this) (\<lambda>f. bnd (syscall (sys_sendto K f buffer ll)) (\<lambda>(r, _). ret r)))"

text \<open>The address passed to \<open>recvfrom\<close> is overwritten by the call; it selects nothing.\<close>

definition RawSocket_RecvFrom ::
  "ext \<Rightarrow> 'k kernel \<Rightarrow> nat \<Rightarrow> nat \<Rightarrow> MacAddr \<Rightarrow> ('k raw io, int \<times> bytes) prog" where
  "RawSocket_RecvFrom E K this len src =
     bnd (RawSocket_MakeSockAddr E K this src) (\<lambda>sock. case sock of
       Inl _ \<Rightarrow> ret (-123, [])
     | Inr ll \<Rightarrow> bnd (get_fd this) (\<lambda>f. syscall (sys_recvfrom K f len)))"

text \<open>\<open>ret\<close> is a \<open>size_t\<close>: a result of -1 is a huge number and fails the second test.\<close>

primrec recv_all_loop ::
  "'k kernel \<Rightarrow> nat \<Rightarrow> nat \<Rightarrow> nat \<Rightarrow> nat \<Rightarrow> bytes \<Rightarrow> ('k raw io, (int \<times> bytes) option) prog" where
  "recv_all_loop K this 0 len sz got = ret None"
| "recv_all_loop K this (Suc fuel) len sz got =
     (if 0 < sz then
        bnd (RawSocket_Recv K this sz) (\<lambda>(r, bs).
        if size_t r > sz then ret (Some (-1, got @ bs))
        else recv_all_loop K this fuel len (sz - size_t r) (got @ bs))
      else ret (Some (int len, got)))"

definition RawSocket_RecvAll ::
  "'k kernel \<Rightarrow> nat \<Rightarrow> nat \<Rightarrow> nat \<Rightarrow> ('k raw io, (int \<times> bytes) option) prog" where
  "RawSocket_RecvAll K this fuel len = recv_all_loop K this fuel len len []"

text \<open>Nothing ever sets this function's \<open>cached\<close>.\<close>

definition RawSocket_GetHostMacAddress :: "ext \<Rightarrow> 'k kernel \<Rightarrow> nat \<Rightarrow> ('k raw io, MacAddr StatusOr) prog" where
  "RawSocket_GetHostMacAddress E K this =
     bnd (gets (\<lambda>s. mac_cached (net s))) (\<lambda>cached.
     if cached then bnd (get_member this host_mac) (\<lambda>m. ret (Inr m))
     else
       bnd (get_fd this) (\<lambda>f.
       bnd (syscall (sys_ifindex K f kEthDevice)) (\<lambda>(r, _).
       if r < 0 then bnd (get_strerror E) (\<lambda>e. ret (Inl e))
       else
         bnd (syscall (sys_hwaddr K f kEthDevice)) (\<lambda>(r, sa_data).
         if r < 0 then bnd (get_strerror E) (\<lambda>e. ret (Inl e))
         else
           let mac = mac_of_bytes (take kMacAddrLen sa_data) in
           seq (set_obj this (\<lambda>ob. ob\<lparr>host_mac := Some mac\<rparr>)) (ret (Inr mac))))))"

definition RawSocket_GetHostIpAddress :: "ext \<Rightarrow> 'k kernel \<Rightarrow> nat \<Rightarrow> ('k raw io, IpAddr StatusOr) prog" where
  "RawSocket_GetHostIpAddress E K this =
     bnd (gets (\<lambda>s. ip_cached (net s))) (\<lambda>cached.
     if cached then bnd (get_member this host_ip) (\<lambda>i. ret (Inr i))
     else
       bnd (get_fd this) (\<lambda>f.
       bnd (syscall (sys_ifaddr K f kEthDevice)) (\<lambda>(r, s_addr).
       if r < 0 then bnd (get_strerror E) (\<lambda>e. ret (Inl e))
       else
         seq (set_obj this (\<lambda>ob. ob\<lparr>host_ip := Some (IpAddr s_addr)\<rparr>))
         (seq (modify (\<lambda>s. s\<lparr>net := (net s)\<lparr>ip_cached := True\<rparr>\<rparr>))
         (ret (Inr (IpAddr s_addr)))))))"

definition RawSocket_GetHostMacAndIp ::
  "ext \<Rightarrow> 'k kernel \<Rightarrow> nat \<Rightarrow> ('k raw io, (MacAddr \<times> IpAddr) StatusOr) prog" where
  "RawSocket_GetHostMacAndIp E K this =
     bnd (RawSocket_GetHostIpAddress E K this) (\<lambda>ip_result. case ip_result of
       Inl _ \<Rightarrow> ret (Inl (InternalError ''Failed to get source IP address''))
     | Inr ip \<Rightarrow>
         bnd (RawSocket_GetHostMacAddress E K this) (\<lambda>mac_result. case mac_result of
           Inl _ \<Rightarrow> ret (Inl (InternalError ''Failed to get source MAC address''))
         | Inr mac \<Rightarrow> ret (Inr (mac, ip))))"

text \<open>The object \<open>this\<close> as a \<open>Socket\<close>.\<close>

definition raw_socket :: "ext \<Rightarrow> 'k kernel \<Rightarrow> nat \<Rightarrow> 'k raw Socket" where
  "raw_socket E K this = \<lparr>
     Send = RawSocket_Send K this,
     Recv = RawSocket_Recv K this,
     SendTo = RawSocket_SendTo E K this,
     RecvFrom = RawSocket_RecvFrom E K this,
     RecvAll = RawSocket_RecvAll K this,
     GetHostMacAddress = RawSocket_GetHostMacAddress E K this,
     GetHostIpAddress = RawSocket_GetHostIpAddress E K this,
     GetHostMacAndIp = RawSocket_GetHostMacAndIp E K this\<rparr>"

section \<open>Packet sockets\<close>

text \<open>The object \<open>this\<close> works: its socket is open, and what the caches promise is there.\<close>

definition raw_up ::
  "('k \<Rightarrow> link) \<Rightarrow> (int \<Rightarrow> 'k \<Rightarrow> bool) \<Rightarrow> int \<Rightarrow> nat \<Rightarrow> 'k raw \<Rightarrow> bool" where
  "raw_up kview open_fd idx this r \<longleftrightarrow> open_fd (fd (objs r this)) (kern r) \<and> \<not> mac_cached r
     \<and> (index_cached r \<longrightarrow> interface_index (objs r this) = Some idx)
     \<and> (ip_cached r \<longrightarrow> host_ip (objs r this) = Some (link_ip (kview (kern r))))"

text \<open>The process has not used a raw socket yet, and the kernel will open one for it; \<open>k\<close> is the
  state of the kernel then.\<close>

definition can_open :: "'k kernel \<Rightarrow> (int \<Rightarrow> 'k \<Rightarrow> bool) \<Rightarrow> 'k raw \<Rightarrow> 'k \<Rightarrow> bool" where
  "can_open K open_fd r k \<longleftrightarrow> \<not> index_cached r \<and> \<not> mac_cached r \<and> \<not> ip_cached r
     \<and> (\<exists>f e. sys_socket K AF_PACKET SOCK_RAW (htons ETH_P_ALL) (kern r) = ((f, ()), e, k) \<and> 0 \<le> f \<and> open_fd f k)"

text \<open>
  \<open>open_fd f k\<close>: \<open>f\<close> is an open packet socket and the interface \<open>eth0\<close> is up. \<open>kview\<close> shows
  the frames queued for the socket, the frames transmitted and the addresses of the
  interface, \<open>eth0_index\<close> is its index.
\<close>

locale packet_kernel =
  fixes K :: "'k kernel" and kview :: "'k \<Rightarrow> link" and open_fd :: "int \<Rightarrow> 'k \<Rightarrow> bool"
    and eth0_index :: int
  assumes recvfrom_safe:
      "\<exists>r bs e k'. sys_recvfrom K f n k = ((r, bs), e, k') \<and> length bs \<le> n
        \<and> (r = -1 \<and> bs = [] \<or> r = int (length bs))"
    and recvfrom_frame:
      "open_fd f k \<Longrightarrow> inbox (kview k) = x # xs \<Longrightarrow>
       \<exists>e k'. sys_recvfrom K f n k = ((int (length (take n x)), take n x), e, k')
         \<and> open_fd f k' \<and> kview k' = (kview k)\<lparr>inbox := xs\<rparr>"
    and sendto_frame:
      "open_fd f k \<Longrightarrow> length x \<le> link_max \<Longrightarrow> sll_ifindex ll = eth0_index \<Longrightarrow> sll_halen ll = 6 \<Longrightarrow>
       \<exists>e k'. sys_sendto K f x ll k = ((int (length x), ()), e, k') \<and> open_fd f k'
         \<and> kview k' = (kview k)\<lparr>outbox := outbox (kview k) @ [(x, mac_of_bytes (sll_addr ll))]\<rparr>"
    and ifindex: "open_fd f k \<Longrightarrow> \<exists>e. sys_ifindex K f kEthDevice k = ((0, eth0_index), e, k)"
    and hwaddr: "open_fd f k \<Longrightarrow>
       \<exists>e rest. sys_hwaddr K f kEthDevice k = ((0, mac_bytes (link_mac (kview k)) @ rest), e, k)"
    and ifaddr: "open_fd f k \<Longrightarrow>
       \<exists>e. sys_ifaddr K f kEthDevice k = ((0, ip_addr (link_ip (kview k))), e, k)"
begin

abbreviation up :: "nat \<Rightarrow> 'k raw \<Rightarrow> bool" where
  "up \<equiv> raw_up kview open_fd eth0_index"

lemmas raw_ops = raw_socket_def bnd_run_if seq_run syscall_def get_fd_def get_member_def set_obj_def
  printf_def same_files_def raw_up_def

lemma raw_recv_returns:
  "\<exists>r bs t. Recv (raw_socket E K this) n s = Ret (r, bs) t \<and> same_files s t \<and> length bs \<le> n
     \<and> (r = -1 \<and> bs = [] \<or> r = int (length bs))"
  using recvfrom_safe[of "fd (objs (net s) this)" n "kern (net s)"]
  by (auto simp: raw_ops RawSocket_Recv_def)

lemma raw_recv_frame:
  assumes "up this (net s)" "inbox (kview (kern (net s))) = x # xs"
  shows "\<exists>t. Recv (raw_socket E K this) n s = Ret (int (length (take n x)), take n x) t \<and> same_files s t
    \<and> up this (net t) \<and> kview (kern (net t)) = (kview (kern (net s)))\<lparr>inbox := xs\<rparr>"
  using recvfrom_frame[of "fd (objs (net s) this)" "kern (net s)" x xs n] assms
  by (auto simp: raw_ops RawSocket_Recv_def)

lemma raw_index:
  assumes "up this (net s)"
  shows "\<exists>t. RawSocket_GetInterfaceIndex E K this s = Ret (Inr eth0_index) t \<and> same_files s t
    \<and> up this (net t) \<and> kern (net t) = kern (net s) \<and> fd (objs (net t) this) = fd (objs (net s) this)"
  using ifindex[of "fd (objs (net s) this)" "kern (net s)"] assms
  by (cases "index_cached (net s)") (auto simp: raw_ops RawSocket_GetInterfaceIndex_def)

lemma raw_sendto_frame:
  assumes "up this (net s)" "length x \<le> link_max"
  shows "\<exists>t. SendTo (raw_socket E K this) x d s = Ret (int (length x)) t \<and> same_files s t
    \<and> up this (net t)
    \<and> kview (kern (net t)) = (kview (kern (net s)))\<lparr>outbox := outbox (kview (kern (net s))) @ [(x, d)]\<rparr>"
proof -
  let ?ll = "\<lparr>sll_family = AF_PACKET, sll_ifindex = eth0_index, sll_halen = kMacAddrLen,
    sll_addr = memcpy (replicate 8 0) 0 (mac_bytes d)\<rparr>"
  obtain t where t: "RawSocket_GetInterfaceIndex E K this s = Ret (Inr eth0_index) t" "same_files s t"
    "up this (net t)" "kern (net t) = kern (net s)" "fd (objs (net t) this) = fd (objs (net s) this)"
    using raw_index[OF assms(1)] by blast
  have "mac_of_bytes (sll_addr ?ll) = d"
    by (simp add: memcpy_def)
  then obtain e k' where "sys_sendto K (fd (objs (net t) this)) x ?ll (kern (net t)) = ((int (length x), ()), e, k')"
    "open_fd (fd (objs (net t) this)) k'"
    "kview k' = (kview (kern (net t)))\<lparr>outbox := outbox (kview (kern (net t))) @ [(x, d)]\<rparr>"
    using sendto_frame[of "fd (objs (net t) this)" "kern (net t)" x ?ll] t(3) assms(2)
    by (auto simp: raw_up_def kMacAddrLen_def)
  with t show ?thesis
    by (auto simp: raw_ops RawSocket_SendTo_def RawSocket_MakeSockAddr_def)
qed

lemma raw_get_mac:
  assumes "up this (net s)"
  shows "\<exists>t. RawSocket_GetHostMacAddress E K this s = Ret (Inr (link_mac (kview (kern (net s))))) t
    \<and> same_files s t \<and> up this (net t) \<and> kview (kern (net t)) = kview (kern (net s))"
  using ifindex[of "fd (objs (net s) this)" "kern (net s)"] hwaddr[of "fd (objs (net s) this)" "kern (net s)"]
    assms mac_of_bytes_mac_bytes[of "link_mac (kview (kern (net s)))" "[]"]
  by (auto simp: raw_ops RawSocket_GetHostMacAddress_def kMacAddrLen_def Let_def)

lemma raw_get_ip:
  assumes "up this (net s)"
  shows "\<exists>t. RawSocket_GetHostIpAddress E K this s = Ret (Inr (link_ip (kview (kern (net s))))) t
    \<and> same_files s t \<and> up this (net t) \<and> kview (kern (net t)) = kview (kern (net s))"
  using ifaddr[of "fd (objs (net s) this)" "kern (net s)"] assms
  by (cases "ip_cached (net s)") (auto simp: raw_ops RawSocket_GetHostIpAddress_def)

lemma raw_get_mac_ip:
  assumes "up this (net s)"
  shows "\<exists>t. RawSocket_GetHostMacAndIp E K this s
      = Ret (Inr (link_mac (kview (kern (net s))), link_ip (kview (kern (net s))))) t
    \<and> same_files s t \<and> up this (net t) \<and> kview (kern (net t)) = kview (kern (net s))"
proof -
  obtain t where t: "RawSocket_GetHostIpAddress E K this s = Ret (Inr (link_ip (kview (kern (net s))))) t"
    "same_files s t" "up this (net t)" "kview (kern (net t)) = kview (kern (net s))"
    using raw_get_ip[OF assms] by blast
  with raw_get_mac[OF t(3), of E] show ?thesis
    by (auto simp: RawSocket_GetHostMacAndIp_def bnd_run_if dest: same_files_trans)
qed

end

sublocale packet_kernel \<subseteq> raw: link_socket "raw_socket E K this" "\<lambda>r. kview (kern r)" "raw_up kview open_fd eth0_index this"
  for E this
proof unfold_locales
  fix s :: "'k raw io" and n
  show "\<exists>r bs t. Recv (raw_socket E K this) n s = Ret (r, bs) t \<and> same_files s t \<and> length bs \<le> n
      \<and> (r = -1 \<and> bs = [] \<or> r = int (length bs))"
    by (rule raw_recv_returns)
qed (use raw_recv_frame raw_sendto_frame raw_get_mac raw_get_ip raw_get_mac_ip in
      \<open>simp_all add: raw_socket_def\<close>)

context packet_kernel
begin

text \<open>The object as a socket that meets the contract.\<close>

lemma is_link:
  "link_socket (raw_socket E K this) (\<lambda>r. kview (kern r)) (raw_up kview open_fd eth0_index this)"
  by (rule raw.link_socket_axioms)

lemma create_run:
  assumes "can_open K open_fd (net s) k"
  shows "\<exists>t. RawSocket_CreateOrDie E K s = Ret (next_obj (net s)) t \<and> same_files s t
    \<and> raw_up kview open_fd eth0_index (next_obj (net s)) (net t) \<and> kern (net t) = k"
  using assms
  by (auto simp: can_open_def raw_ops RawSocket_CreateOrDie_def RawSocket_Create_def RawSocket_make_def)

text \<open>The first frame sent fills the cache of the class and the member of this object only.\<close>

lemma sendto_caches:
  assumes "raw_up kview open_fd eth0_index this (net s)" "\<not> index_cached (net s)" "length x \<le> link_max"
  shows "\<exists>t. RawSocket_SendTo E K this x d s = Ret (int (length x)) t \<and> index_cached (net t)
    \<and> (\<forall>b. b \<noteq> this \<longrightarrow> objs (net t) b = objs (net s) b)"
proof -
  let ?f = "fd (objs (net s) this)"
  let ?ll = "\<lparr>sll_family = AF_PACKET, sll_ifindex = eth0_index, sll_halen = kMacAddrLen,
    sll_addr = memcpy (replicate 8 0) 0 (mac_bytes d)\<rparr>"
  obtain e where "sys_ifindex K ?f kEthDevice (kern (net s)) = ((0, eth0_index), e, kern (net s))"
    using ifindex[of ?f "kern (net s)"] assms(1) by (auto simp: raw_up_def)
  moreover obtain e' k' where "sys_sendto K ?f x ?ll (kern (net s)) = ((int (length x), ()), e', k')"
    using sendto_frame[of ?f "kern (net s)" x ?ll] assms(1,3) by (auto simp: raw_up_def kMacAddrLen_def)
  ultimately show ?thesis
    using assms(2)
    by (auto simp: raw_ops RawSocket_SendTo_def RawSocket_MakeSockAddr_def RawSocket_GetInterfaceIndex_def)
qed

text \<open>\<open>RecvAll\<close> over frames that together fill the buffer.\<close>

lemma recv_all_loop_frames:
  assumes "raw_up kview open_fd eth0_index this (net s)" "inbox (kview (kern (net s))) = fs @ rest"
    and "\<forall>f\<in>set fs. f \<noteq> []" "length (concat fs) < 2 ^ 63" "length fs < fuel"
  shows "\<exists>t. recv_all_loop K this fuel len (length (concat fs)) got s = Ret (Some (int len, got @ concat fs)) t
    \<and> raw_up kview open_fd eth0_index this (net t)
    \<and> kview (kern (net t)) = (kview (kern (net s)))\<lparr>inbox := rest\<rparr>"
  using assms
proof (induction fs arbitrary: fuel s got)
  case Nil
  then show ?case
    by (cases fuel) (auto intro!: exI[of _ s])
next
  case (Cons f fs)
  obtain n where n: "fuel = Suc n" "length fs < n"
    using Cons.prems(5) by (cases fuel) auto
  let ?sz = "length (concat (f # fs))"
  obtain t where t: "RawSocket_Recv K this ?sz s = Ret (int (length f), f) t"
    "raw_up kview open_fd eth0_index this (net t)"
    "kview (kern (net t)) = (kview (kern (net s)))\<lparr>inbox := fs @ rest\<rparr>"
    using raw_recv_frame[of this s f "fs @ rest" _ ?sz] Cons.prems(1,2) by (auto simp: raw_socket_def)
  have sz: "size_t (int (length f)) = length f" "0 < ?sz"
    using Cons.prems(3,4) by simp_all
  obtain u where "recv_all_loop K this n len (length (concat fs)) (got @ f) t = Ret (Some (int len, (got @ f) @ concat fs)) u"
    "raw_up kview open_fd eth0_index this (net u)"
    "kview (kern (net u)) = (kview (kern (net t)))\<lparr>inbox := rest\<rparr>"
    using Cons.IH[of t n "got @ f"] t n(2) Cons.prems(3,4) by auto
  then show ?case
    using n(1) t sz by (intro exI[of _ u]) (simp add: bnd_run_if)
qed

end

text \<open>A socket that always has nothing to read, as one whose peer has closed, keeps the loop running.\<close>

lemma recv_all_loop_spins:
  assumes "\<And>f n k. \<exists>e k'. sys_recvfrom K f n k = ((0, []), e, k')" "0 < sz"
  shows "\<exists>t. recv_all_loop K this fuel len sz got s = Ret None t"
  using assms(2)
proof (induction fuel arbitrary: s got)
  case (Suc fuel)
  obtain t where "RawSocket_Recv K this sz s = Ret (0, []) t"
    using assms(1)[of "fd (objs (net s) this)" sz "kern (net s)"]
    by (auto simp: RawSocket_Recv_def seq_run printf_def bnd_run_if get_fd_def syscall_def)
  then show ?case
    using Suc.IH[of "got @ []" t] Suc.prems by (simp add: bnd_run_if)
qed simp

text \<open>The index of a second object is taken for cached although it was never read.\<close>

lemma SendTo_second_object:
  assumes "index_cached (net s)" "interface_index (objs (net s) this) = None"
  shows "RawSocket_SendTo E K this x d s = Undef"
  using assms
  by (simp add: RawSocket_SendTo_def RawSocket_MakeSockAddr_def RawSocket_GetInterfaceIndex_def bnd_run_if get_member_def)

section \<open>A kernel with packet queues\<close>

text \<open>
  A kernel that behaves as the manual pages say: one interface \<open>eth0\<close> with index 2, one
  packet socket with descriptor 3, a queue of received frames and the frames transmitted.
  Calls on another descriptor, interface or frame size fail with the documented errors.
\<close>

definition queue_kernel :: "link kernel" where
  "queue_kernel = \<lparr>
     sys_socket = (\<lambda>domain type protocol k. ((3, ()), 0, k)),
     sys_send = (\<lambda>f x k. ((-1, ()), 6, k)),
     sys_recvfrom = (\<lambda>f n k. case inbox k of
         [] \<Rightarrow> ((-1, []), 11, k)
       | x # xs \<Rightarrow> if f = 3 then ((int (length (take n x)), take n x), 0, k\<lparr>inbox := xs\<rparr>)
                   else ((-1, []), 9, k)),
     sys_sendto = (\<lambda>f x ll k.
       if f \<noteq> 3 then ((-1, ()), 9, k)
       else if sll_ifindex ll \<noteq> 2 then ((-1, ()), 6, k)
       else if length x > link_max then ((-1, ()), 90, k)
       else ((int (length x), ()), 0, k\<lparr>outbox := outbox k @ [(x, mac_of_bytes (sll_addr ll))]\<rparr>)),
     sys_ifindex = (\<lambda>f name k. if name = kEthDevice then ((0, 2), 0, k) else ((-1, 0), 19, k)),
     sys_hwaddr = (\<lambda>f name k. if name = kEthDevice then ((0, mac_bytes (link_mac k) @ replicate 8 0), 0, k)
                              else ((-1, []), 19, k)),
     sys_ifaddr = (\<lambda>f name k. if name = kEthDevice then ((0, ip_addr (link_ip k)), 0, k)
                              else ((-1, 0), 19, k))\<rparr>"

interpretation qk: packet_kernel queue_kernel "\<lambda>k. k" "\<lambda>f k. f = 3" 2
  by unfold_locales (auto simp: queue_kernel_def split: list.splits)

section \<open>Properties\<close>

definition raw_start :: "link \<Rightarrow> link raw io" where
  "raw_start l = \<lparr>flags = default_flags, stdout = [], errno = 0, files = (\<lambda>_. None), writable = (\<lambda>_. True),
     net = \<lparr>kern = l, index_cached = False, mac_cached = False, ip_cached = False,
       objs = (\<lambda>_. \<lparr>fd = 3, host_mac = None, host_ip = None, interface_index = None\<rparr>), next_obj = 1\<rparr>\<rparr>"

definition link_start :: "bytes list \<Rightarrow> link" where
  "link_start fs = \<lparr>inbox = fs, outbox = [], link_mac = MacAddr 2 66 172 17 0 2, link_ip = IpAddr 0x020011AC\<rparr>"

lemma raw_start_simps [simp]:
  "kern (net (raw_start l)) = l" "raw_up (\<lambda>k. k) (\<lambda>f k. f = 3) 2 this (net (raw_start l))"
  "flags (raw_start l) = default_flags" "files (raw_start l) = (\<lambda>_. None)"
  by (simp_all add: raw_start_def raw_up_def)

lemma link_start_simps [simp]:
  "inbox (link_start fs) = fs" "outbox (link_start fs) = []"
  "link_mac (link_start fs) = MacAddr 2 66 172 17 0 2" "link_ip (link_start fs) = IpAddr 0x020011AC"
  by (simp_all add: link_start_def)

lemma can_open_raw_start [simp]: "can_open queue_kernel (\<lambda>f k. f = 3) (net (raw_start l)) l"
  by (simp add: can_open_def raw_start_def queue_kernel_def)

text \<open>C21. \<open>RecvAll\<close> fills its buffer from any number of non-empty frames that together have the
  length asked for: one turn of the loop per frame and one more are enough, it returns the
  length, and the buffer holds the frames one after the other.\<close>

theorem RecvAll_complete:
  assumes "packet_kernel K kview open_fd idx" "raw_up kview open_fd idx this (net s)"
    and "inbox (kview (kern (net s))) = fs @ rest" "\<forall>f\<in>set fs. f \<noteq> []" "length (concat fs) < 2 ^ 63"
    and "length fs < fuel"
  shows "\<exists>t. RawSocket_RecvAll K this fuel (length (concat fs)) s
      = Ret (Some (int (length (concat fs)), concat fs)) t
    \<and> kview (kern (net t)) = (kview (kern (net s)))\<lparr>inbox := rest\<rparr>"
  using packet_kernel.recv_all_loop_frames[OF assms, of "length (concat fs)" "[]"]
  by (auto simp: RawSocket_RecvAll_def)

theorem RecvAll_complete_witness:
  "\<exists>t. RawSocket_RecvAll queue_kernel 0 3 3 (raw_start (link_start [[1, 2], [3], [4]])) = Ret (Some (3, [1, 2, 3])) t"
  using RecvAll_complete[OF qk.packet_kernel_axioms, of 0 "raw_start (link_start [[1, 2], [3], [4]])"
      "[[1, 2], [3]]" "[[4]]" 3]
  by (auto simp: numeral_3_eq_3)

text \<open>C37. When \<open>recvfrom\<close> keeps returning 0, as on a socket whose peer has closed, \<open>RecvAll\<close> never
  returns: after any number of turns the loop is still running.\<close>

theorem RecvAll_spins_on_zero:
  assumes "\<And>f n k. \<exists>e k'. sys_recvfrom K f n k = ((0, []), e, k')" "0 < len"
  shows "\<exists>t. RawSocket_RecvAll K this fuel len s = Ret None t"
  unfolding RawSocket_RecvAll_def by (rule recv_all_loop_spins[OF assms])

theorem RecvAll_spins_on_zero_witness:
  "\<exists>t. RawSocket_RecvAll (queue_kernel\<lparr>sys_recvfrom := (\<lambda>f n k. ((0, []), 0, k))\<rparr>) 0 1000 4
     (raw_start (link_start [])) = Ret None t"
  by (rule RecvAll_spins_on_zero) simp_all

text \<open>C38. The interface index is cached once per class but stored per object: after one object has
  sent a frame of at most 1514 bytes, sending through a second object that was just created reads its
  uninitialised member.\<close>

theorem second_object_undefined:
  assumes "packet_kernel K kview open_fd idx" "raw_up kview open_fd idx a (net s)" "\<not> index_cached (net s)"
    and "a \<noteq> b" "interface_index (objs (net s) b) = None" "length x \<le> link_max"
  shows "\<exists>t. RawSocket_SendTo E K a x d s = Ret (int (length x)) t \<and> RawSocket_SendTo E' K b y d' t = Undef"
proof -
  obtain t where "RawSocket_SendTo E K a x d s = Ret (int (length x)) t" "index_cached (net t)"
    "objs (net t) b = objs (net s) b"
    using packet_kernel.sendto_caches[OF assms(1-3,6), of E d] assms(4) by auto
  then show ?thesis
    using assms(5) by (auto intro: SendTo_second_object)
qed

theorem second_object_undefined_witness:
  "\<exists>t. RawSocket_SendTo libc_ext queue_kernel 0 [1] kBroadcastMac (raw_start (link_start [])) = Ret 1 t
     \<and> RawSocket_SendTo libc_ext queue_kernel 1 [2] kBroadcastMac t = Undef"
  using second_object_undefined[OF qk.packet_kernel_axioms, of 0 "raw_start (link_start [])" 1 "[1]"
      libc_ext kBroadcastMac libc_ext "[2]" kBroadcastMac]
  by (simp add: raw_start_def raw_up_def link_max_def)

end
