(* ===== verification/Apps.thy ===== *)
theory Apps
  imports Icmp RawSocket
begin

text \<open>
  The three programs of the repository: \<open>ping.cc\<close>, \<open>arping.cc\<close> and \<open>eth_echo.cc\<close>. Code that
  takes a \<open>Socket *\<close> takes the record of methods; the \<open>Main\<close> functions open a \<open>RawSocket\<close>.
  The servers loop forever; \<open>turns\<close> is the number of turns of the loop to run, and a server
  that is still running has the result \<open>None\<close>. \<open>sleep\<close> and \<open>usleep\<close> change nothing here.

  The lemmas, over any socket that meets its contract, describe a whole run: the answers the
  ARP server puts on the link for a sequence of frames, and the echo requests of \<open>ping\<close>.
\<close>

section \<open>Definitions: ping.cc\<close>

definition on_proc :: "('k io, 'a) prog \<Rightarrow> ('k icmp_state, 'a) prog" where
  "on_proc m = on_ip (on_arp (on_io m))"

definition Ping :: "ext \<Rightarrow> 'k Socket \<Rightarrow> IpAddr \<Rightarrow> ('k icmp_state, int) prog" where
  "Ping E sk ip =
     bnd MakeEchoRequest (\<lambda>request.
     bnd (on_ip (SendDatagram E sk ip (mem_echo request) Protocol_icmp)) (\<lambda>status.
     if \<not> status_ok status then seq (on_proc (printf ''[ping] Failed to send'' [])) (ret 1)
     else
       bnd (on_ip (RecvDatagram E sk [] sizeof_EchoBody)) (\<lambda>(status, response_buffer).
       if \<not> status_ok status then seq (on_proc (printf ''[ping] Failed to recv'' [])) (ret 1)
       else ret 0)))"

primrec ping_loop :: "ext \<Rightarrow> 'k Socket \<Rightarrow> IpAddr \<Rightarrow> nat \<Rightarrow> ('k icmp_state, int) prog" where
  "ping_loop E sk ip 0 = ret 0"
| "ping_loop E sk ip (Suc n) =
     bnd (Ping E sk ip) (\<lambda>r. if r \<noteq> 0 then ret r else ping_loop E sk ip n)"

definition ping_Main :: "ext \<Rightarrow> 'k kernel \<Rightarrow> ('k raw icmp_state, int) prog" where
  "ping_Main E K =
     bnd (on_proc (gets flags)) (\<lambda>fl.
     if dest_ip fl = [] then
       seq (on_proc (printf (''[ping] must set ip address'' @ [newline]) [])) (ret (-1))
     else
       let ip = IpAddr_FromString (dest_ip fl) in
       bnd (on_proc (RawSocket_CreateOrDie E K)) (\<lambda>this.
       ping_loop E (raw_socket E K this) ip (nat (num_requests fl))))"

section \<open>Definitions: arping.cc\<close>

definition puts :: "string \<Rightarrow> ('k io, unit) prog" where
  "puts s = modify (\<lambda>st. st\<lparr>stdout := stdout st @ s @ [newline]\<rparr>)"

definition arping_turn :: "ext \<Rightarrow> 'k Socket \<Rightarrow> ('k arp_state, unit) prog" where
  "arping_turn E sk =
     bnd (HandleRequest E sk) (\<lambda>status.
     seq (only_if (\<not> status_ok status)
       (on_io (puts (c_str (StrFormat E ''[arping] Err: %s'' [FStr (message status)])))))
     (on_io (printf [newline] [])))"

primrec arping_loop :: "ext \<Rightarrow> 'k Socket \<Rightarrow> nat \<Rightarrow> ('k arp_state, unit) prog" where
  "arping_loop E sk 0 = ret ()"
| "arping_loop E sk (Suc n) = seq (arping_turn E sk) (arping_loop E sk n)"

definition arping_Server :: "ext \<Rightarrow> 'k kernel \<Rightarrow> nat \<Rightarrow> ('k raw arp_state, int option) prog" where
  "arping_Server E K turns =
     bnd (on_io (RawSocket_CreateOrDie E K)) (\<lambda>this.
     seq (arping_loop E (raw_socket E K this) turns) (ret None))"

definition ArpRoundTrip :: "ext \<Rightarrow> 'k Socket \<Rightarrow> IpAddr \<Rightarrow> ('k arp_state, int) prog" where
  "ArpRoundTrip E sk ip =
     bnd (Request E sk ip (uninit_mac E)) (\<lambda>(result, dst_mac).
     if IsAlreadyExists result then
       seq (on_io (printf (''[arping] done, got %s (cached)'' @ [newline]) [FStr (MacAddr_str E dst_mac)]))
       (ret 0)
     else if \<not> status_ok result then
       seq (on_io (printf (''[arping] %s'' @ [newline])
              [FStr (c_str (StrFormat E ''ARP request failed: %s'' [FStr (message result)]))]))
       (ret (-1))
     else
       bnd (HandleResponse E sk dst_mac) (\<lambda>(result, dst_mac).
       if \<not> status_ok result then
         seq (on_io (printf (''[arping] Failed to handle ARP response (%s)'' @ [newline])
                [FStr (c_str (message result))]))
         (ret (-1))
       else
         seq (on_io (printf (''[arping] done, got %s'' @ [newline]) [FStr (MacAddr_str E dst_mac)]))
         (ret 0)))"

primrec arp_client_loop :: "ext \<Rightarrow> 'k Socket \<Rightarrow> IpAddr \<Rightarrow> nat \<Rightarrow> ('k arp_state, int) prog" where
  "arp_client_loop E sk ip 0 = ret 0"
| "arp_client_loop E sk ip (Suc n) =
     bnd (ArpRoundTrip E sk ip) (\<lambda>r. if r \<noteq> 0 then ret r else arp_client_loop E sk ip n)"

definition arping_Client :: "ext \<Rightarrow> 'k kernel \<Rightarrow> ('k raw arp_state, int) prog" where
  "arping_Client E K =
     bnd (on_io (gets flags)) (\<lambda>fl.
     if dest_ip fl = [] then
       seq (on_io (printf (''[arping] must set ip address'' @ [newline]) [])) (ret (-1))
     else
       let ip = IpAddr_FromString (dest_ip fl) in
       bnd (on_io (RawSocket_CreateOrDie E K)) (\<lambda>this.
       arp_client_loop E (raw_socket E K this) ip (nat (num_requests fl))))"

definition arping_Main :: "ext \<Rightarrow> 'k kernel \<Rightarrow> nat \<Rightarrow> ('k raw arp_state, int option) prog" where
  "arping_Main E K turns =
     bnd (on_io (gets (\<lambda>s. server (flags s)))) (\<lambda>srv.
     if srv then arping_Server E K turns
     else bnd (arping_Client E K) (\<lambda>r. ret (Some r)))"

section \<open>Definitions: eth\_echo.cc\<close>

definition kServerMac :: MacAddr where
  "kServerMac = MacAddr 0x02 0x42 0xac 0x11 0x00 0x03"

definition kClientMac :: MacAddr where
  "kClientMac = MacAddr 0x02 0x42 0xac 0x11 0x00 0x02"

text \<open>One turn of the server, with the vector \<open>payload\<close> that lives across turns; while it is empty,
  \<open>memset\<close> and the copy of the payload are of zero bytes and do nothing.\<close>

definition echo_turn :: "ext \<Rightarrow> 'k Socket \<Rightarrow> bytes \<Rightarrow> ('k io, bytes) prog" where
  "echo_turn E sk payload =
     bnd (RecvEthernetFrame E sk payload 32) (\<lambda>(status, payload).
     seq (only_if (\<not> status_ok status)
       (puts (c_str (StrFormat E ''[eth_echo] Err: %s'' [FStr (message status)]))))
     (let payload = replicate (length payload) 0xde in
      bnd (SendEthernetFrame E sk kServerMac kClientMac payload kEtherTypeArp) (\<lambda>status.
      ret payload)))"

primrec echo_loop :: "ext \<Rightarrow> 'k Socket \<Rightarrow> nat \<Rightarrow> bytes \<Rightarrow> ('k io, bytes) prog" where
  "echo_loop E sk 0 payload = ret payload"
| "echo_loop E sk (Suc n) payload = bnd (echo_turn E sk payload) (echo_loop E sk n)"

definition eth_echo_Server :: "ext \<Rightarrow> 'k kernel \<Rightarrow> nat \<Rightarrow> ('k raw io, int option) prog" where
  "eth_echo_Server E K turns =
     bnd (RawSocket_CreateOrDie E K) (\<lambda>this.
     bnd (echo_loop E (raw_socket E K this) turns []) (\<lambda>_. ret None))"

definition eth_echo_exchange :: "ext \<Rightarrow> 'k Socket \<Rightarrow> ('k io, int) prog" where
  "eth_echo_exchange E sk =
     bnd (SendEthernetFrame E sk kClientMac kBroadcastMac (replicate 32 0xab) kEtherTypeArp) (\<lambda>status.
     if \<not> status_ok status then
       seq (printf (''[eth_echo] %s'' @ [newline])
              [FStr (c_str (StrFormat E ''Request failed: %s'' [FStr (message status)]))])
       (ret (-1))
     else
       bnd (RecvEthernetFrame E sk [] 32) (\<lambda>(status, received_payload).
       seq (only_if (\<not> status_ok status)
         (puts (c_str (StrFormat E ''[eth_echo] Err: %s'' [FStr (message status)]))))
       (ret 0)))"

definition eth_echo_Client :: "ext \<Rightarrow> 'k kernel \<Rightarrow> ('k raw io, int) prog" where
  "eth_echo_Client E K =
     bnd (RawSocket_CreateOrDie E K) (\<lambda>this. eth_echo_exchange E (raw_socket E K this))"

definition eth_echo_Main :: "ext \<Rightarrow> 'k kernel \<Rightarrow> nat \<Rightarrow> ('k raw io, int option) prog" where
  "eth_echo_Main E K turns =
     bnd (gets (\<lambda>s. server (flags s))) (\<lambda>srv.
     if srv then eth_echo_Server E K turns
     else bnd (eth_echo_Client E K) (\<lambda>r. ret (Some r)))"

section \<open>Definitions: the main functions\<close>

text \<open>
  The three \<open>main\<close> functions differ only in their usage message. \<open>parse\<close> is
  \<open>absl::ParseCommandLine\<close>: the flags after the command line has been read, or \<open>None\<close> when
  Abseil rejects it, in which case the process exits with status 1.
\<close>

definition absl_main ::
  "(string list \<Rightarrow> flags \<Rightarrow> flags option) \<Rightarrow> (('s \<Rightarrow> flags) \<times> (flags \<Rightarrow> 's \<Rightarrow> 's)) \<Rightarrow> string list \<Rightarrow> ('s, 'a) prog \<Rightarrow> ('s, 'a) prog" where
  "absl_main parse loc argv body =
     bnd (gets (fst loc)) (\<lambda>fl. case parse argv fl of
       None \<Rightarrow> exit_with 1
     | Some fl \<Rightarrow> seq (modify (snd loc fl)) body)"

definition io_flags :: "('k io \<Rightarrow> flags) \<times> (flags \<Rightarrow> 'k io \<Rightarrow> 'k io)" where
  "io_flags = (flags, \<lambda>fl s. s\<lparr>flags := fl\<rparr>)"

definition arp_flags :: "('k arp_state \<Rightarrow> flags) \<times> (flags \<Rightarrow> 'k arp_state \<Rightarrow> 'k arp_state)" where
  "arp_flags = (\<lambda>w. flags (sys w), \<lambda>fl w. w\<lparr>sys := (sys w)\<lparr>flags := fl\<rparr>\<rparr>)"

definition icmp_flags :: "('k icmp_state \<Rightarrow> flags) \<times> (flags \<Rightarrow> 'k icmp_state \<Rightarrow> 'k icmp_state)" where
  "icmp_flags = (\<lambda>w. flags (sys (arp (ip_layer w))), \<lambda>fl w. w\<lparr>ip_layer := (ip_layer w)\<lparr>arp :=
     (arp (ip_layer w))\<lparr>sys := (sys (arp (ip_layer w)))\<lparr>flags := fl\<rparr>\<rparr>\<rparr>\<rparr>)"

definition ping_main ::
  "(string list \<Rightarrow> flags \<Rightarrow> flags option) \<Rightarrow> ext \<Rightarrow> 'k kernel \<Rightarrow> string list \<Rightarrow> ('k raw icmp_state, int) prog" where
  "ping_main parse E K argv = absl_main parse icmp_flags argv (ping_Main E K)"

definition arping_main ::
  "(string list \<Rightarrow> flags \<Rightarrow> flags option) \<Rightarrow> ext \<Rightarrow> 'k kernel \<Rightarrow> nat \<Rightarrow> string list \<Rightarrow> ('k raw arp_state, int option) prog" where
  "arping_main parse E K turns argv = absl_main parse arp_flags argv (arping_Main E K turns)"

definition eth_echo_main ::
  "(string list \<Rightarrow> flags \<Rightarrow> flags option) \<Rightarrow> ext \<Rightarrow> 'k kernel \<Rightarrow> nat \<Rightarrow> string list \<Rightarrow> ('k raw io, int option) prog" where
  "eth_echo_main parse E K turns argv = absl_main parse io_flags argv (eth_echo_Main E K turns)"

section \<open>Specifications of whole runs\<close>

text \<open>The frames an ARP server on the link \<open>l\<close> answers the frame \<open>f\<close> with.\<close>

definition arp_service :: "link \<Rightarrow> bytes \<Rightarrow> (bytes \<times> MacAddr) list" where
  "arp_service l f = (if fcs_ok f then arp_answer l (read_packet (eth_payload f)) else [])"

text \<open>The frames the echo server sends: as many \<open>0xde\<close> bytes as came last.\<close>

primrec echo_service :: "nat \<Rightarrow> bytes list \<Rightarrow> (bytes \<times> MacAddr) list" where
  "echo_service n [] = []"
| "echo_service n (f # fs) =
     (let n' = (if fcs_ok f then length f - 18 else n)
      in (eth_frame kServerMac kClientMac (replicate n' 0xde) kEtherTypeArp, kClientMac) # echo_service n' fs)"

definition echo_request_frame :: "link \<Rightarrow> MacAddr \<Rightarrow> IpAddr \<Rightarrow> int \<Rightarrow> bytes \<times> MacAddr" where
  "echo_request_frame l dmac dst n =
     (eth_frame (link_mac l) dmac
        (ipv4_datagram (link_ip l) dst (echo_message (word_of_int n)) Protocol_icmp) kEtherTypeIp, dmac)"

lemma printf_run: "\<exists>t. printf fmt args s = Ret () t \<and> net t = net s \<and> same_files s t"
  by (simp add: printf_def same_files_def)

lemma puts_run: "\<exists>t. only_if b (puts x) s = Ret () t \<and> net t = net s \<and> same_files s t"
  by (cases b) (simp_all add: puts_def same_files_def)

lemma on_io_puts_run:
  "\<exists>i. only_if b (on_io (puts x)) w = Ret () (w\<lparr>sys := i\<rparr>) \<and> net i = net (sys w) \<and> same_files (sys w) i"
  using puts_run[of True x "sys w"] by (cases b) (auto simp: on_io_run intro: exI[of _ "sys w"])

lemma on_proc_run: "m (sys (arp (ip_layer w))) = Ret a i \<Longrightarrow>
  on_proc m w = Ret a (w\<lparr>ip_layer := (ip_layer w)\<lparr>arp := (arp (ip_layer w))\<lparr>sys := i\<rparr>\<rparr>\<rparr>)"
  by (simp add: on_proc_def on_ip_run on_arp_io_run)

lemma arp_service_cong:
  "link_mac l' = link_mac l \<Longrightarrow> link_ip l' = link_ip l \<Longrightarrow> arp_service l' f = arp_service l f"
  by (simp add: arp_service_def arp_answer_def arp_reply_def)

lemma length_eth_payload: "length (eth_payload f) = length f - 18"
  by (simp add: eth_payload_def)

section \<open>Over any socket that meets the contract\<close>

context link_socket
begin

lemma arping_turn_run:
  assumes "up (net (sys w))" "inbox (view (net (sys w))) = f # fs" "46 \<le> length f" "length f \<le> 64"
  shows "\<exists>i. arping_turn E sk w = Ret () (w\<lparr>sys := i\<rparr>) \<and> same_files (sys w) i \<and> up (net i)
    \<and> view (net i) = (view (net (sys w)))\<lparr>inbox := fs,
        outbox := outbox (view (net (sys w))) @ arp_service (view (net (sys w))) f\<rparr>"
proof -
  let ?l = "(view (net (sys w)))\<lparr>inbox := fs\<rparr>"
  obtain st i1 where i1: "HandleRequest E sk w = Ret st (w\<lparr>sys := i1\<rparr>)" "same_files (sys w) i1" "up (net i1)"
    "view (net i1) = ?l\<lparr>outbox := outbox ?l @ arp_service ?l f\<rparr>"
    using handle_request[OF assms] unfolding arp_service_def by blast
  obtain i2 where i2: "only_if (\<not> status_ok st) (on_io (puts (c_str (StrFormat E ''[arping] Err: %s'' [FStr (message st)]))))
      (w\<lparr>sys := i1\<rparr>) = Ret () (w\<lparr>sys := i2\<rparr>)" "net i2 = net i1" "same_files i1 i2"
    using on_io_puts_run[of _ _ "w\<lparr>sys := i1\<rparr>"] by fastforce
  obtain i3 where i3: "printf [newline] [] i2 = Ret () i3" "net i3 = net i2" "same_files i2 i3"
    using printf_run by blast
  have "arping_turn E sk w = Ret () (w\<lparr>sys := i3\<rparr>)"
    using i1(1) i2(1) i3(1) by (simp add: arping_turn_def bnd_run_if seq_run on_io_run)
  moreover have "same_files (sys w) i3"
    using i1(2) i2(3) i3(3) by (blast intro: same_files_trans)
  ultimately show ?thesis
    using i1(3,4) i2(2) i3(2) arp_service_cong[of ?l "view (net (sys w))" f] by (intro exI[of _ i3]) simp
qed

lemma arping_loop_run:
  assumes "up (net (sys w))" "inbox (view (net (sys w))) = fs @ rest"
    and "\<forall>f\<in>set fs. 46 \<le> length f \<and> length f \<le> 64"
  shows "\<exists>i. arping_loop E sk (length fs) w = Ret () (w\<lparr>sys := i\<rparr>) \<and> same_files (sys w) i \<and> up (net i)
    \<and> view (net i) = (view (net (sys w)))\<lparr>inbox := rest,
        outbox := outbox (view (net (sys w))) @ concat (map (arp_service (view (net (sys w)))) fs)\<rparr>"
  using assms
proof (induction fs arbitrary: w)
  case Nil
  then show ?case
    by (intro exI[of _ "sys w"]) simp
next
  case (Cons f fs)
  let ?l = "view (net (sys w))"
  obtain i where i: "arping_turn E sk w = Ret () (w\<lparr>sys := i\<rparr>)" "same_files (sys w) i" "up (net i)"
    "view (net i) = ?l\<lparr>inbox := fs @ rest, outbox := outbox ?l @ arp_service ?l f\<rparr>"
    using arping_turn_run[of w f "fs @ rest" E] Cons.prems by auto
  obtain j where j: "arping_loop E sk (length fs) (w\<lparr>sys := i\<rparr>) = Ret () (w\<lparr>sys := j\<rparr>)" "same_files i j" "up (net j)"
    "view (net j) = (view (net i))\<lparr>inbox := rest,
        outbox := outbox (view (net i)) @ concat (map (arp_service (view (net i))) fs)\<rparr>"
    using Cons.IH[of "w\<lparr>sys := i\<rparr>"] Cons.prems i by auto
  have "arp_service (view (net i)) = arp_service ?l"
    using i(4) by (intro ext arp_service_cong) simp_all
  then show ?case
    using i j by (intro exI[of _ j]) (auto simp: seq_run intro: same_files_trans)
qed

text \<open>One turn of the \<open>arping\<close> client: a known address is answered from the cache, another one by the
  reply that is waiting.\<close>

lemma round_trip_miss:
  assumes "up (net (sys w))" "inbox (view (net (sys w))) = f # fs" "46 \<le> length f" "length f \<le> 64" "fcs_ok f"
    and "uint16_of_net (opcode (read_packet (eth_payload f))) = 2" "arp_view E w = Some m" "map_find m ip = None"
  defines "l \<equiv> view (net (sys w))" and "p \<equiv> read_packet (eth_payload f)"
  shows "\<exists>i. ArpRoundTrip E sk ip w
      = Ret 0 (w\<lparr>sys := i, g_arp_cache := map_put (src_ip_addr p) (src_hw_addr p) m, arp_loaded := True\<rparr>)
    \<and> flags i = flags (sys w) \<and> up (net i)
    \<and> view (net i) = l\<lparr>inbox := fs, outbox := outbox l @ [(arp_request_frame l ip, kBroadcastMac)]\<rparr>"
proof -
  let ?w = "\<lambda>i. w\<lparr>sys := i, g_arp_cache := map_put (src_ip_addr p) (src_hw_addr p) m, arp_loaded := True\<rparr>"
  obtain w1 i where i: "Request E sk ip (uninit_mac E) w = Ret (OkStatus, uninit_mac E) w1"
    "HandleResponse E sk (uninit_mac E) w1 = Ret (OkStatus, src_hw_addr p) (?w i)"
    "flags i = flags (sys w)" "up (net i)"
    "view (net i) = l\<lparr>inbox := fs, outbox := outbox l @ [(arp_request_frame l ip, kBroadcastMac)]\<rparr>"
    using request_and_response[OF assms(1-8), of "uninit_mac E"] unfolding l_def p_def by blast
  obtain j where j: "printf (''[arping] done, got %s'' @ [newline]) [FStr (MacAddr_str E (src_hw_addr p))] i = Ret () j"
    "net j = net i" "same_files i j"
    using printf_run by blast
  have "ArpRoundTrip E sk ip w = Ret 0 (?w j)"
    using i(1,2) j(1) by (simp add: ArpRoundTrip_def bnd_run_if seq_run on_io_run)
  then show ?thesis
    using i(3-5) j(2,3) by (intro exI[of _ j]) (simp add: same_files_def)
qed

lemma round_trip_hit:
  assumes "arp_view E w = Some m" "map_find m ip = Some mac"
  shows "\<exists>i. ArpRoundTrip E sk ip w = Ret 0 (w\<lparr>sys := i, g_arp_cache := m, arp_loaded := True\<rparr>) \<and> net i = net (sys w)"
proof -
  obtain j where "printf (''[arping] done, got %s (cached)'' @ [newline]) [FStr (MacAddr_str E mac)] (sys w) = Ret () j"
    "net j = net (sys w)"
    using printf_run by blast
  then show ?thesis
    using Request_hit[OF assms, of sk "uninit_mac E"]
    by (intro exI[of _ j]) (simp add: ArpRoundTrip_def bnd_run_if seq_run on_io_run)
qed

lemma arp_client_loop_hits:
  assumes "arp_view E w = Some m" "map_find m ip = Some mac"
  shows "\<exists>w'. arp_client_loop E sk ip n w = Ret 0 w' \<and> net (sys w') = net (sys w) \<and> arp_view E w' = Some m"
  using assms(1)
proof (induction n arbitrary: w)
  case (Suc n)
  obtain i where i: "ArpRoundTrip E sk ip w = Ret 0 (w\<lparr>sys := i, g_arp_cache := m, arp_loaded := True\<rparr>)" "net i = net (sys w)"
    using round_trip_hit[OF Suc.prems assms(2)] by blast
  then show ?case
    using Suc.IH[of "w\<lparr>sys := i, g_arp_cache := m, arp_loaded := True\<rparr>"] by (auto simp: bnd_run_if arp_view_def)
qed simp

lemma echo_turn_run:
  assumes "up (net s)" "inbox (view (net s)) = f # fs" "18 < length f" "length f \<le> 64" "length p \<le> 46"
  defines "q \<equiv> replicate (if fcs_ok f then length f - 18 else length p) 0xde"
  shows "\<exists>t. echo_turn E sk p s = Ret q t \<and> same_files s t \<and> up (net t)
    \<and> view (net t) = (view (net s))\<lparr>inbox := fs, outbox := outbox (view (net s))
        @ [(eth_frame kServerMac kClientMac q kEtherTypeArp, kClientMac)]\<rparr>"
proof -
  let ?r = "if fcs_ok f then (OkStatus, eth_payload f) else (crc_mismatch E f, p)"
  obtain s1 where s1: "RecvEthernetFrame E sk p 32 s = Ret ?r s1" "same_files s s1" "up (net s1)"
    "view (net s1) = (view (net s))\<lparr>inbox := fs\<rparr>"
    using recv_next_frame[OF assms(1,2), of 32 E p] assms(3,4) by auto
  obtain s2 where s2: "only_if (\<not> status_ok (fst ?r)) (puts (c_str (StrFormat E ''[eth_echo] Err: %s'' [FStr (message (fst ?r))]))) s1
      = Ret () s2" "net s2 = net s1" "same_files s1 s2"
    using puts_run by blast
  have q: "replicate (length (snd ?r)) 0xde = q" "length q \<le> 1496"
    using assms(4,5) by (auto simp: q_def length_eth_payload)
  obtain s3 where s3: "SendEthernetFrame E sk kServerMac kClientMac q kEtherTypeArp s2 = Ret OkStatus s3"
    "same_files s2 s3" "up (net s3)"
    "view (net s3) = (view (net s2))\<lparr>outbox := outbox (view (net s2)) @ [(eth_frame kServerMac kClientMac q kEtherTypeArp, kClientMac)]\<rparr>"
    using send_frame[of s2 q E kServerMac kClientMac kEtherTypeArp] s1(3) s2(2) q(2) by auto
  have "echo_turn E sk p s = Ret q s3"
    using s1(1) s2(1) s3(1) q(1)
    by (simp add: echo_turn_def bnd_run_if seq_run Let_def case_prod_beta del: replicate_eq_replicate)
  moreover have "same_files s s3"
    using s1(2) s2(3) s3(2) by (blast intro: same_files_trans)
  ultimately show ?thesis
    using s1(4) s2(2) s3(3,4) by (intro exI[of _ s3]) simp
qed

lemma echo_loop_run:
  assumes "up (net s)" "inbox (view (net s)) = fs @ rest" "length p \<le> 46"
    and "\<forall>f\<in>set fs. 18 < length f \<and> length f \<le> 64"
  shows "\<exists>q t. echo_loop E sk (length fs) p s = Ret q t \<and> same_files s t \<and> up (net t)
    \<and> view (net t) = (view (net s))\<lparr>inbox := rest,
        outbox := outbox (view (net s)) @ echo_service (length p) fs\<rparr>"
  using assms
proof (induction fs arbitrary: s p)
  case Nil
  then show ?case
    by (intro exI[of _ p] exI[of _ s]) simp
next
  case (Cons f fs)
  let ?n = "if fcs_ok f then length f - 18 else length p"
  let ?q = "replicate ?n (0xde :: byte)"
  obtain t where t: "echo_turn E sk p s = Ret ?q t" "same_files s t" "up (net t)"
    "view (net t) = (view (net s))\<lparr>inbox := fs @ rest, outbox := outbox (view (net s))
        @ [(eth_frame kServerMac kClientMac ?q kEtherTypeArp, kClientMac)]\<rparr>"
    using echo_turn_run[of s f "fs @ rest" p E] Cons.prems by auto
  have "length ?q \<le> 46"
    using Cons.prems by auto
  then obtain q u where "echo_loop E sk (length fs) ?q t = Ret q u" "same_files t u" "up (net u)"
    "view (net u) = (view (net t))\<lparr>inbox := rest, outbox := outbox (view (net t)) @ echo_service (length ?q) fs\<rparr>"
    using Cons.IH[of t ?q] Cons.prems t by auto
  with t show ?case
    by (intro exI[of _ q] exI[of _ u]) (auto simp: bnd_run_if Let_def intro: same_files_trans)
qed

text \<open>The state in which a ping starts: routes and next hop known, a reply waiting.\<close>

lemma ping_run:
  assumes "up (net (sys (arp (ip_layer w))))" "inbox (view (net (sys (arp (ip_layer w))))) = f # fs"
    and "46 \<le> length f" "length f \<le> 64" "fcs_ok f" "echo_seq w < int_max"
    and "route_view (ip_layer w) = Some rt" "arp_view E (arp (ip_layer w)) = Some m"
    and "map_find m (route rt dst) = Some dmac"
  defines "l \<equiv> view (net (sys (arp (ip_layer w))))"
  shows "\<exists>i. Ping E sk dst w = Ret 0
      (w\<lparr>ip_layer := (ip_layer w)\<lparr>arp := (arp (ip_layer w))\<lparr>sys := i, g_arp_cache := m, arp_loaded := True\<rparr>,
           g_routing_table := rt, routes_loaded := True\<rparr>, echo_seq := echo_seq w + 1\<rparr>)
    \<and> same_files (sys (arp (ip_layer w))) i \<and> up (net i)
    \<and> view (net i) = l\<lparr>inbox := fs, outbox := outbox l @ [echo_request_frame l dmac dst (echo_seq w)]\<rparr>"
proof -
  let ?w1 = "w\<lparr>echo_seq := echo_seq w + 1\<rparr>"
  obtain b where b: "MakeEchoRequest w = Ret b ?w1" "mem_echo b = echo_message (word_of_int (echo_seq w))"
    using MakeEchoRequest_run[OF assms(6)] by blast
  let ?ip = "\<lambda>i. (ip_layer w)\<lparr>arp := (arp (ip_layer w))\<lparr>sys := i, g_arp_cache := m, arp_loaded := True\<rparr>,
      g_routing_table := rt, routes_loaded := True\<rparr>"
  have data: "mem_echo b \<noteq> []" "length (mem_echo b) \<le> 1476"
    by (simp_all add: b(2) flip: length_greater_0_conv)
  obtain i1 where i1: "SendDatagram E sk dst (mem_echo b) Protocol_icmp (ip_layer w) = Ret OkStatus (?ip i1)"
    "same_files (sys (arp (ip_layer w))) i1" "up (net i1)"
    "view (net i1) = l\<lparr>outbox := outbox l @ [echo_request_frame l dmac dst (echo_seq w)]\<rparr>"
    using send_datagram[OF assms(1,7-9) data, of Protocol_icmp]
    unfolding l_def echo_request_frame_def b(2) by blast
  have upd: "(?ip i1)\<lparr>arp := (arp (?ip i1))\<lparr>sys := i\<rparr>\<rparr> = ?ip i" for i
    by simp
  obtain i2 where i2: "RecvDatagram E sk [] sizeof_EchoBody (?ip i1) = Ret (OkStatus, take 8 (drop 20 (eth_payload f))) (?ip i2)"
    "same_files i1 i2" "up (net i2)" "view (net i2) = (view (net i1))\<lparr>inbox := fs\<rparr>"
    using recv_datagram[of "?ip i1" f fs 8 E "[]"] i1(3,4) assms(2-5)
    unfolding sizeof_EchoBody_def l_def upd by (auto simp del: ip_state.simps)
  have "Ping E sk dst w = Ret 0 (?w1\<lparr>ip_layer := ?ip i2\<rparr>)"
    using b(1) i1(1) i2(1) by (simp add: Ping_def bnd_run_if on_ip_run)
  then show ?thesis
    using i1 i2 by (intro exI[of _ i2]) (auto intro: same_files_trans)
qed

lemma ping_loop_run:
  assumes "up (net (sys (arp (ip_layer w))))" "inbox (view (net (sys (arp (ip_layer w))))) = fs @ rest"
    and "\<forall>f\<in>set fs. 46 \<le> length f \<and> length f \<le> 64 \<and> fcs_ok f" "echo_seq w + int (length fs) \<le> int_max"
    and "route_view (ip_layer w) = Some rt" "arp_view E (arp (ip_layer w)) = Some m"
    and "map_find m (route rt dst) = Some dmac"
  defines "l \<equiv> view (net (sys (arp (ip_layer w))))"
  shows "\<exists>w'. ping_loop E sk dst (length fs) w = Ret 0 w' \<and> up (net (sys (arp (ip_layer w'))))
    \<and> echo_seq w' = echo_seq w + int (length fs)
    \<and> view (net (sys (arp (ip_layer w')))) = l\<lparr>inbox := rest,
        outbox := outbox l @ map (\<lambda>k. echo_request_frame l dmac dst (echo_seq w + int k)) [0..<length fs]\<rparr>"
  using assms(1-6) unfolding l_def
proof (induction fs arbitrary: w)
  case Nil
  then show ?case
    by (intro exI[of _ w]) simp
next
  case (Cons f fs)
  let ?l = "view (net (sys (arp (ip_layer w))))"
  let ?w = "\<lambda>i. w\<lparr>ip_layer := (ip_layer w)\<lparr>arp := (arp (ip_layer w))\<lparr>sys := i, g_arp_cache := m, arp_loaded := True\<rparr>,
           g_routing_table := rt, routes_loaded := True\<rparr>, echo_seq := echo_seq w + 1\<rparr>"
  obtain i where i: "Ping E sk dst w = Ret 0 (?w i)" "up (net i)"
    "view (net i) = ?l\<lparr>inbox := fs @ rest, outbox := outbox ?l @ [echo_request_frame ?l dmac dst (echo_seq w)]\<rparr>"
    using ping_run[of w f "fs @ rest" rt E m dst dmac] Cons.prems assms(7) by auto
  have cong: "echo_request_frame (view (net i)) = echo_request_frame ?l"
    using i(3) by (intro ext) (simp add: echo_request_frame_def)
  have "route_view (ip_layer (?w i)) = Some rt" "arp_view E (arp (ip_layer (?w i))) = Some m"
    by (simp_all add: route_view_def arp_view_def)
  then obtain w' where w': "ping_loop E sk dst (length fs) (?w i) = Ret 0 w'"
    "up (net (sys (arp (ip_layer w'))))" "echo_seq w' = echo_seq w + 1 + int (length fs)"
    "view (net (sys (arp (ip_layer w')))) = (view (net i))\<lparr>inbox := rest,
        outbox := outbox (view (net i)) @ map (\<lambda>k. echo_request_frame (view (net i)) dmac dst (echo_seq w + 1 + int k)) [0..<length fs]\<rparr>"
    using Cons.IH[of "?w i"] Cons.prems i by auto
  have "map (\<lambda>k. echo_request_frame ?l dmac dst (echo_seq w + int k)) [0..<Suc (length fs)]
      = echo_request_frame ?l dmac dst (echo_seq w)
        # map (\<lambda>k. echo_request_frame ?l dmac dst (echo_seq w + 1 + int k)) [0..<length fs]"
    by (simp add: upt_conv_Cons map_Suc_upt[symmetric] add.assoc comp_def del: upt_Suc)
  then show ?case
    using i w' cong by (intro exI[of _ w']) (simp add: bnd_run_if del: upt_Suc)
qed

end

end
