(* ===== verification/Invariants.thy ===== *)
theory Invariants
  imports Prelude
begin

text \<open>
  Invariants of programs. \<open>keeps I m\<close> says that \<open>m\<close>, started in a state that satisfies \<open>I\<close>, ends in
  one, whether it returns, throws or exits; there is one rule per construct, collected under
  \<open>keeps_intros\<close>. \<open>reach\<close> is the relation between a state and the states that a sequence of operations
  can lead to when the caller goes on after an exception; an invariant that every operation
  keeps holds in all of them.
\<close>

section \<open>Definitions\<close>

definition keeps :: "('s \<Rightarrow> bool) \<Rightarrow> ('s, 'a) prog \<Rightarrow> bool" where
  "keeps I m \<longleftrightarrow> (\<forall>s. I s \<longrightarrow>
     (case m s of Ret a t \<Rightarrow> I t | Throw e t \<Rightarrow> I t | Exit c t \<Rightarrow> I t | Undef \<Rightarrow> True))"

inductive reach :: "('x \<Rightarrow> ('s, unit) prog) \<Rightarrow> ('x \<Rightarrow> bool) \<Rightarrow> 's \<Rightarrow> 's \<Rightarrow> bool" for run allowed s where
  start: "reach run allowed s s"
| step: "reach run allowed s t \<Longrightarrow> allowed x \<Longrightarrow> run x t = Ret () u \<Longrightarrow> reach run allowed s u"
| caught: "reach run allowed s t \<Longrightarrow> allowed x \<Longrightarrow> run x t = Throw e u \<Longrightarrow> reach run allowed s u"

section \<open>One rule per construct\<close>

named_theorems keeps_intros \<open>what keeps an invariant\<close>

lemma keepsI:
  assumes "\<And>s. I s \<Longrightarrow> case m s of Ret a t \<Rightarrow> I t | Throw e t \<Rightarrow> I t | Exit c t \<Rightarrow> I t | Undef \<Rightarrow> True"
  shows "keeps I m"
  using assms by (simp add: keeps_def)

lemma keeps_outcome:
  "keeps I m \<Longrightarrow> I s \<Longrightarrow> m s = Ret a t \<Longrightarrow> I t" "keeps I m \<Longrightarrow> I s \<Longrightarrow> m s = Throw e t \<Longrightarrow> I t"
  "keeps I m \<Longrightarrow> I s \<Longrightarrow> m s = Exit c t \<Longrightarrow> I t"
  by (force simp: keeps_def)+

lemma keeps_basic [keeps_intros]:
  "keeps I (ret a)" "keeps I (gets f)" "keeps I (throw e)" "keeps I undef" "keeps I (exit_with c)"
  by (simp_all add: keeps_def)

lemma keeps_modify [keeps_intros]: "(\<And>s. I s \<Longrightarrow> I (f s)) \<Longrightarrow> keeps I (modify f)"
  by (simp add: keeps_def)

lemma keeps_bnd [keeps_intros]: "keeps I m \<Longrightarrow> (\<And>a. keeps I (f a)) \<Longrightarrow> keeps I (bnd m f)"
proof (rule keepsI)
  fix s assume "keeps I m" "\<And>a. keeps I (f a)" "I s"
  then show "case bnd m f s of Ret a t \<Rightarrow> I t | Throw e t \<Rightarrow> I t | Exit c t \<Rightarrow> I t | Undef \<Rightarrow> True"
    by (cases "m s") (auto simp: bnd_def dest: keeps_outcome split: outcome.split)
qed

text \<open>What was read from the state satisfies what the invariant says of it.\<close>

lemma keeps_bnd_gets: "(\<And>s. I s \<Longrightarrow> keeps I (g (f s))) \<Longrightarrow> keeps I (bnd (gets f) g)"
  by (force simp: keeps_def bnd_def)

lemma keeps_seq [keeps_intros]: "keeps I m \<Longrightarrow> keeps I n \<Longrightarrow> keeps I (seq m n)"
  by (simp add: seq_def keeps_bnd)

lemma keeps_seq_post:
  assumes "keeps I m" "\<And>s t. I s \<Longrightarrow> m s = Ret () t \<Longrightarrow> Q t" "keeps (\<lambda>s. I s \<and> Q s) n"
  shows "keeps I (seq m n)"
proof (rule keepsI)
  fix s assume s: "I s"
  show "case seq m n s of Ret a t \<Rightarrow> I t | Throw e t \<Rightarrow> I t | Exit c t \<Rightarrow> I t | Undef \<Rightarrow> True"
  proof (cases "m s")
    case (Ret u t)
    then have "I t \<and> Q t"
      using s assms(2) keeps_outcome(1)[OF assms(1) s] by simp
    then have "case n t of Ret a u \<Rightarrow> I u \<and> Q u | Throw e u \<Rightarrow> I u \<and> Q u | Exit c u \<Rightarrow> I u \<and> Q u | Undef \<Rightarrow> True"
      using assms(3) unfolding keeps_def by blast
    then show ?thesis
      using Ret by (cases "n t") (simp_all add: seq_run)
  qed (auto simp: seq_run s dest: keeps_outcome[OF assms(1) s])
qed

lemma keeps_if [keeps_intros]: "(b \<Longrightarrow> keeps I m) \<Longrightarrow> (\<not> b \<Longrightarrow> keeps I n) \<Longrightarrow> keeps I (if b then m else n)"
  by simp

lemma keeps_only_if [keeps_intros]: "(b \<Longrightarrow> keeps I m) \<Longrightarrow> keeps I (only_if b m)"
  by (simp add: only_if_def keeps_basic)

lemma keeps_checked [keeps_intros]: "(b \<Longrightarrow> keeps I m) \<Longrightarrow> keeps I (checked b m)"
  by (simp add: checked_def keeps_basic)

lemma keeps_memcpy_to [keeps_intros]: "keeps I (memcpy_to buf off src)"
  by (simp add: memcpy_to_def keeps_checked keeps_basic)

lemma keeps_case [keeps_intros]:
  "(x = None \<Longrightarrow> keeps I n) \<Longrightarrow> (\<And>a. x = Some a \<Longrightarrow> keeps I (f a)) \<Longrightarrow> keeps I (case x of None \<Rightarrow> n | Some a \<Rightarrow> f a)"
  "(\<And>e. y = Inl e \<Longrightarrow> keeps I (g e)) \<Longrightarrow> (\<And>b. y = Inr b \<Longrightarrow> keeps I (h b)) \<Longrightarrow> keeps I (case y of Inl e \<Rightarrow> g e | Inr b \<Rightarrow> h b)"
  "(\<And>c d. z = (c, d) \<Longrightarrow> keeps I (k c d)) \<Longrightarrow> keeps I (case z of (c, d) \<Rightarrow> k c d)"
  by (auto split: option.split sum.split prod.split)

lemma keeps_let [keeps_intros]: "(\<And>x. x = a \<Longrightarrow> keeps I (f x)) \<Longrightarrow> keeps I (Let a f)"
  by simp

text \<open>A program for a part of the state: its invariant may depend on the whole state it started in.\<close>

lemma keeps_zoom:
  assumes "\<And>t. I t \<Longrightarrow> \<exists>J. J (get t) \<and> keeps J m \<and> (\<forall>s. J s \<longrightarrow> I (put s t))"
  shows "keeps I (zoom get put m)"
proof (rule keepsI)
  fix t assume "I t"
  then obtain J where "J (get t)" "keeps J m" "\<And>s. J s \<Longrightarrow> I (put s t)"
    using assms by blast
  then show "case zoom get put m t of Ret a u \<Rightarrow> I u | Throw e u \<Rightarrow> I u | Exit c u \<Rightarrow> I u | Undef \<Rightarrow> True"
    by (auto simp: zoom_def dest: keeps_outcome split: outcome.split)
qed

section \<open>Every reachable state\<close>

lemma reach_keeps:
  assumes "reach run allowed s t" "I s" "\<And>x. allowed x \<Longrightarrow> keeps I (run x)"
  shows "I t"
  using assms(1,2)
proof (induction rule: reach.induct)
  case (step t x u)
  then show ?case
    using keeps_outcome(1)[OF assms(3)] by blast
next
  case (caught t x e u)
  then show ?case
    using keeps_outcome(2)[OF assms(3)] by blast
qed

end
