(* ===== verification/Stack.thy ===== *)
theory Stack
  imports Apps Invariants
begin

text \<open>
  The whole stack as a state machine: every sequence of operations of the Ethernet, ARP, IP
  and ICMP layers on one socket, whatever the kernel does and whatever frames arrive. The
  locale \<open>kept_socket\<close> is the part of the contract of \<open>Socket\<close> that needs no working link: what
  each method leaves unchanged. Over it, the stored maps stay in order, the cache file is
  either untouched or the text of the cache in memory, and no other file is written.
\<close>

section \<open>The operations\<close>

datatype stack_op =
    Op_SendFrame MacAddr MacAddr bytes uint16_net
  | Op_RecvFrame nat
  | Op_Request IpAddr
  | Op_HandleRequest
  | Op_HandleResponse
  | Op_GetMac IpAddr
  | Op_SendDatagram IpAddr bytes Protocol
  | Op_RecvDatagram nat
  | Op_Ping IpAddr

definition run_stack :: "ext \<Rightarrow> 'k Socket \<Rightarrow> stack_op \<Rightarrow> ('k icmp_state, unit) prog" where
  "run_stack E sk x = (case x of
     Op_SendFrame src dst payload et \<Rightarrow> bnd (on_proc (SendEthernetFrame E sk src dst payload et)) (\<lambda>_. ret ())
   | Op_RecvFrame n \<Rightarrow> bnd (on_proc (RecvEthernetFrame E sk [] n)) (\<lambda>_. ret ())
   | Op_Request ip \<Rightarrow> bnd (on_ip (on_arp (Request E sk ip (uninit_mac E)))) (\<lambda>_. ret ())
   | Op_HandleRequest \<Rightarrow> bnd (on_ip (on_arp (HandleRequest E sk))) (\<lambda>_. ret ())
   | Op_HandleResponse \<Rightarrow> bnd (on_ip (on_arp (HandleResponse E sk (uninit_mac E)))) (\<lambda>_. ret ())
   | Op_GetMac ip \<Rightarrow> bnd (on_ip (on_arp (GetMac E sk ip))) (\<lambda>_. ret ())
   | Op_SendDatagram dst data pr \<Rightarrow> bnd (on_ip (SendDatagram E sk dst data pr)) (\<lambda>_. ret ())
   | Op_RecvDatagram n \<Rightarrow> bnd (on_ip (RecvDatagram E sk [] n)) (\<lambda>_. ret ())
   | Op_Ping ip \<Rightarrow> bnd (Ping E sk ip) (\<lambda>_. ret ()))"

definition stack_reach :: "ext \<Rightarrow> 'k Socket \<Rightarrow> 'k icmp_state \<Rightarrow> 'k icmp_state \<Rightarrow> bool" where
  "stack_reach E sk = reach (run_stack E sk) (\<lambda>_. True)"

section \<open>What the layers keep\<close>

text \<open>
  \<open>J F s\<close>: an invariant of the process with the files \<open>F\<close>, the flags \<open>fl\<close> and the writable paths
  \<open>wr\<close>. The socket's methods keep it for every \<open>F\<close>: they write no file.
\<close>

locale kept_socket =
  fixes sk :: "'k Socket" and J :: "(string \<Rightarrow> string option) \<Rightarrow> 'k io \<Rightarrow> bool"
    and fl :: flags and wr :: "string \<Rightarrow> bool"
  assumes process_parts: "J F s \<Longrightarrow> files s = F \<and> flags s = fl \<and> writable s = wr"
    and print_more: "J F s \<Longrightarrow> J F (s\<lparr>stdout := stdout s @ x\<rparr>)"
    and change_files: "J F s \<Longrightarrow> J G (s\<lparr>files := G\<rparr>)"
    and keeps_Recv: "keeps (J F) (Recv sk n)"
    and keeps_SendTo: "keeps (J F) (SendTo sk f d)"
    and keeps_GetMac: "keeps (J F) (GetHostMacAddress sk)"
    and keeps_GetIp: "keeps (J F) (GetHostIpAddress sk)"
    and keeps_GetMacIp: "keeps (J F) (GetHostMacAndIp sk)"

text \<open>The ARP layer: the cache in order, the other files as they were, the cache file as it was or
  the text of the cache; \<open>b\<close> says that the cache has been loaded.\<close>

definition cache_ok ::
  "ext \<Rightarrow> ((string \<Rightarrow> string option) \<Rightarrow> 'k io \<Rightarrow> bool) \<Rightarrow> flags \<Rightarrow> (string \<Rightarrow> bool) \<Rightarrow> (string \<Rightarrow> string option)
   \<Rightarrow> bool \<Rightarrow> 'k arp_state \<Rightarrow> bool" where
  "cache_ok E J fl wr F0 b w \<longleftrightarrow> map_ok (g_arp_cache w) \<and> (b \<longrightarrow> arp_loaded w)
     \<and> (\<exists>F. J F (sys w) \<and> (\<forall>p. p \<noteq> arp_cache fl \<longrightarrow> F p = F0 p)
         \<and> (F (arp_cache fl) = F0 (arp_cache fl)
            \<or> wr (arp_cache fl) \<and> arp_loaded w
              \<and> F (arp_cache fl) = Some (serialize IpAddr_str (MacAddr_str E) (g_arp_cache w))))"

definition ip_ok ::
  "ext \<Rightarrow> ((string \<Rightarrow> string option) \<Rightarrow> 'k io \<Rightarrow> bool) \<Rightarrow> flags \<Rightarrow> (string \<Rightarrow> bool) \<Rightarrow> (string \<Rightarrow> string option)
   \<Rightarrow> 'k ip_state \<Rightarrow> bool" where
  "ip_ok E J fl wr F0 w \<longleftrightarrow> cache_ok E J fl wr F0 False (arp w) \<and> map_ok (g_routing_table w)"

definition icmp_ok ::
  "ext \<Rightarrow> ((string \<Rightarrow> string option) \<Rightarrow> 'k io \<Rightarrow> bool) \<Rightarrow> flags \<Rightarrow> (string \<Rightarrow> bool) \<Rightarrow> (string \<Rightarrow> string option)
   \<Rightarrow> 'k icmp_state \<Rightarrow> bool" where
  "icmp_ok E J fl wr F0 w \<longleftrightarrow> ip_ok E J fl wr F0 (ip_layer w) \<and> 0 \<le> echo_seq w \<and> echo_seq w \<le> int_max"

lemma deserialize_loop_map_ok:
  "map_ok m \<Longrightarrow> deserialize_loop kfrom vfrom buf off r m = Some m' \<Longrightarrow> map_ok m'"
proof (induction kfrom vfrom buf off r m rule: deserialize_loop.induct)
  case (1 kfrom vfrom buf off r m)
  then show ?case
    by (subst (asm) (2) deserialize_loop.simps) (auto simp: map_ok_map_put split: if_splits option.splits)
qed

lemma deserialize_map_ok: "map_ok m \<Longrightarrow> deserialize kfrom vfrom buf m = Some m' \<Longrightarrow> map_ok m'"
  unfolding deserialize_def by (rule deserialize_loop_map_ok)

lemma keeps_pure [keeps_intros]: "keeps I (MakeDatagram src dst payload pr)" "keeps I (status_value r)"
  unfolding MakeDatagram_def status_value_def by (intro keeps_intros)+

context kept_socket
begin

lemmas method_intros = keeps_Recv keeps_SendTo keeps_GetMac keeps_GetIp keeps_GetMacIp

lemma keeps_printf: "keeps (J F) (printf fmt args)"
  unfolding printf_def by (intro keeps_modify print_more)

lemma keeps_dump_bytes: "keeps (J F) (dump_bytes buffer n)"
  by (induction buffer n rule: dump_bytes.induct)
    (simp_all only: dump_bytes.simps keeps_basic, intro keeps_seq keeps_printf)

lemma keeps_Dump: "keeps (J F) (DumpEthernetFrame E frame n)"
  unfolding DumpEthernetFrame_def DumpHex_def by (intro keeps_intros keeps_printf keeps_dump_bytes)

lemma keeps_Send: "keeps (J F) (SendEthernetFrame E sk src dst payload et)"
  unfolding SendEthernetFrame_def by (intro keeps_intros keeps_Dump method_intros)

lemma keeps_RecvFrame: "keeps (J F) (RecvEthernetFrame E sk payload n)"
  unfolding RecvEthernetFrame_def by (intro keeps_intros keeps_Dump method_intros)

abbreviation arp_inv :: "ext \<Rightarrow> (string \<Rightarrow> string option) \<Rightarrow> bool \<Rightarrow> 'k arp_state \<Rightarrow> bool" where
  "arp_inv E F0 b \<equiv> cache_ok E J fl wr F0 b"

lemma keeps_on_io:
  assumes "\<And>F. keeps (J F) m"
  shows "keeps (arp_inv E F0 b) (on_io m)"
  unfolding on_io_def
proof (rule keeps_zoom)
  fix w assume "arp_inv E F0 b w"
  then show "\<exists>K. K (sys w) \<and> keeps K m \<and> (\<forall>i. K i \<longrightarrow> arp_inv E F0 b (w\<lparr>sys := i\<rparr>))"
    using assms unfolding cache_ok_def by auto
qed

lemma keeps_log: "keeps (arp_inv E F0 b) (log_arp fmt args)"
  unfolding log_arp_def by (intro keeps_intros keeps_on_io keeps_printf)

lemma keeps_log_packet: "keeps (arp_inv E F0 b) (log_packet E' fmt payload)"
  unfolding log_packet_def by (intro keeps_intros keeps_on_io keeps_printf)

lemma keeps_load: "keeps (arp_inv E F0 b) (MaybeLoadArpCache E)"
proof (rule keepsI)
  fix w assume w: "arp_inv E F0 b w"
  show "case MaybeLoadArpCache E w of Ret a t \<Rightarrow> arp_inv E F0 b t | Throw e t \<Rightarrow> arp_inv E F0 b t
      | Exit c t \<Rightarrow> arp_inv E F0 b t | Undef \<Rightarrow> True"
  proof (cases "arp_view E w")
    case None
    then show ?thesis
      by (auto simp: arp_view_def MaybeLoadArpCache_def bnd_run_if split: if_splits)
  next
    case (Some m)
    then have "map_ok m" "\<not> arp_loaded w \<or> m = g_arp_cache w"
      using w by (auto simp: arp_view_def cache_ok_def intro: deserialize_map_ok split: if_splits)
    then show ?thesis
      using w MaybeLoadArpCache_run[OF Some] by (auto simp: cache_ok_def)
  qed
qed

lemma load_loads: "MaybeLoadArpCache E w = Ret () t \<Longrightarrow> arp_loaded t"
  by (auto simp: MaybeLoadArpCache_def bnd_run_if split: if_splits option.splits)

text \<open>Learning an address: the entry is put into the cache and the file is written.\<close>

lemma keeps_learn:
  "keeps (arp_inv E F0 True)
     (seq (modify (\<lambda>w. w\<lparr>g_arp_cache := map_put ip mac (g_arp_cache w)\<rparr>)) (seq (SerializeArpCache E) (ret r)))"
proof (rule keepsI)
  fix w assume "arp_inv E F0 True w"
  then obtain F where F: "map_ok (g_arp_cache w)" "arp_loaded w" "J F (sys w)" "\<forall>p. p \<noteq> arp_cache fl \<longrightarrow> F p = F0 p"
    "wr (arp_cache fl) \<or> F (arp_cache fl) = F0 (arp_cache fl)"
    unfolding cache_ok_def by blast
  let ?m = "map_put ip mac (g_arp_cache w)"
  let ?F = "if wr (arp_cache fl) then F(arp_cache fl \<mapsto> serialize IpAddr_str (MacAddr_str E) ?m) else F"
  have "J ?F (write_file (arp_cache fl) (serialize IpAddr_str (MacAddr_str E) ?m) (sys w))"
    using F(3) change_files process_parts[OF F(3)] by (auto simp: write_file_def)
  then have "arp_inv E F0 True (w\<lparr>g_arp_cache := ?m, sys := write_file (arp_cache fl) (serialize IpAddr_str (MacAddr_str E) ?m) (sys w)\<rparr>)"
    using F unfolding cache_ok_def
    by (cases "wr (arp_cache fl)") (auto simp: map_ok_map_put intro!: exI[of _ ?F])
  then show "case seq (modify (\<lambda>w. w\<lparr>g_arp_cache := map_put ip mac (g_arp_cache w)\<rparr>)) (seq (SerializeArpCache E) (ret r)) w
      of Ret a t \<Rightarrow> arp_inv E F0 True t | Throw e t \<Rightarrow> arp_inv E F0 True t | Exit c t \<Rightarrow> arp_inv E F0 True t | Undef \<Rightarrow> True"
    using process_parts[OF F(3)] by (simp add: seq_run SerializeArpCache_run)
qed

lemmas arp_intros = keeps_intros keeps_on_io keeps_log keeps_log_packet keeps_load keeps_Send keeps_RecvFrame method_intros

lemma keeps_Request: "keeps (arp_inv E F0 b) (Request E sk ip mo)"
  unfolding Request_def by (intro arp_intros)

lemma keeps_HandleRequest: "keeps (arp_inv E F0 b) (HandleRequest E sk)"
  unfolding HandleRequest_def by (intro arp_intros)

lemma keeps_HandleResponse: "keeps (arp_inv E F0 False) (HandleResponse E sk mo)"
  unfolding HandleResponse_def
proof (rule keeps_seq_post[where Q = arp_loaded])
  have eq: "(\<lambda>w. arp_inv E F0 False w \<and> arp_loaded w) = arp_inv E F0 True"
    by (auto simp: cache_ok_def fun_eq_iff)
  show "keeps (\<lambda>w. arp_inv E F0 False w \<and> arp_loaded w)
    (bnd (on_io (RecvEthernetFrame E sk [] sizeof_Packet)) (\<lambda>(status, payload).
      if \<not> status_ok status then ret (status, mo)
      else checked (payload \<noteq> [])
        (let arp_response = read_packet payload in
         seq (log_packet E (''[arp] Got response %s'' @ [newline]) payload)
         (checked (8 \<le> length payload)
         (if uint16_of_net (opcode arp_response) \<noteq> uint16_of_net kArpResponse then
            ret (not_opcode E ''%d is not an ARP reply?'' arp_response, mo)
          else
            checked (18 \<le> length payload)
            (let mac = src_hw_addr arp_response in
             seq (modify (\<lambda>w. w\<lparr>g_arp_cache := map_put (src_ip_addr arp_response) mac (g_arp_cache w)\<rparr>))
             (seq (SerializeArpCache E)
             (ret (OkStatus, mac)))))))))"
    unfolding eq by (intro keeps_learn keeps_bnd keeps_case(3) keeps_if keeps_checked keeps_let keeps_on_io keeps_RecvFrame
        keeps_basic keeps_seq[OF keeps_log_packet])
qed (use keeps_load load_loads in auto)

lemma keeps_GetMacOp: "keeps (arp_inv E F0 False) (GetMac E sk ip)"
  unfolding GetMac_def by (intro keeps_intros keeps_Request keeps_HandleResponse)

text \<open>The IP layer: the routing table stays in order too.\<close>

lemma keeps_on_arp:
  assumes "keeps (arp_inv E F0 False) m"
  shows "keeps (ip_ok E J fl wr F0) (on_arp m)"
  unfolding on_arp_def
proof (rule keeps_zoom)
  fix w assume "ip_ok E J fl wr F0 w"
  then show "\<exists>K. K (arp w) \<and> keeps K m \<and> (\<forall>a. K a \<longrightarrow> ip_ok E J fl wr F0 (w\<lparr>arp := a\<rparr>))"
    using assms unfolding ip_ok_def by (intro exI[of _ "arp_inv E F0 False"]) simp
qed

lemma keeps_routes: "keeps (ip_ok E J fl wr F0) MaybeLoadRoutingTable"
proof (rule keepsI)
  fix w assume "ip_ok E J fl wr F0 w"
  then show "case MaybeLoadRoutingTable w of Ret a t \<Rightarrow> ip_ok E J fl wr F0 t | Throw e t \<Rightarrow> ip_ok E J fl wr F0 t
      | Exit c t \<Rightarrow> ip_ok E J fl wr F0 t | Undef \<Rightarrow> True"
    by (auto simp: MaybeLoadRoutingTable_def bnd_run_if ip_ok_def deserialize_map_ok split: option.split)
qed

lemmas ip_intros = keeps_intros keeps_on_arp keeps_on_io keeps_routes keeps_GetMacOp keeps_Send keeps_RecvFrame method_intros

lemma keeps_SendDatagram: "keeps (ip_ok E J fl wr F0) (SendDatagram E sk dst data pr)"
  unfolding SendDatagram_def by (intro ip_intros)

lemma keeps_RecvDatagram: "keeps (ip_ok E J fl wr F0) (RecvDatagram E sk data n)"
  unfolding RecvDatagram_def by (intro ip_intros)

text \<open>The ICMP layer: the sequence number never leaves the range of an \<open>int\<close>.\<close>

lemma keeps_on_ip:
  assumes "keeps (ip_ok E J fl wr F0) m"
  shows "keeps (icmp_ok E J fl wr F0) (on_ip m)"
  unfolding on_ip_def
proof (rule keeps_zoom)
  fix w assume "icmp_ok E J fl wr F0 w"
  then show "\<exists>K. K (ip_layer w) \<and> keeps K m \<and> (\<forall>i. K i \<longrightarrow> icmp_ok E J fl wr F0 (w\<lparr>ip_layer := i\<rparr>))"
    using assms unfolding icmp_ok_def by (intro exI[of _ "ip_ok E J fl wr F0"]) simp
qed

lemma keeps_echo: "keeps (icmp_ok E J fl wr F0) MakeEchoRequest"
  by (rule keepsI) (auto simp: MakeEchoRequest_def bnd_run_if checked_def Let_def seq_run icmp_ok_def)

lemmas stack_intros = ip_intros keeps_on_ip keeps_echo keeps_printf keeps_SendDatagram keeps_RecvDatagram
  keeps_Request keeps_HandleRequest keeps_HandleResponse

lemma keeps_Ping: "keeps (icmp_ok E J fl wr F0) (Ping E sk ip)"
  unfolding Ping_def on_proc_def by (intro stack_intros)

lemma keeps_run_stack: "keeps (icmp_ok E J fl wr F0) (run_stack E sk x)"
  by (cases x) (simp_all only: run_stack_def stack_op.case on_proc_def, (intro stack_intros keeps_Ping)+)

lemma stack_reach_ok: "stack_reach E sk w t \<Longrightarrow> icmp_ok E J fl wr F0 w \<Longrightarrow> icmp_ok E J fl wr F0 t"
  unfolding stack_reach_def by (rule reach_keeps[OF _ _ keeps_run_stack])

end

section \<open>On a raw socket\<close>

text \<open>
  What the \<open>cached\<close> variables promise is there, so no method reads a member that was never
  written. \<open>raw_inv s0\<close> adds what has happened to the process since \<open>s0\<close>.
\<close>

definition raw_ok :: "nat \<Rightarrow> 'k raw \<Rightarrow> bool" where
  "raw_ok this r \<longleftrightarrow> \<not> mac_cached r \<and> (index_cached r \<longrightarrow> interface_index (objs r this) \<noteq> None)
     \<and> (ip_cached r \<longrightarrow> host_ip (objs r this) \<noteq> None)"

definition raw_inv :: "nat \<Rightarrow> 'k raw io \<Rightarrow> (string \<Rightarrow> string option) \<Rightarrow> 'k raw io \<Rightarrow> bool" where
  "raw_inv this s0 F s \<longleftrightarrow> raw_ok this (net s) \<and> files s = F \<and> flags s = flags s0 \<and> writable s = writable s0
     \<and> (\<exists>x. stdout s = stdout s0 @ x)"

lemma keeps_syscall: "keeps (raw_inv this s0 F) (syscall f)"
  by (rule keepsI) (auto simp: syscall_def raw_inv_def raw_ok_def split: prod.split)

lemma keeps_raw_printf: "keeps (raw_inv this s0 F) (printf fmt args)"
  unfolding printf_def by (rule keeps_modify) (auto simp: raw_inv_def)

lemma keeps_object:
  "(\<And>ob. interface_index ob \<noteq> None \<Longrightarrow> interface_index (f ob) \<noteq> None) \<Longrightarrow> (\<And>ob. host_ip ob \<noteq> None \<Longrightarrow> host_ip (f ob) \<noteq> None)
   \<Longrightarrow> keeps (raw_inv this s0 F) (set_obj this f)"
  unfolding set_obj_def by (rule keeps_modify) (auto simp: raw_inv_def raw_ok_def)

lemma keeps_readers: "keeps I (get_fd this)" "keeps I (get_member this f)" "keeps I (get_strerror E)"
  unfolding get_fd_def get_member_def get_strerror_def by (intro keeps_intros)+

lemmas raw_intros = keeps_intros keeps_syscall keeps_raw_printf keeps_readers

text \<open>The member is written before the variable that says so.\<close>

lemma keeps_index: "keeps (raw_inv this s0 F) (RawSocket_GetInterfaceIndex E K this)"
  by (rule keepsI) (auto simp: RawSocket_GetInterfaceIndex_def bnd_run_if seq_run set_obj_def syscall_def get_fd_def
      get_member_def get_strerror_def raw_inv_def raw_ok_def split: prod.split option.split)

lemma keeps_ip: "keeps (raw_inv this s0 F) (RawSocket_GetHostIpAddress E K this)"
  by (rule keepsI) (auto simp: RawSocket_GetHostIpAddress_def bnd_run_if seq_run set_obj_def syscall_def get_fd_def
      get_member_def get_strerror_def raw_inv_def raw_ok_def split: prod.split option.split)

lemma keeps_mac: "keeps (raw_inv this s0 F) (RawSocket_GetHostMacAddress E K this)"
  unfolding RawSocket_GetHostMacAddress_def by (intro raw_intros keeps_object) simp_all

lemma keeps_raw_SendTo: "keeps (raw_inv this s0 F) (RawSocket_SendTo E K this f d)"
  unfolding RawSocket_SendTo_def RawSocket_MakeSockAddr_def by (intro raw_intros keeps_index)

lemma keeps_raw_Recv: "keeps (raw_inv this s0 F) (RawSocket_Recv K this n)"
  unfolding RawSocket_Recv_def by (intro raw_intros)

lemma keeps_mac_ip: "keeps (raw_inv this s0 F) (RawSocket_GetHostMacAndIp E K this)"
  unfolding RawSocket_GetHostMacAndIp_def by (intro raw_intros keeps_ip keeps_mac)

interpretation kept_raw: kept_socket "raw_socket E K this" "raw_inv this s0" "flags s0" "writable s0"
  by unfold_locales
    (simp_all add: raw_socket_def keeps_raw_Recv keeps_raw_SendTo keeps_mac keeps_ip keeps_mac_ip, auto simp: raw_inv_def)

text \<open>The whole process: \<open>stack_ok this w\<close> says that the state is a possible state of the program
  with the socket \<open>this\<close>, \<open>stack_since\<close> what has changed between two of them.\<close>

definition stack_ok :: "nat \<Rightarrow> 'k raw icmp_state \<Rightarrow> bool" where
  "stack_ok this w \<longleftrightarrow> map_ok (g_arp_cache (arp (ip_layer w))) \<and> map_ok (g_routing_table (ip_layer w))
     \<and> 0 \<le> echo_seq w \<and> echo_seq w \<le> int_max \<and> raw_ok this (net (sys (arp (ip_layer w))))"

definition stack_since :: "ext \<Rightarrow> 'k raw icmp_state \<Rightarrow> 'k raw icmp_state \<Rightarrow> bool" where
  "stack_since E w t \<longleftrightarrow> (let s = sys (arp (ip_layer w)); s' = sys (arp (ip_layer t)); p = arp_cache (flags s) in
     flags s' = flags s \<and> (\<exists>x. stdout s' = stdout s @ x) \<and> (\<forall>q. q \<noteq> p \<longrightarrow> files s' q = files s q)
     \<and> (files s' p = files s p
        \<or> writable s p \<and> arp_loaded (arp (ip_layer t))
          \<and> files s' p = Some (serialize IpAddr_str (MacAddr_str E) (g_arp_cache (arp (ip_layer t))))))"

text \<open>C4. The type invariant of the whole stack on a raw socket, for every kernel, every sequence of
  frames received and every sequence of operations of the four layers, exceptions caught
  between them: the cache and the routing table stay ordered maps without duplicate keys, the
  echo sequence number stays an \<open>int\<close>, and what the \<open>cached\<close> variables promise stays
  there. The flags do not change, output is only appended, no file is written but the ARP
  cache file, and that one is either as it was or the text of the cache in memory.\<close>

theorem stack_invariant:
  assumes "stack_ok this w" "stack_reach E (raw_socket E K this) w t"
  shows "stack_ok this t \<and> stack_since E w t"
proof -
  let ?s = "sys (arp (ip_layer w))"
  have "icmp_ok E (raw_inv this ?s) (flags ?s) (writable ?s) (files ?s) w"
    using assms(1) by (simp add: stack_ok_def icmp_ok_def ip_ok_def cache_ok_def raw_inv_def)
  from kept_raw.stack_reach_ok[OF assms(2) this] show ?thesis
    unfolding stack_ok_def stack_since_def icmp_ok_def ip_ok_def cache_ok_def raw_inv_def Let_def by auto
qed

text \<open>A host with empty tables and one ARP reply waiting.\<close>

definition stack_start :: "link raw icmp_state" where
  "stack_start = \<lparr>ip_layer = \<lparr>arp = \<lparr>sys = raw_start (link_start [reply_frame]), g_arp_cache = [], arp_loaded = True\<rparr>,
     g_routing_table = [], routes_loaded = True\<rparr>, echo_seq = 0\<rparr>"

lemma stack_start_ok: "stack_ok 0 stack_start"
  by (simp add: stack_ok_def stack_start_def map_ok_def int_max_def raw_ok_def raw_start_def)

lemma stack_start_learns:
  "\<exists>t. stack_reach libc_ext (raw_socket libc_ext queue_kernel 0) stack_start t
     \<and> g_arp_cache (arp (ip_layer t)) = [(IpAddr 0x030011AC, MacAddr 2 66 172 17 0 3)]"
proof -
  let ?sk = "raw_socket libc_ext queue_kernel 0" and ?w = "arp (ip_layer stack_start)"
  have w: "raw_up (\<lambda>k. k) (\<lambda>f k. f = 3) 2 0 (net (sys ?w))" "inbox (kern (net (sys ?w))) = reply_frame # []"
    "arp_view libc_ext ?w = Some []"
    by (simp_all add: stack_start_def arp_view_def)
  obtain u where u: "HandleResponse libc_ext ?sk (uninit_mac libc_ext) ?w = Ret (OkStatus, MacAddr 2 66 172 17 0 3) u"
    "g_arp_cache u = [(IpAddr 0x030011AC, MacAddr 2 66 172 17 0 3)]"
    using link_socket.handle_response[OF qk.is_link w(1,2) _ _ w(3), of libc_ext "uninit_mac libc_ext"]
    by (auto simp: reply_frame_facts Let_def)
  let ?t = "stack_start\<lparr>ip_layer := (ip_layer stack_start)\<lparr>arp := u\<rparr>\<rparr>"
  have "run_stack libc_ext ?sk Op_HandleResponse stack_start = Ret () ?t"
    using u(1) by (simp add: run_stack_def bnd_run_if on_ip_def on_arp_def zoom_def)
  then have "stack_reach libc_ext ?sk stack_start ?t"
    unfolding stack_reach_def by (intro reach.step[OF reach.start, where x = Op_HandleResponse]) simp_all
  then show ?thesis
    using u(2) by (intro exI[of _ ?t]) simp
qed

theorem stack_invariant_witness:
  "\<exists>t. g_arp_cache (arp (ip_layer t)) = [(IpAddr 0x030011AC, MacAddr 2 66 172 17 0 3)]
     \<and> stack_ok 0 t \<and> stack_since libc_ext stack_start t"
  using stack_start_learns stack_invariant[OF stack_start_ok] by blast

end
