(* ===== verification/NetworkSim.thy ===== *)
theory NetworkSim
  imports Eth SerializableMap Invariants
begin

text \<open>
  \<open>network_sim.h\<close> and \<open>network_sim.cc\<close>: the simulated network the ARP tests run on. A host
  keeps one byte queue per sender, a \<open>FakeSocket\<close> delivers into and reads from those queues.
  Both \<open>Push\<close> and \<open>Pop\<close> work on a copy of the queue (\<open>auto q = queues_[sender]\<close>), which is
  what the definitions do.

  The step relation covers every sequence of operations on a network; the invariant says
  that no byte ever arrives unless a socket takes the broadcast address. The class does not override \<open>RecvAll\<close> and \<open>GetHostMacAndIp\<close>,
  pure virtual methods of \<open>Socket\<close>; calling them is undefined in the model.
\<close>

section \<open>Definitions: hosts\<close>

record Host =
  h_ip :: IpAddr
  h_mac :: MacAddr
  queues :: "(MacAddr, bytes) smap"

definition Host_make :: "IpAddr \<Rightarrow> MacAddr \<Rightarrow> Host" where
  "Host_make ip mac = \<lparr>h_ip = ip, h_mac = mac, queues = []\<rparr>"

text \<open>\<open>queues_[sender]\<close> adds an empty queue for a new sender.\<close>

definition queue_at :: "MacAddr \<Rightarrow> Host \<Rightarrow> bytes \<times> Host" where
  "queue_at sender h = (case map_find (queues h) sender of
     Some q \<Rightarrow> (q, h)
   | None \<Rightarrow> ([], h\<lparr>queues := map_put sender [] (queues h)\<rparr>))"

definition Push :: "MacAddr \<Rightarrow> bytes \<Rightarrow> Host \<Rightarrow> Host" where
  "Push sender data h =
     (if MacAddr_eq sender kBroadcastMac then
        h\<lparr>queues := map (\<lambda>(mac, q). (mac, q @ data)) (queues h)\<rparr>
      else
        let (q, h) = queue_at sender h;
            q = q @ data
        in h)"

primrec pop_loop :: "nat \<Rightarrow> bytes \<Rightarrow> bytes \<Rightarrow> bytes" where
  "pop_loop 0 q result = result"
| "pop_loop (Suc n) q result = pop_loop n (tl q) (result @ [hd q])"

definition Pop :: "MacAddr \<Rightarrow> nat \<Rightarrow> (Host, bytes) prog" where
  "Pop sender len =
     bnd (gets (queue_at sender)) (\<lambda>(q, h).
     seq (modify (\<lambda>_. h))
     (if len > length q then throw (invalid_argument ''Length is too large'')
      else ret (pop_loop len q [])))"

definition Host_Print :: "ext \<Rightarrow> Host \<Rightarrow> ('k io, unit) prog" where
  "Host_Print E h = printf (''(ip: %s, mac: %s)'' @ [newline])
     [FStr (IpAddr_str (h_ip h)), FStr (MacAddr_str E (h_mac h))]"

section \<open>Definitions: the network and its sockets\<close>

record FakeSocket =
  fake_mac :: MacAddr
  fake_ip :: IpAddr

record sim =
  hosts :: "Host list"
  fakes :: "nat \<Rightarrow> FakeSocket"

primrec find_host :: "MacAddr \<Rightarrow> Host list \<Rightarrow> nat option" where
  "find_host mac [] = None"
| "find_host mac (h # hs) = (if MacAddr_eq (h_mac h) mac then Some 0 else map_option Suc (find_host mac hs))"

definition HostForMac :: "ext \<Rightarrow> MacAddr \<Rightarrow> (sim io, nat) prog" where
  "HostForMac E mac =
     bnd (gets (\<lambda>s. find_host mac (hosts (net s)))) (\<lambda>r. case r of
       Some i \<Rightarrow> ret i
     | None \<Rightarrow> throw (invalid_argument (StrFormat E ''No host for MAC %s'' [FStr (MacAddr_str E mac)])))"

text \<open>\<open>RandomIp\<close> returns an uninitialised address: the argument is what its variable happens to hold.\<close>

definition RandomIp :: "IpAddr \<Rightarrow> IpAddr" where
  "RandomIp ip = ip"

definition AddHostWithMac :: "IpAddr \<Rightarrow> MacAddr \<Rightarrow> (sim io, unit) prog" where
  "AddHostWithMac ip mac =
     modify (\<lambda>s. s\<lparr>net := (net s)\<lparr>hosts := hosts (net s) @ [Host_make (RandomIp ip) mac]\<rparr>\<rparr>)"

primrec print_hosts :: "ext \<Rightarrow> Host list \<Rightarrow> ('k io, unit) prog" where
  "print_hosts E [] = ret ()"
| "print_hosts E (h # hs) = seq (Host_Print E h) (print_hosts E hs)"

definition PrintHosts :: "ext \<Rightarrow> (sim io, unit) prog" where
  "PrintHosts E = bnd (gets (\<lambda>s. hosts (net s))) (print_hosts E)"

definition on_host :: "nat \<Rightarrow> (Host, 'a) prog \<Rightarrow> (sim io, 'a) prog" where
  "on_host i m = zoom (\<lambda>s. hosts (net s) ! i) (\<lambda>h s. s\<lparr>net := (net s)\<lparr>hosts := (hosts (net s))[i := h]\<rparr>\<rparr>) m"

text \<open>The constructor; \<open>this\<close> is the new object, whose network is the one of the state.\<close>

definition FakeSocket_make :: "nat \<Rightarrow> MacAddr \<Rightarrow> IpAddr \<Rightarrow> (sim io, unit) prog" where
  "FakeSocket_make this mac ip = modify (\<lambda>s. s\<lparr>net := (net s)\<lparr>fakes :=
     (fakes (net s))(this := \<lparr>fake_mac = mac, fake_ip = ip\<rparr>)\<rparr>\<rparr>)"

definition FakeSocket_Send :: "bytes \<Rightarrow> (sim io, int) prog" where
  "FakeSocket_Send buffer = ret (-1)"

definition FakeSocket_Recv :: "nat \<Rightarrow> (sim io, int \<times> bytes) prog" where
  "FakeSocket_Recv len = ret (-1, [])"

definition FakeSocket_SendTo :: "ext \<Rightarrow> nat \<Rightarrow> bytes \<Rightarrow> MacAddr \<Rightarrow> (sim io, int) prog" where
  "FakeSocket_SendTo E this buffer dst =
     bnd (gets (\<lambda>s. fake_mac (fakes (net s) this))) (\<lambda>self.
     if MacAddr_eq dst kBroadcastMac then
       seq (modify (\<lambda>s. s\<lparr>net := (net s)\<lparr>hosts := map (Push self buffer) (hosts (net s))\<rparr>\<rparr>))
       (ret (int (length buffer)))
     else
       bnd (HostForMac E dst) (\<lambda>i.
       seq (on_host i (modify (Push self buffer)))
       (ret (int (length buffer)))))"

definition FakeSocket_RecvFrom :: "ext \<Rightarrow> nat \<Rightarrow> nat \<Rightarrow> MacAddr \<Rightarrow> (sim io, int \<times> bytes) prog" where
  "FakeSocket_RecvFrom E this len src =
     bnd (gets (\<lambda>s. fake_mac (fakes (net s) this))) (\<lambda>self.
     bnd (HostForMac E self) (\<lambda>i.
     bnd (on_host i (Pop src len)) (\<lambda>received.
     checked (len \<le> length received) (ret (int len, take len received)))))"

definition FakeSocket_GetHostMacAddress :: "nat \<Rightarrow> (sim io, MacAddr StatusOr) prog" where
  "FakeSocket_GetHostMacAddress this = gets (\<lambda>s. Inr (fake_mac (fakes (net s) this)))"

definition FakeSocket_GetHostIpAddress :: "nat \<Rightarrow> (sim io, IpAddr StatusOr) prog" where
  "FakeSocket_GetHostIpAddress this = gets (\<lambda>s. Inr (fake_ip (fakes (net s) this)))"

definition SetHostMacAddress :: "nat \<Rightarrow> MacAddr \<Rightarrow> (sim io, unit) prog" where
  "SetHostMacAddress this mac = modify (\<lambda>s. s\<lparr>net := (net s)\<lparr>fakes :=
     (fakes (net s))(this := (fakes (net s) this)\<lparr>fake_mac := mac\<rparr>)\<rparr>\<rparr>)"

definition SetHostIpAddress :: "nat \<Rightarrow> IpAddr \<Rightarrow> (sim io, unit) prog" where
  "SetHostIpAddress this ip = modify (\<lambda>s. s\<lparr>net := (net s)\<lparr>fakes :=
     (fakes (net s))(this := (fakes (net s) this)\<lparr>fake_ip := ip\<rparr>)\<rparr>\<rparr>)"

definition fake_socket :: "ext \<Rightarrow> nat \<Rightarrow> sim Socket" where
  "fake_socket E this = \<lparr>
     Send = FakeSocket_Send,
     Recv = FakeSocket_Recv,
     SendTo = FakeSocket_SendTo E this,
     RecvFrom = FakeSocket_RecvFrom E this,
     RecvAll = (\<lambda>fuel len. undef),
     GetHostMacAddress = FakeSocket_GetHostMacAddress this,
     GetHostIpAddress = FakeSocket_GetHostIpAddress this,
     GetHostMacAndIp = undef\<rparr>"

interpretation fake: safe_socket "fake_socket E this" for E this
  by unfold_locales (simp add: fake_socket_def FakeSocket_Recv_def)

section \<open>Every run of a network\<close>

text \<open>One operation of a test on a network, whether it returns or throws.\<close>

datatype sim_op =
    Op_AddHost IpAddr MacAddr
  | Op_NewSocket nat MacAddr IpAddr
  | Op_PrintHosts
  | Op_SendTo nat bytes MacAddr
  | Op_RecvFrom nat nat MacAddr
  | Op_SetMac nat MacAddr
  | Op_SetIp nat IpAddr

definition run_op :: "ext \<Rightarrow> sim_op \<Rightarrow> (sim io, unit) prog" where
  "run_op E x = (case x of
     Op_AddHost ip mac \<Rightarrow> AddHostWithMac ip mac
   | Op_NewSocket this mac ip \<Rightarrow> FakeSocket_make this mac ip
   | Op_PrintHosts \<Rightarrow> PrintHosts E
   | Op_SendTo this bs dst \<Rightarrow> bnd (FakeSocket_SendTo E this bs dst) (\<lambda>_. ret ())
   | Op_RecvFrom this n src \<Rightarrow> bnd (FakeSocket_RecvFrom E this n src) (\<lambda>_. ret ())
   | Op_SetMac this mac \<Rightarrow> SetHostMacAddress this mac
   | Op_SetIp this ip \<Rightarrow> SetHostIpAddress this ip)"

text \<open>No socket takes the broadcast address as its own.\<close>

fun op_ok :: "sim_op \<Rightarrow> bool" where
  "op_ok (Op_SetMac this mac) = (mac \<noteq> kBroadcastMac)"
| "op_ok (Op_NewSocket this mac ip) = (mac \<noteq> kBroadcastMac)"
| "op_ok _ = True"

text \<open>The states that operations on the network can lead to.\<close>

definition sim_reach :: "ext \<Rightarrow> sim io \<Rightarrow> sim io \<Rightarrow> bool" where
  "sim_reach E = reach (run_op E) op_ok"

definition host_silent :: "Host \<Rightarrow> bool" where
  "host_silent h \<longleftrightarrow> (\<forall>q \<in> set (map snd (queues h)). q = [])"

definition silent :: "sim \<Rightarrow> bool" where
  "silent n \<longleftrightarrow> (\<forall>h \<in> set (hosts n). host_silent h) \<and> (\<forall>this. fake_mac (fakes n this) \<noteq> kBroadcastMac)"

lemma set_map_put: "(a, b) \<in> set (map_put k v m) \<Longrightarrow> (a, b) = (k, v) \<or> (a, b) \<in> set m"
  by (induction k v m rule: map_put.induct) (auto split: if_splits)

lemma queue_at_silent:
  assumes "host_silent h" "queue_at k h = (q, h')"
  shows "host_silent h' \<and> q = []"
proof (cases "map_find (queues h) k")
  case None
  then show ?thesis
    using assms by (auto simp: queue_at_def host_silent_def dest!: set_map_put)
next
  case (Some v)
  then have "v \<in> set (map snd (queues h))"
    by (force simp: map_find_def dest: map_of_SomeD)
  then show ?thesis
    using assms Some by (auto simp: queue_at_def host_silent_def)
qed

lemma Push_silent: "host_silent h \<Longrightarrow> sender \<noteq> kBroadcastMac \<Longrightarrow> host_silent (Push sender data h)"
  by (auto simp: Push_def dest: queue_at_silent split: prod.split)

lemma Pop_silent:
  "host_silent h \<Longrightarrow> \<exists>h'. host_silent h' \<and> Pop sender len h =
     (if len = 0 then Ret [] h' else Throw (invalid_argument ''Length is too large'') h')"
  using queue_at_silent[of h sender]
  by (cases "queue_at sender h") (auto simp: Pop_def bnd_run_if seq_run)

lemma find_host_less: "find_host mac hs = Some i \<Longrightarrow> i < length hs"
  by (induction hs arbitrary: i) (auto split: if_splits)

lemma silent_update:
  "silent n \<Longrightarrow> host_silent h \<Longrightarrow> silent (n\<lparr>hosts := (hosts n)[i := h]\<rparr>)"
  by (auto simp: silent_def dest: set_update_subset_insert[THEN subsetD])

abbreviation keeps_silence :: "(sim io, 'a) prog \<Rightarrow> bool" where
  "keeps_silence \<equiv> keeps (\<lambda>s. silent (net s))"

lemma keeps_on_host:
  assumes "keeps host_silent m"
  shows "keeps_silence (on_host i m)"
  unfolding on_host_def
proof (rule keeps_zoom)
  fix s assume s: "silent (net s)"
  show "\<exists>J. J (hosts (net s) ! i) \<and> keeps J m
      \<and> (\<forall>h. J h \<longrightarrow> silent (net (s\<lparr>net := (net s)\<lparr>hosts := (hosts (net s))[i := h]\<rparr>\<rparr>)))"
  proof (cases "i < length (hosts (net s))")
    case True
    then show ?thesis
      using s assms by (intro exI[of _ host_silent]) (auto simp: silent_update, simp add: silent_def)
  next
    case False
    then show ?thesis
      using s by (intro exI[of _ "\<lambda>_. True"]) (simp add: keeps_def list_update_beyond split: outcome.split)
  qed
qed

lemma keeps_HostForMac: "keeps_silence (HostForMac E mac)"
  unfolding HostForMac_def by (intro keeps_intros)

lemma keeps_FakeSendTo: "keeps_silence (FakeSocket_SendTo E this bs dst)"
  unfolding FakeSocket_SendTo_def
proof (rule keeps_bnd_gets)
  fix s assume "silent (net s)"
  then have self: "fake_mac (fakes (net s) this) \<noteq> kBroadcastMac"
    by (simp add: silent_def)
  show "keeps_silence (if MacAddr_eq dst kBroadcastMac
      then seq (modify (\<lambda>t. t\<lparr>net := (net t)\<lparr>hosts := map (Push (fake_mac (fakes (net s) this)) bs) (hosts (net t))\<rparr>\<rparr>))
        (ret (int (length bs)))
      else bnd (HostForMac E dst) (\<lambda>i. seq (on_host i (modify (Push (fake_mac (fakes (net s) this)) bs))) (ret (int (length bs)))))"
    using self by (intro keeps_intros keeps_HostForMac keeps_on_host) (auto simp: silent_def Push_silent)
qed

lemma RecvFrom_silent:
  assumes "silent (net s)"
  shows "\<exists>t. silent (net t) \<and> FakeSocket_RecvFrom E this n src s \<in>
    {Ret (0, []) t, Throw (invalid_argument ''Length is too large'') t,
     Throw (invalid_argument (StrFormat E ''No host for MAC %s''
       [FStr (MacAddr_str E (fake_mac (fakes (net s) this)))])) t}
    \<and> (0 < n \<longrightarrow> FakeSocket_RecvFrom E this n src s \<noteq> Ret (0, []) t)"
proof (cases "find_host (fake_mac (fakes (net s) this)) (hosts (net s))")
  case None
  then show ?thesis
    using assms by (intro exI[of _ s]) (simp add: FakeSocket_RecvFrom_def HostForMac_def bnd_run_if)
next
  case (Some i)
  then have "host_silent (hosts (net s) ! i)"
    using assms find_host_less[OF Some] by (simp add: silent_def)
  then obtain h' where "host_silent h'" "Pop src n (hosts (net s) ! i) =
      (if n = 0 then Ret [] h' else Throw (invalid_argument ''Length is too large'') h')"
    using Pop_silent by blast
  then show ?thesis
    using Some assms
    by (intro exI[of _ "s\<lparr>net := (net s)\<lparr>hosts := (hosts (net s))[i := h']\<rparr>\<rparr>"])
      (simp add: FakeSocket_RecvFrom_def HostForMac_def bnd_run_if on_host_def zoom_def silent_update)
qed

lemma keeps_FakeRecvFrom: "keeps_silence (FakeSocket_RecvFrom E this n src)"
proof (rule keepsI)
  fix s :: "sim io" assume "silent (net s)"
  then show "case FakeSocket_RecvFrom E this n src s of Ret a t \<Rightarrow> silent (net t) | Throw e t \<Rightarrow> silent (net t)
      | Exit c t \<Rightarrow> silent (net t) | Undef \<Rightarrow> True"
    using RecvFrom_silent[of s E this n src] by (auto split: outcome.split)
qed

lemma keeps_print_hosts: "keeps_silence (print_hosts E hs)"
proof (induction hs)
  case (Cons h hs)
  then show ?case
    unfolding print_hosts.simps Host_Print_def printf_def by (intro keeps_intros) simp_all
qed (simp only: print_hosts.simps keeps_basic)

lemma silent_changes:
  "silent n \<Longrightarrow> silent (n\<lparr>hosts := hosts n @ [Host_make ip mac]\<rparr>)"
  "silent n \<Longrightarrow> fake_mac f \<noteq> kBroadcastMac \<Longrightarrow> silent (n\<lparr>fakes := (fakes n)(this := f)\<rparr>)"
  "silent n \<Longrightarrow> fake_mac (fakes n this) \<noteq> kBroadcastMac"
  by (auto simp: silent_def host_silent_def Host_make_def)

lemma keeps_silent:
  assumes "op_ok x"
  shows "keeps_silence (run_op E x)"
  using assms unfolding run_op_def AddHostWithMac_def FakeSocket_make_def SetHostMacAddress_def SetHostIpAddress_def
    PrintHosts_def
  by (cases x) (auto intro!: keeps_modify keeps_bnd keeps_basic keeps_print_hosts keeps_FakeSendTo keeps_FakeRecvFrom
      simp: silent_changes)

lemma sim_reach_silent: "sim_reach E s t \<Longrightarrow> silent (net s) \<Longrightarrow> silent (net t)"
  unfolding sim_reach_def by (erule reach_keeps[where I = "\<lambda>s. silent (net s)"]) (simp_all add: keeps_silent)

lemma pop_loop_eq: "n \<le> length q \<Longrightarrow> pop_loop n q r = r @ take n q"
proof (induction n arbitrary: q r)
  case (Suc n)
  then show ?case
    by (cases q) auto
qed simp

text \<open>Data does arrive when it is sent under the broadcast address, in every queue there is.\<close>

lemma Push_broadcast: "map_find (queues (Push kBroadcastMac data h)) m = map_option (\<lambda>q. q @ data) (map_find (queues h) m)"
  by (simp add: Push_def map_find_def map_of_map)

lemma find_host_Push: "find_host mac (map (Push self data) hs) = find_host mac hs"
proof (induction hs)
  case (Cons h hs)
  have "h_mac (Push self data h) = h_mac h"
    by (auto simp: Push_def queue_at_def split: option.split)
  with Cons show ?case
    by simp
qed simp

lemma broadcast_delivers:
  assumes "fake_mac (fakes (net s) a) = kBroadcastMac" "find_host (fake_mac (fakes (net s) b)) (hosts (net s)) = Some i"
    and "map_find (queues (hosts (net s) ! i)) src = Some q"
  shows "\<exists>u v. FakeSocket_SendTo E a data kBroadcastMac s = Ret (int (length data)) u
    \<and> FakeSocket_RecvFrom E b (length (q @ data)) src u = Ret (int (length (q @ data)), q @ data) v"
proof -
  let ?u = "s\<lparr>net := (net s)\<lparr>hosts := map (Push kBroadcastMac data) (hosts (net s))\<rparr>\<rparr>"
  have send: "FakeSocket_SendTo E a data kBroadcastMac s = Ret (int (length data)) ?u"
    using assms(1) by (simp add: FakeSocket_SendTo_def MacAddr_eq_def bnd_run_if seq_run)
  have "queue_at src (hosts (net ?u) ! i) = (q @ data, hosts (net ?u) ! i)"
    using assms(3) find_host_less[OF assms(2)] by (simp add: queue_at_def Push_broadcast)
  then have "Pop src (length (q @ data)) (hosts (net ?u) ! i) = Ret (q @ data) (hosts (net ?u) ! i)"
    by (simp add: Pop_def bnd_run_if seq_run pop_loop_eq)
  then show ?thesis
    using send assms(2) find_host_less[OF assms(2)]
    by (simp add: FakeSocket_RecvFrom_def HostForMac_def bnd_run_if on_host_def zoom_def find_host_Push)
qed

section \<open>Properties\<close>

text \<open>C30. As long as no socket takes the broadcast address as its own, no byte is ever received on the
  simulated network: after any sequence of operations from a network without hosts in which
  every socket has another address, sends to single hosts and to all hosts included, \<open>RecvFrom\<close> for a
  positive number of bytes throws \<open>invalid_argument\<close>. In any state, on the other hand, a socket that has
  the broadcast address does deliver: its data is received by every host that has a queue,
  and under the sender of that queue.\<close>

theorem network_sim_delivers_nothing:
  assumes "sim_reach E s t" "hosts (net s) = []" "\<forall>this. fake_mac (fakes (net s) this) \<noteq> kBroadcastMac" "0 < n"
  shows "(\<exists>msg u. FakeSocket_RecvFrom E this n src t = Throw (invalid_argument msg) u)
    \<and> (\<forall>x a b i q. fake_mac (fakes (net x) a) = kBroadcastMac \<and> find_host (fake_mac (fakes (net x) b)) (hosts (net x)) = Some i
          \<and> map_find (queues (hosts (net x) ! i)) src = Some q \<longrightarrow>
        (\<exists>u v. FakeSocket_SendTo E a data kBroadcastMac x = Ret (int (length data)) u
          \<and> FakeSocket_RecvFrom E b (length (q @ data)) src u = Ret (int (length (q @ data)), q @ data) v))"
proof -
  have "silent (net t)"
    using sim_reach_silent[OF assms(1)] assms(2,3) by (simp add: silent_def)
  then show ?thesis
    using RecvFrom_silent[of t E this n src] assms(4) broadcast_delivers by blast
qed

text \<open>Two hosts on the network, a socket on each; the first sends four bytes to the second.\<close>

definition sim_start :: "sim io" where
  "sim_start = \<lparr>flags = default_flags, stdout = [], errno = 0, files = (\<lambda>_. None), writable = (\<lambda>_. True),
     net = \<lparr>hosts = [], fakes = (\<lambda>i. \<lparr>fake_mac = MacAddr 0 0 0 0 0 (word_of_nat i mod 8), fake_ip = IpAddr 0\<rparr>)\<rparr>\<rparr>"

definition sim_hosts :: "Host list \<Rightarrow> sim io" where
  "sim_hosts hs = sim_start\<lparr>net := (net sim_start)\<lparr>hosts := hs\<rparr>\<rparr>"

lemma sim_reach_step: "sim_reach E s t \<Longrightarrow> op_ok x \<Longrightarrow> run_op E x t = Ret () u \<Longrightarrow> sim_reach E s u"
  unfolding sim_reach_def by (rule reach.step)

lemma sim_hosts_reached:
  "sim_reach E sim_start (sim_hosts [Host_make (IpAddr 0) (MacAddr 0 0 0 0 0 1), Host_make (IpAddr 0) (MacAddr 0 0 0 0 0 2)])"
proof -
  have start: "sim_reach E sim_start (sim_hosts [])"
    by (simp add: sim_reach_def sim_hosts_def sim_start_def reach.start)
  have add: "run_op E (Op_AddHost (IpAddr 0) mac) (sim_hosts hs) = Ret () (sim_hosts (hs @ [Host_make (IpAddr 0) mac]))" for mac hs
    by (simp add: run_op_def AddHostWithMac_def RandomIp_def sim_hosts_def)
  show ?thesis
    using sim_reach_step[OF sim_reach_step[OF start _ add[of "MacAddr 0 0 0 0 0 1"]] _ add[of "MacAddr 0 0 0 0 0 2"]] by simp
qed

lemma sim_sends:
  "\<exists>u. FakeSocket_SendTo E 1 [1, 2, 3, 4] (MacAddr 0 0 0 0 0 2)
     (sim_hosts [Host_make (IpAddr 0) (MacAddr 0 0 0 0 0 1), Host_make (IpAddr 0) (MacAddr 0 0 0 0 0 2)]) = Ret 4 u"
  by (simp add: FakeSocket_SendTo_def HostForMac_def sim_hosts_def sim_start_def Host_make_def kBroadcastMac_def
      MacAddr_eq_def bnd_run_if seq_run on_host_def zoom_def)

text \<open>A host with an empty queue, and a second socket that has taken the broadcast address.\<close>

definition sim_broadcast :: "sim io" where
  "sim_broadcast = sim_start\<lparr>net :=
     \<lparr>hosts = [(Host_make (IpAddr 0) (MacAddr 0 0 0 0 0 1))\<lparr>queues := [(MacAddr 0 0 0 0 0 5, [])]\<rparr>],
      fakes = (fakes (net sim_start))(2 := \<lparr>fake_mac = kBroadcastMac, fake_ip = IpAddr 0\<rparr>)\<rparr>\<rparr>"

theorem network_sim_delivers_nothing_witness:
  "(\<exists>u. FakeSocket_SendTo libc_ext 1 [1, 2, 3, 4] (MacAddr 0 0 0 0 0 2)
        (sim_hosts [Host_make (IpAddr 0) (MacAddr 0 0 0 0 0 1), Host_make (IpAddr 0) (MacAddr 0 0 0 0 0 2)]) = Ret 4 u
      \<and> (\<exists>msg v. FakeSocket_RecvFrom libc_ext 2 4 (MacAddr 0 0 0 0 0 1) u = Throw (invalid_argument msg) v))
   \<and> (\<exists>u v. FakeSocket_SendTo libc_ext 2 [7] kBroadcastMac sim_broadcast = Ret 1 u
      \<and> FakeSocket_RecvFrom libc_ext 1 1 (MacAddr 0 0 0 0 0 5) u = Ret (1, [7]) v)"
proof -
  let ?t = "sim_hosts [Host_make (IpAddr 0) (MacAddr 0 0 0 0 0 1), Host_make (IpAddr 0) (MacAddr 0 0 0 0 0 2)]"
  obtain u where u: "FakeSocket_SendTo libc_ext 1 [1, 2, 3, 4] (MacAddr 0 0 0 0 0 2) ?t = Ret 4 u"
    using sim_sends by blast
  then have "run_op libc_ext (Op_SendTo 1 [1, 2, 3, 4] (MacAddr 0 0 0 0 0 2)) ?t = Ret () u"
    by (simp add: run_op_def bnd_run_if)
  then have reach: "sim_reach libc_ext sim_start u"
    by (rule sim_reach_step[OF sim_hosts_reached, rotated]) simp
  have start: "hosts (net sim_start) = []" "\<forall>this. fake_mac (fakes (net sim_start) this) \<noteq> kBroadcastMac"
    by (simp_all add: sim_start_def kBroadcastMac_def)
  have "\<exists>msg v. FakeSocket_RecvFrom libc_ext 2 4 (MacAddr 0 0 0 0 0 1) u = Throw (invalid_argument msg) v"
    using network_sim_delivers_nothing[OF reach start, of 4 2 "MacAddr 0 0 0 0 0 1"] by simp
  moreover have "fake_mac (fakes (net sim_broadcast) 2) = kBroadcastMac
      \<and> find_host (fake_mac (fakes (net sim_broadcast) 1)) (hosts (net sim_broadcast)) = Some 0
      \<and> map_find (queues (hosts (net sim_broadcast) ! 0)) (MacAddr 0 0 0 0 0 5) = Some []"
    by (simp add: sim_broadcast_def sim_start_def Host_make_def MacAddr_eq_def map_find_def)
  then have "\<exists>u v. FakeSocket_SendTo libc_ext 2 [7] kBroadcastMac sim_broadcast = Ret (int (length [7 :: byte])) u
      \<and> FakeSocket_RecvFrom libc_ext 1 (length ([] @ [7 :: byte])) (MacAddr 0 0 0 0 0 5) u = Ret (int (length ([] @ [7 :: byte])), [] @ [7]) v"
    using network_sim_delivers_nothing[OF reach start zero_less_one, of 2 "MacAddr 0 0 0 0 0 5" "[7]"] by blast
  ultimately show ?thesis
    using u by simp
qed

end
