(* ===== verification/Posix.thy ===== *)
theory Posix
  imports RawSocket
begin

text \<open>
  The surroundings of the C programs under \<open>reference/\<close>: a process with standard output,
  standard error and \<open>errno\<close>, and the system calls those programs make, a record that is an
  argument of every definition. A call gives its result, what it wrote for the caller, the
  error number and the new state of the system.
\<close>

section \<open>Definitions\<close>

record 'k proc =
  out :: string
  err :: string
  perrno :: int
  os :: 'k

text \<open>One instruction of a Berkeley packet filter: the code, the two jump offsets, the operand.\<close>

record sock_filter =
  bpf_code :: nat
  bpf_jt :: nat
  bpf_jf :: nat
  bpf_k :: nat

text \<open>\<open>p_select\<close> watches two descriptors for a time in microseconds; it returns which are
  readable and the time that is left.\<close>

record 'k posix =
  p_open :: "string \<Rightarrow> 'k \<Rightarrow> (int \<times> unit) \<times> int \<times> 'k"
  p_close :: "int \<Rightarrow> 'k \<Rightarrow> (int \<times> unit) \<times> int \<times> 'k"
  p_tunsetiff :: "int \<Rightarrow> string \<Rightarrow> int \<Rightarrow> 'k \<Rightarrow> (int \<times> string) \<times> int \<times> 'k"
  p_socket :: "int \<Rightarrow> int \<Rightarrow> u16 \<Rightarrow> 'k \<Rightarrow> (int \<times> unit) \<times> int \<times> 'k"
  p_connect :: "int \<Rightarrow> u32 \<Rightarrow> u16 \<Rightarrow> 'k \<Rightarrow> (int \<times> unit) \<times> int \<times> 'k"
  p_reuseaddr :: "int \<Rightarrow> 'k \<Rightarrow> (int \<times> unit) \<times> int \<times> 'k"
  p_bind :: "int \<Rightarrow> u32 \<Rightarrow> u16 \<Rightarrow> 'k \<Rightarrow> (int \<times> unit) \<times> int \<times> 'k"
  p_listen :: "int \<Rightarrow> int \<Rightarrow> 'k \<Rightarrow> (int \<times> unit) \<times> int \<times> 'k"
  p_accept :: "int \<Rightarrow> 'k \<Rightarrow> (int \<times> u32) \<times> int \<times> 'k"
  p_select :: "int \<Rightarrow> int \<Rightarrow> nat \<Rightarrow> 'k \<Rightarrow> (int \<times> bool \<times> bool \<times> nat) \<times> int \<times> 'k"
  p_read :: "int \<Rightarrow> nat \<Rightarrow> 'k \<Rightarrow> (int \<times> bytes) \<times> int \<times> 'k"
  p_write :: "int \<Rightarrow> bytes \<Rightarrow> 'k \<Rightarrow> (int \<times> unit) \<times> int \<times> 'k"
  p_recv :: "int \<Rightarrow> nat \<Rightarrow> 'k \<Rightarrow> (int \<times> bytes) \<times> int \<times> 'k"
  p_attach_filter :: "int \<Rightarrow> sock_filter list \<Rightarrow> 'k \<Rightarrow> (int \<times> unit) \<times> int \<times> 'k"
  p_ifindex :: "int \<Rightarrow> string \<Rightarrow> 'k \<Rightarrow> (int \<times> int) \<times> int \<times> 'k"
  p_hwaddr :: "int \<Rightarrow> string \<Rightarrow> 'k \<Rightarrow> (int \<times> bytes) \<times> int \<times> 'k"
  p_sendto :: "int \<Rightarrow> bytes \<Rightarrow> sockaddr_ll \<Rightarrow> 'k \<Rightarrow> (int \<times> unit) \<times> int \<times> 'k"

definition call :: "('k \<Rightarrow> (int \<times> 'a) \<times> int \<times> 'k) \<Rightarrow> ('k proc, int \<times> 'a) prog" where
  "call f = (\<lambda>s. case f (os s) of ((r, a), e, k) \<Rightarrow>
     Ret (r, a) (s\<lparr>perrno := (if r < 0 then e else perrno s), os := k\<rparr>))"

definition print_out :: "string \<Rightarrow> fmt_arg list \<Rightarrow> ('k proc, unit) prog" where
  "print_out fmt args = modify (\<lambda>s. s\<lparr>out := out s @ sprintf fmt args\<rparr>)"

definition print_err :: "string \<Rightarrow> fmt_arg list \<Rightarrow> ('k proc, unit) prog" where
  "print_err fmt args = modify (\<lambda>s. s\<lparr>err := err s @ sprintf fmt args\<rparr>)"

definition perror :: "ext \<Rightarrow> string \<Rightarrow> ('k proc, unit) prog" where
  "perror E msg =
     bnd (gets perrno) (\<lambda>e. print_err (''%s: %s'' @ [CHR 0x0A]) [FStr msg, FStr (strerror E e)])"

text \<open>\<open>atoi\<close>: white space, a sign, decimal digits; out of range it saturates as \<open>strtol\<close> does.\<close>

definition atoi :: "string \<Rightarrow> int" where
  "atoi s =
     (let (neg, t) = scan_sign (dropWhile is_space s);
          v = int (fst (scan_num 10 0 t))
      in if neg then max (- v) (- (2 ^ 63)) else min v (2 ^ 63 - 1))"

text \<open>
  \<open>getopt\<close> of the GNU C library over a whole command line: the options in order with their
  arguments, and the arguments that are not options. \<open>'?'\<close> stands for an option that is
  unknown or lacks its argument. \<open>takes\<close> is \<open>None\<close> for an unknown option, otherwise it says
  whether the option has an argument. The diagnostics \<open>getopt\<close> itself prints are left out.
\<close>

fun getopt_cluster ::
  "(char \<Rightarrow> bool option) \<Rightarrow> string \<Rightarrow> string list \<Rightarrow> (char \<times> string) list \<times> string list" where
  "getopt_cluster takes [] args = ([], args)"
| "getopt_cluster takes (c # cs) args =
     (case takes c of
        None \<Rightarrow> (let (opts, rest) = getopt_cluster takes cs args in ((CHR ''?'', []) # opts, rest))
      | Some False \<Rightarrow> (let (opts, rest) = getopt_cluster takes cs args in ((c, []) # opts, rest))
      | Some True \<Rightarrow>
          (if cs \<noteq> [] then ([(c, cs)], args)
           else (case args of [] \<Rightarrow> ([(CHR ''?'', [])], []) | a # as \<Rightarrow> ([(c, a)], as))))"

lemma getopt_cluster_length: "length (snd (getopt_cluster takes cs args)) \<le> length args"
  by (induction takes cs args rule: getopt_cluster.induct)
    (auto split: option.splits bool.splits list.splits prod.splits)

function getopt_all ::
  "(char \<Rightarrow> bool option) \<Rightarrow> string list \<Rightarrow> (char \<times> string) list \<times> string list" where
  "getopt_all takes [] = ([], [])"
| "getopt_all takes (a # as) =
     (if a = ''--'' then ([], as)
      else if length a < 2 \<or> hd a \<noteq> CHR ''-'' then
        (let (opts, rest) = getopt_all takes as in (opts, a # rest))
      else
        (let (opts1, as1) = getopt_cluster takes (tl a) as;
             (opts2, rest) = getopt_all takes as1
         in (opts1 @ opts2, rest)))"
  by pat_completeness auto
termination
proof (relation "measure (\<lambda>(takes, as). length as)", goal_cases)
  case (3 takes a as x opts1 as1)
  then have "as1 = snd (getopt_cluster takes (tl a) as)"
    by (metis snd_conv)
  then show ?case
    using getopt_cluster_length[of takes "tl a" as] by (simp add: less_Suc_eq_le)
qed auto

section \<open>Lemmas\<close>

lemma print_run [simp]:
  "print_out fmt args s = Ret () (s\<lparr>out := out s @ sprintf fmt args\<rparr>)"
  "print_err fmt args s = Ret () (s\<lparr>err := err s @ sprintf fmt args\<rparr>)"
  by (simp_all add: print_out_def print_err_def)

lemma call_run: "f (os s) = ((r, a), e, k) \<Longrightarrow>
  call f s = Ret (r, a) (s\<lparr>perrno := (if r < 0 then e else perrno s), os := k\<rparr>)"
  by (simp add: call_def)

end
