(* ===== verification/Sniffer.thy ===== *)
theory Sniffer
  imports Posix
begin

text \<open>
  \<open>reference/sniffer.c\<close>: a packet sniffer that counts the packets per protocol and writes their
  headers and a hex dump to a log file. The whole program is modelled, every \<open>fprintf\<close>
  included. The buffer is the 65536 byte block \<open>main\<close> allocates; a field is read from the
  bytes at its offset, and reading past the block or writing to a log file that could not be
  opened is undefined.

  The lemmas show that the counters add up and that a packet of any length and content is
  processed without leaving the buffer, and give the hex dump as a list of 16 byte lines.
\<close>

section \<open>Definitions\<close>

record 'k sniffer =
  sproc :: "'k proc"
  logfile :: "string option"
  tcp :: int
  udp :: int
  icmp :: int
  others :: int
  igmp :: int
  total :: int

definition fprintf_log :: "string \<Rightarrow> fmt_arg list \<Rightarrow> ('k sniffer, unit) prog" where
  "fprintf_log fmt args =
     bnd (gets logfile) (\<lambda>f. case f of
       None \<Rightarrow> undef
     | Some t \<Rightarrow> modify (\<lambda>s. s\<lparr>logfile := Some (t @ sprintf fmt args)\<rparr>))"

definition endl :: string where
  "endl = [CHR 0x0A]"

text \<open>Fields of a packet in the buffer: \<open>with_block b off n\<close> reads \<open>n\<close> bytes at \<open>off\<close>.\<close>

definition with_block :: "bytes \<Rightarrow> nat \<Rightarrow> nat \<Rightarrow> (bytes \<Rightarrow> ('s, 'a) prog) \<Rightarrow> ('s, 'a) prog" where
  "with_block b off n f = checked (off + n \<le> length b) (f (take n (drop off b)))"

definition net_u16 :: "bytes \<Rightarrow> nat \<Rightarrow> int" where
  "net_u16 h off = uint (ntohs (read16 (drop off h)))"

definition net_u32 :: "bytes \<Rightarrow> nat \<Rightarrow> int" where
  "net_u32 h off = uint (ntohl (read32 (drop off h)))"

definition low_nibble :: "byte \<Rightarrow> nat" where
  "low_nibble x = unat (and x 0xF)"

definition high_nibble :: "byte \<Rightarrow> nat" where
  "high_nibble x = unat (drop_bit 4 x)"

definition flag_bit :: "byte \<Rightarrow> nat \<Rightarrow> fmt_arg" where
  "flag_bit x n = FInt (if bit x n then 1 else 0)"

definition print_ethernet_header :: "bytes \<Rightarrow> ('k sniffer, unit) prog" where
  "print_ethernet_header b =
     with_block b 0 14 (\<lambda>eth.
     seq (fprintf_log endl [])
     (seq (fprintf_log (''Ethernet Header'' @ endl) [])
     (seq (fprintf_log (''   |-Destination Address : %.2X-%.2X-%.2X-%.2X-%.2X-%.2X '' @ endl)
            (map (\<lambda>x. FInt (uint x)) (take 6 eth)))
     (seq (fprintf_log (''   |-Source Address      : %.2X-%.2X-%.2X-%.2X-%.2X-%.2X '' @ endl)
            (map (\<lambda>x. FInt (uint x)) (take 6 (drop 6 eth))))
     (fprintf_log (''   |-Protocol            : %u '' @ endl) [FInt (uint (read16 (drop 12 eth)))])))))"

definition print_ip_header :: "bytes \<Rightarrow> ('k sniffer, unit) prog" where
  "print_ip_header b =
     seq (print_ethernet_header b)
     (with_block b 14 20 (\<lambda>iph.
      seq (fprintf_log endl [])
      (seq (fprintf_log (''IP Header'' @ endl) [])
      (seq (fprintf_log (''   |-IP Version        : %d'' @ endl) [FInt (int (high_nibble (iph ! 0)))])
      (seq (fprintf_log (''   |-IP Header Length  : %d DWORDS or %d Bytes'' @ endl)
             [FInt (int (low_nibble (iph ! 0))), FInt (int (low_nibble (iph ! 0) * 4))])
      (seq (fprintf_log (''   |-Type Of Service   : %d'' @ endl) [FInt (uint (iph ! 1))])
      (seq (fprintf_log (''   |-IP Total Length   : %d  Bytes(Size of Packet)'' @ endl) [FInt (net_u16 iph 2)])
      (seq (fprintf_log (''   |-Identification    : %d'' @ endl) [FInt (net_u16 iph 4)])
      (seq (fprintf_log (''   |-TTL      : %d'' @ endl) [FInt (uint (iph ! 8))])
      (seq (fprintf_log (''   |-Protocol : %d'' @ endl) [FInt (uint (iph ! 9))])
      (seq (fprintf_log (''   |-Checksum : %d'' @ endl) [FInt (net_u16 iph 10)])
      (seq (fprintf_log (''   |-Source IP        : %s'' @ endl) [FStr (inet_ntoa (read32 (drop 12 iph)))])
      (fprintf_log (''   |-Destination IP   : %s'' @ endl) [FStr (inet_ntoa (read32 (drop 16 iph)))])))))))))))))"

text \<open>One character of the text column; \<open>data\<close> is the block from the pointer on.\<close>

definition print_char :: "bytes \<Rightarrow> nat \<Rightarrow> ('k sniffer, unit) prog" where
  "print_char data j =
     checked (j < length data)
       (if 32 \<le> data ! j \<and> data ! j \<le> 128 then fprintf_log ''%c'' [FInt (uint (data ! j))]
        else fprintf_log ''.'' [])"

primrec for_each :: "('a \<Rightarrow> ('s, unit) prog) \<Rightarrow> 'a list \<Rightarrow> ('s, unit) prog" where
  "for_each f [] = ret ()"
| "for_each f (x # xs) = seq (f x) (for_each f xs)"

definition print_data_step :: "bytes \<Rightarrow> nat \<Rightarrow> nat \<Rightarrow> ('k sniffer, unit) prog" where
  "print_data_step data n i =
     seq (only_if (i \<noteq> 0 \<and> i mod 16 = 0)
            (seq (fprintf_log ''         '' [])
            (seq (for_each (print_char data) [i - 16..<i]) (fprintf_log endl []))))
     (seq (only_if (i mod 16 = 0) (fprintf_log ''   '' []))
     (seq (checked (i < length data) (fprintf_log '' %02X'' [FInt (uint (data ! i))]))
     (only_if (i = n - 1)
        (seq (for_each (\<lambda>_. fprintf_log ''   '' []) [0..<15 - i mod 16])
        (seq (fprintf_log ''         '' [])
        (seq (for_each (print_char data) [i - i mod 16..<i + 1]) (fprintf_log endl [])))))))"

definition PrintData :: "bytes \<Rightarrow> int \<Rightarrow> ('k sniffer, unit) prog" where
  "PrintData data sz = for_each (print_data_step data (nat sz)) [0..<nat sz]"

definition log_footer :: "('k sniffer, unit) prog" where
  "log_footer = fprintf_log (endl @ ''###########################################################'') []"

definition print_tcp_packet :: "bytes \<Rightarrow> int \<Rightarrow> ('k sniffer, unit) prog" where
  "print_tcp_packet b sz =
     with_block b 14 20 (\<lambda>iph.
     let iphdrlen = low_nibble (iph ! 0) * 4 in
     with_block b (14 + iphdrlen) 20 (\<lambda>tcph.
     let doff = high_nibble (tcph ! 12);
         header_size = 14 + iphdrlen + doff * 4 in
     seq (fprintf_log (endl @ endl @ ''***********************TCP Packet*************************'' @ endl) [])
     (seq (print_ip_header b)
     (seq (fprintf_log endl [])
     (seq (fprintf_log (''TCP Header'' @ endl) [])
     (seq (fprintf_log (''   |-Source Port      : %u'' @ endl) [FInt (net_u16 tcph 0)])
     (seq (fprintf_log (''   |-Destination Port : %u'' @ endl) [FInt (net_u16 tcph 2)])
     (seq (fprintf_log (''   |-Sequence Number    : %u'' @ endl) [FInt (net_u32 tcph 4)])
     (seq (fprintf_log (''   |-Acknowledge Number : %u'' @ endl) [FInt (net_u32 tcph 8)])
     (seq (fprintf_log (''   |-Header Length      : %d DWORDS or %d BYTES'' @ endl)
            [FInt (int doff), FInt (int (doff * 4))])
     (seq (fprintf_log (''   |-Urgent Flag          : %d'' @ endl) [flag_bit (tcph ! 13) 5])
     (seq (fprintf_log (''   |-Acknowledgement Flag : %d'' @ endl) [flag_bit (tcph ! 13) 4])
     (seq (fprintf_log (''   |-Push Flag            : %d'' @ endl) [flag_bit (tcph ! 13) 3])
     (seq (fprintf_log (''   |-Reset Flag           : %d'' @ endl) [flag_bit (tcph ! 13) 2])
     (seq (fprintf_log (''   |-Synchronise Flag     : %d'' @ endl) [flag_bit (tcph ! 13) 1])
     (seq (fprintf_log (''   |-Finish Flag          : %d'' @ endl) [flag_bit (tcph ! 13) 0])
     (seq (fprintf_log (''   |-Window         : %d'' @ endl) [FInt (net_u16 tcph 14)])
     (seq (fprintf_log (''   |-Checksum       : %d'' @ endl) [FInt (net_u16 tcph 16)])
     (seq (fprintf_log (''   |-Urgent Pointer : %d'' @ endl) [FInt (uint (read16 (drop 18 tcph)))])
     (seq (fprintf_log endl [])
     (seq (fprintf_log ''                        DATA Dump                         '' [])
     (seq (fprintf_log endl [])
     (seq (fprintf_log (''IP Header'' @ endl) [])
     (seq (PrintData b (int iphdrlen))
     (seq (fprintf_log (''TCP Header'' @ endl) [])
     (seq (PrintData (drop iphdrlen b) (int (doff * 4)))
     (seq (fprintf_log (''Data Payload'' @ endl) [])
     (seq (PrintData (drop header_size b) (sz - int header_size))
     log_footer))))))))))))))))))))))))))))"

text \<open>\<open>sizeof udph\<close> and \<open>sizeof icmph\<close> are the sizes of pointers, 8.\<close>

definition print_udp_packet :: "bytes \<Rightarrow> int \<Rightarrow> ('k sniffer, unit) prog" where
  "print_udp_packet b sz =
     with_block b 14 20 (\<lambda>iph.
     let iphdrlen = low_nibble (iph ! 0) * 4 in
     with_block b (14 + iphdrlen) 8 (\<lambda>udph.
     let header_size = 14 + iphdrlen + 8 in
     seq (fprintf_log (endl @ endl @ ''***********************UDP Packet*************************'' @ endl) [])
     (seq (print_ip_header b)
     (seq (fprintf_log (endl @ ''UDP Header'' @ endl) [])
     (seq (fprintf_log (''   |-Source Port      : %d'' @ endl) [FInt (net_u16 udph 0)])
     (seq (fprintf_log (''   |-Destination Port : %d'' @ endl) [FInt (net_u16 udph 2)])
     (seq (fprintf_log (''   |-UDP Length       : %d'' @ endl) [FInt (net_u16 udph 4)])
     (seq (fprintf_log (''   |-UDP Checksum     : %d'' @ endl) [FInt (net_u16 udph 6)])
     (seq (fprintf_log endl [])
     (seq (fprintf_log (''IP Header'' @ endl) [])
     (seq (PrintData b (int iphdrlen))
     (seq (fprintf_log (''UDP Header'' @ endl) [])
     (seq (PrintData (drop iphdrlen b) 8)
     (seq (fprintf_log (''Data Payload'' @ endl) [])
     (seq (PrintData (drop header_size b) (sz - int header_size))
     log_footer)))))))))))))))"

definition print_icmp_packet :: "bytes \<Rightarrow> int \<Rightarrow> ('k sniffer, unit) prog" where
  "print_icmp_packet b sz =
     with_block b 14 20 (\<lambda>iph.
     let iphdrlen = low_nibble (iph ! 0) * 4 in
     with_block b (14 + iphdrlen) 8 (\<lambda>icmph.
     let header_size = 14 + iphdrlen + 8 in
     seq (fprintf_log (endl @ endl @ ''***********************ICMP Packet*************************'' @ endl) [])
     (seq (print_ip_header b)
     (seq (fprintf_log endl [])
     (seq (fprintf_log (''ICMP Header'' @ endl) [])
     (seq (fprintf_log ''   |-Type : %d'' [FInt (uint (icmph ! 0))])
     (seq (if icmph ! 0 = 11 then fprintf_log (''  (TTL Expired)'' @ endl) []
           else if icmph ! 0 = 0 then fprintf_log (''  (ICMP Echo Reply)'' @ endl) []
           else ret ())
     (seq (fprintf_log (''   |-Code : %d'' @ endl) [FInt (uint (icmph ! 1))])
     (seq (fprintf_log (''   |-Checksum : %d'' @ endl) [FInt (net_u16 icmph 2)])
     (seq (fprintf_log endl [])
     (seq (fprintf_log (''IP Header'' @ endl) [])
     (seq (PrintData b (int iphdrlen))
     (seq (fprintf_log (''UDP Header'' @ endl) [])
     (seq (PrintData (drop iphdrlen b) 8)
     (seq (fprintf_log (''Data Payload'' @ endl) [])
     (seq (PrintData (drop header_size b) (sz - int header_size))
     log_footer))))))))))))))))"

text \<open>\<open>++counter\<close> on an \<open>int\<close>.\<close>

definition increment :: "('k sniffer \<Rightarrow> int) \<Rightarrow> ((int \<Rightarrow> int) \<Rightarrow> 'k sniffer \<Rightarrow> 'k sniffer) \<Rightarrow> ('k sniffer, unit) prog" where
  "increment get upd =
     bnd (gets get) (\<lambda>n. checked (n < int_max) (modify (upd (\<lambda>n. n + 1))))"

definition on_sproc :: "('k proc, 'a) prog \<Rightarrow> ('k sniffer, 'a) prog" where
  "on_sproc m = zoom sproc (\<lambda>p s. s\<lparr>sproc := p\<rparr>) m"

definition print_counters :: "('k sniffer, unit) prog" where
  "print_counters =
     bnd (gets (\<lambda>s. [FInt (tcp s), FInt (udp s), FInt (icmp s), FInt (igmp s), FInt (others s), FInt (total s)]))
       (\<lambda>args. on_sproc (print_out
          (''TCP : %d   UDP : %d   ICMP : %d   IGMP : %d   Others : %d   Total : %d'' @ [CHR 0x0D]) args))"

definition process_protocol :: "bytes \<Rightarrow> int \<Rightarrow> byte \<Rightarrow> ('k sniffer, unit) prog" where
  "process_protocol b sz p =
     (if p = 1 then seq (increment icmp icmp_update) (print_icmp_packet b sz)
      else if p = 2 then increment igmp igmp_update
      else if p = 6 then seq (increment tcp tcp_update) (print_tcp_packet b sz)
      else if p = 17 then seq (increment udp udp_update) (print_udp_packet b sz)
      else increment others others_update)"

definition ProcessPacket :: "bytes \<Rightarrow> int \<Rightarrow> ('k sniffer, unit) prog" where
  "ProcessPacket b sz =
     with_block b 14 20 (\<lambda>iph.
     seq (increment total total_update)
     (seq (process_protocol b sz (iph ! 9))
     print_counters))"

primrec sniffer_loop :: "'k posix \<Rightarrow> int \<Rightarrow> nat \<Rightarrow> bytes \<Rightarrow> ('k sniffer, int option) prog" where
  "sniffer_loop K sock_raw 0 b = ret None"
| "sniffer_loop K sock_raw (Suc turns) b =
     bnd (on_sproc (call (p_recv K sock_raw 65536))) (\<lambda>(data_size, bs).
     if data_size < 0 then
       seq (on_sproc (print_out (''Recvfrom error , failed to get packets'' @ endl) [])) (ret (Some 1))
     else
       bnd (memcpy_to b 0 bs) (\<lambda>b.
       seq (ProcessPacket b data_size) (sniffer_loop K sock_raw turns b)))"

text \<open>\<open>can_create\<close>: whether \<open>log.txt\<close> can be opened; \<open>b\<close>: what \<open>malloc\<close> returned.\<close>

definition sniffer_main ::
  "ext \<Rightarrow> 'k posix \<Rightarrow> bool \<Rightarrow> bytes \<Rightarrow> nat \<Rightarrow> ('k sniffer, int option) prog" where
  "sniffer_main E K can_create b turns =
     seq (modify (\<lambda>s. s\<lparr>logfile := (if can_create then Some [] else None)\<rparr>))
     (seq (only_if (\<not> can_create) (on_sproc (print_out ''Unable to create log.txt file.'' [])))
     (seq (on_sproc (print_out (''Starting...'' @ endl) []))
     (bnd (on_sproc (call (p_socket K AF_PACKET SOCK_RAW (htons ETH_P_ALL)))) (\<lambda>(sock_raw, _).
      if sock_raw < 0 then seq (on_sproc (perror E ''Socket Error'')) (ret (Some 1))
      else sniffer_loop K sock_raw turns b))))"

section \<open>What is written to the log\<close>

text \<open>\<open>appends m x\<close>: with an open log file, \<open>m\<close> returns and does nothing but append \<open>x\<close> to it.\<close>

definition appends :: "('k sniffer, unit) prog \<Rightarrow> string \<Rightarrow> bool" where
  "appends m x \<longleftrightarrow> (\<forall>s t. logfile s = Some t \<longrightarrow> m s = Ret () (s\<lparr>logfile := Some (t @ x)\<rparr>))"

definition logs :: "('k sniffer, unit) prog \<Rightarrow> bool" where
  "logs m \<longleftrightarrow> (\<exists>x. appends m x)"

named_theorems log_intros \<open>programs that only write to the log\<close>

lemma appends_fprintf: "appends (fprintf_log fmt args) (sprintf fmt args)"
  by (simp add: appends_def fprintf_log_def bnd_run_if)

lemma appends_seq: "appends m x \<Longrightarrow> appends n y \<Longrightarrow> appends (seq m n) (x @ y)"
  by (simp add: appends_def seq_run)

lemma appends_ret: "appends (ret ()) []"
  by (auto simp: appends_def)

lemma appends_only_if: "(b \<Longrightarrow> appends m x) \<Longrightarrow> appends (only_if b m) (if b then x else [])"
  by (simp add: appends_ret only_if_def)

lemma appends_checked: "b \<Longrightarrow> appends m x \<Longrightarrow> appends (checked b m) x"
  by (simp add: checked_def)

lemma appends_for_each:
  "(\<And>x. x \<in> set xs \<Longrightarrow> appends (f x) (g x)) \<Longrightarrow> appends (for_each f xs) (concat (map g xs))"
  by (induction xs) (simp_all add: appends_ret appends_seq)

lemma logs_fprintf [log_intros]: "logs (fprintf_log fmt args)"
  unfolding logs_def using appends_fprintf by blast

lemma logs_seq [log_intros]: "logs m \<Longrightarrow> logs n \<Longrightarrow> logs (seq m n)"
  unfolding logs_def using appends_seq by blast

lemma logs_ret [log_intros]: "logs (ret ())"
  unfolding logs_def using appends_ret by blast

lemma logs_if [log_intros]: "logs m \<Longrightarrow> logs n \<Longrightarrow> logs (if b then m else n)"
  by simp

lemma logs_with_block [log_intros]:
  "off + n \<le> length b \<Longrightarrow> (\<And>h. length h = n \<Longrightarrow> logs (f h)) \<Longrightarrow> logs (with_block b off n f)"
  by (simp add: with_block_def)

lemma appends_run: "appends m x \<Longrightarrow> logfile s = Some t \<Longrightarrow> m s = Ret () (s\<lparr>logfile := Some (t @ x)\<rparr>)"
  by (simp add: appends_def)

lemma logs_run: "logs m \<Longrightarrow> logfile s = Some t \<Longrightarrow> \<exists>x. m s = Ret () (s\<lparr>logfile := Some x\<rparr>)"
  by (auto simp: logs_def appends_def)

section \<open>The hex dump\<close>

text \<open>One line: the bytes in hexadecimal, padded to sixteen columns, and as text.\<close>

definition hex_column :: "byte \<Rightarrow> string" where
  "hex_column x = sprintf '' %02X'' [FInt (uint x)]"

definition text_column :: "byte \<Rightarrow> string" where
  "text_column x = (if 32 \<le> x \<and> x \<le> 128 then sprintf ''%c'' [FInt (uint x)] else ''.'')"

definition blank9 :: string where
  "blank9 = ''         ''"

definition dump_line :: "bytes \<Rightarrow> string" where
  "dump_line xs = ''   '' @ concat (map hex_column xs) @ concat (replicate (16 - length xs) ''   '')
     @ blank9 @ concat (map text_column xs) @ endl"

function dump_lines :: "bytes \<Rightarrow> string" where
  "dump_lines xs = (if xs = [] then [] else dump_line (take 16 xs) @ dump_lines (drop 16 xs))"
  by pat_completeness auto
termination
  by (relation "measure length") auto

declare dump_lines.simps [simp del]

lemma sprintf_plain [simp]: "CHR ''%'' \<notin> set fmt \<Longrightarrow> sprintf fmt args = fmt"
  unfolding sprintf_def by (induction fmt) auto

lemma appends_literal: "CHR ''%'' \<notin> set fmt \<Longrightarrow> appends (fprintf_log fmt args) fmt"
  by (metis appends_fprintf sprintf_plain)

text \<open>The text of one turn of the loop of \<open>PrintData\<close>.\<close>

definition step_text :: "bytes \<Rightarrow> nat \<Rightarrow> nat \<Rightarrow> string" where
  "step_text data n i =
     (if i \<noteq> 0 \<and> i mod 16 = 0
      then blank9 @ concat (map (\<lambda>j. text_column (data ! j)) [i - 16..<i]) @ endl else [])
     @ (if i mod 16 = 0 then ''   '' else []) @ hex_column (data ! i)
     @ (if i = n - 1 then concat (replicate (15 - i mod 16) ''   '') @ blank9
          @ concat (map (\<lambda>j. text_column (data ! j)) [i - i mod 16..<i + 1]) @ endl else [])"

lemma appends_print_char: "j < length data \<Longrightarrow> appends (print_char data j) (text_column (data ! j))"
  by (simp add: print_char_def text_column_def appends_fprintf appends_literal)

lemma appends_step:
  assumes "i < length data"
  shows "appends (print_data_step data n i) (step_text data n i)"
proof -
  have chars: "appends (for_each (print_char data) [a..<b]) (concat (map (\<lambda>j. text_column (data ! j)) [a..<b]))"
    if "b \<le> i + 1" for a b
    using that assms by (intro appends_for_each appends_print_char) simp
  have pad: "appends (for_each (\<lambda>_. fprintf_log ''   '' []) [0..<k]) (concat (replicate k ''   ''))" for k
    using appends_for_each[of "[0..<k]" "\<lambda>_. fprintf_log ''   '' []" "\<lambda>_. ''   ''"]
    by (simp add: map_replicate_const appends_literal)
  show ?thesis
    unfolding print_data_step_def step_text_def blank9_def hex_column_def using assms
    by (intro appends_seq appends_only_if appends_checked appends_fprintf appends_literal chars pad)
      (simp_all add: endl_def)
qed

lemma appends_PrintData:
  "n \<le> length data \<Longrightarrow> appends (PrintData data (int n)) (concat (map (step_text data n) [0..<n]))"
  unfolding PrintData_def nat_int by (intro appends_for_each) (simp add: appends_step)

lemma map_nth_range:
  assumes "b \<le> length xs"
  shows "map (\<lambda>j. f (xs ! j)) [a..<b] = map f (take (b - a) (drop a xs))"
  using assms by (intro nth_equalityI) auto

definition line_tail :: "bytes \<Rightarrow> nat \<Rightarrow> string" where
  "line_tail data k =
     (if k = 0 then [] else blank9 @ concat (map text_column (take 16 (drop (16 * (k - 1)) data))) @ endl)"

text \<open>The first \<open>m\<close> turns of line \<open>k\<close>: they finish the line before and begin this one.\<close>

lemma line_steps:
  assumes "16 * k + m \<le> length data" "0 < m" "m \<le> 16"
  shows "concat (map (step_text data (length data)) [16 * k..<16 * k + m])
    = line_tail data k @ ''   '' @ concat (map hex_column (take m (drop (16 * k) data)))
      @ (if 16 * k + m = length data then concat (replicate (16 - m) ''   '') @ blank9
           @ concat (map text_column (take m (drop (16 * k) data))) @ endl else [])"
  using assms
proof (induction m)
  case (Suc m)
  let ?i = "16 * k + m"
  have texts: "map (\<lambda>j. text_column (data ! j)) [16 * k..<?i + 1] = map text_column (take (Suc m) (drop (16 * k) data))"
    using Suc.prems(1) by (subst map_nth_range) simp_all
  have take_m: "take (Suc m) (drop (16 * k) data) = take m (drop (16 * k) data) @ [data ! ?i]"
    using Suc.prems(1) by (simp add: take_Suc_conv_app_nth)
  have last: "?i = length data - 1 \<longleftrightarrow> 16 * k + Suc m = length data"
    using Suc.prems(1) by auto
  have modulus: "?i mod 16 = m" "?i - m = 16 * k" "15 - m = 16 - Suc m"
    using Suc.prems(3) by simp_all
  have prev: "map (\<lambda>j. text_column (data ! j)) [16 * k - 16..<16 * k]
      = map text_column (take 16 (drop (16 * (k - 1)) data))" if "k \<noteq> 0"
    using Suc.prems(1) that by (subst map_nth_range) (simp_all add: diff_mult_distrib2)
  have "step_text data (length data) ?i = (if m = 0 then line_tail data k @ ''   '' else []) @ hex_column (data ! ?i)
      @ (if 16 * k + Suc m = length data then concat (replicate (16 - Suc m) ''   '') @ blank9
           @ concat (map text_column (take (Suc m) (drop (16 * k) data))) @ endl else [])"
    unfolding step_text_def modulus last texts using prev by (auto simp: line_tail_def)
  then show ?case
    using Suc.IH Suc.prems take_m by (cases "m = 0") simp_all
qed simp

lemma full_lines:
  assumes "16 * k < length data"
  shows "concat (map (step_text data (length data)) [0..<16 * k]) @ line_tail data k
    = concat (map (\<lambda>j. dump_line (take 16 (drop (16 * j) data))) [0..<k])"
  using assms
proof (induction k)
  case (Suc k)
  have "[0..<16 * Suc k] = [0..<16 * k] @ [16 * k..<16 * k + 16]"
    using upt_add_eq_append[of 0 "16 * k" 16] by (simp add: add.commute)
  moreover have "line_tail data (Suc k) = blank9 @ concat (map text_column (take 16 (drop (16 * k) data))) @ endl"
    by (simp add: line_tail_def)
  moreover have "concat (map (step_text data (length data)) [16 * k..<16 * k + 16])
      = line_tail data k @ ''   '' @ concat (map hex_column (take 16 (drop (16 * k) data)))"
    using line_steps[of k 16 data] Suc.prems by simp
  ultimately show ?case
    using Suc by (simp add: dump_line_def flip: append_assoc)
qed (simp add: line_tail_def)

lemma dump_lines_split:
  assumes "length xs = 16 * k + m" "0 < m" "m \<le> 16"
  shows "dump_lines xs = concat (map (\<lambda>j. dump_line (take 16 (drop (16 * j) xs))) [0..<k]) @ dump_line (drop (16 * k) xs)"
  using assms
proof (induction k arbitrary: xs)
  case 0
  then show ?case
    by (subst dump_lines.simps) (auto simp: dump_lines.simps[of "[]"])
next
  case (Suc k)
  have "dump_lines xs = dump_line (take 16 xs) @ dump_lines (drop 16 xs)"
    using Suc.prems by (subst dump_lines.simps) auto
  then show ?case
    using Suc.IH[of "drop 16 xs"] Suc.prems by (simp add: upt_conv_Cons map_Suc_upt[symmetric] comp_def add.commute del: upt_Suc)
qed

lemma steps_dump_lines: "concat (map (step_text data (length data)) [0..<length data]) = dump_lines data"
proof (cases "data = []")
  case True
  then show ?thesis
    by (simp add: dump_lines.simps)
next
  case False
  let ?n = "length data"
  define k where "k = (?n - 1) div 16"
  define m where "m = ?n - 16 * k"
  have km: "?n = 16 * k + m" "0 < m" "m \<le> 16"
    using False by (auto simp: k_def m_def Suc_le_eq simp flip: length_greater_0_conv)
  have "[0..<?n] = [0..<16 * k] @ [16 * k..<16 * k + m]"
    unfolding km(1) by (rule upt_add_eq_append) simp
  then have "concat (map (step_text data ?n) [0..<?n]) = concat (map (step_text data ?n) [0..<16 * k])
      @ line_tail data k @ dump_line (drop (16 * k) data)"
    using line_steps[of k m data] km by (simp add: dump_line_def)
  also have "\<dots> = dump_lines data"
    using full_lines[of k data] dump_lines_split[of data k m] km by (simp flip: append_assoc)
  finally show ?thesis .
qed

lemma step_text_take:
  assumes "i < n"
  shows "step_text (take n data) n i = step_text data n i"
proof -
  have texts: "concat (map (\<lambda>j. text_column (take n data ! j)) [a..<b]) = concat (map (\<lambda>j. text_column (data ! j)) [a..<b])"
    if "b \<le> n" for a b
    using that by (intro arg_cong[where f = concat] map_cong) auto
  show ?thesis
    using assms by (simp add: step_text_def texts)
qed

lemma appends_hexdump:
  assumes "n \<le> length data"
  shows "appends (PrintData data (int n)) (dump_lines (take n data))"
proof -
  have "map (step_text data n) [0..<n] = map (step_text (take n data) (length (take n data))) [0..<length (take n data)]"
    using assms by (simp add: step_text_take min_absorb2)
  then have "concat (map (step_text data n) [0..<n]) = dump_lines (take n data)"
    by (simp only: steps_dump_lines)
  with appends_PrintData[OF assms] show ?thesis
    by simp
qed

section \<open>Every packet is processed\<close>

lemma low_nibble_le: "low_nibble x \<le> 15"
proof -
  have "and x 0xF = take_bit 4 x"
    by (simp add: take_bit_eq_mask mask_eq_exp_minus_1)
  moreover have "take_bit 4 (unat x) < 16"
    using take_bit_nat_less_exp[of 4 "unat x"] by simp
  ultimately show ?thesis
    by (simp add: low_nibble_def unsigned_take_bit_eq)
qed

lemma high_nibble_le: "high_nibble x \<le> 15"
proof -
  have "high_nibble x = unat x div 16"
    unfolding high_nibble_def unat_drop_bit_eq by (simp add: drop_bit_eq_div)
  then show ?thesis
    using unat_bounds(1)[of x] by linarith
qed

text \<open>A dump that ends inside the block, or is empty, only writes to the log.\<close>

lemma logs_PrintData [log_intros]: "sz \<le> int (length data) \<Longrightarrow> logs (PrintData data sz)"
proof (cases "0 \<le> sz")
  case True
  then obtain n where "sz = int n"
    by (rule nonneg_int_cases)
  then show "sz \<le> int (length data) \<Longrightarrow> ?thesis"
    using appends_hexdump[of n data] by (auto simp: logs_def)
next
  case False
  then show ?thesis
    by (simp add: PrintData_def logs_ret)
qed

lemma logs_print_headers [log_intros]:
  assumes "length b = 65536"
  shows "logs (print_ethernet_header b)" "logs (print_ip_header b)"
  unfolding print_ip_header_def print_ethernet_header_def
  by (intro log_intros; simp add: assms)+

lemma logs_print_packet [log_intros]:
  assumes "length b = 65536" "sz \<le> 65536"
  shows "logs (print_tcp_packet b sz)" "logs (print_udp_packet b sz)" "logs (print_icmp_packet b sz)"
proof -
  have n: "low_nibble x \<le> 15" "high_nibble x \<le> 15" for x
    by (rule low_nibble_le high_nibble_le)+
  have tail: "sz - int k \<le> int (length (drop k b))" for k
    using assms by (cases "k \<le> 65536") (auto simp: of_nat_diff)
  have small: "14 + low_nibble x * 4 + 20 \<le> length b" "14 + low_nibble x * 4 + 8 \<le> length b"
    "int (low_nibble x * 4) \<le> int (length b)" "int (high_nibble y * 4) \<le> int (length (drop (low_nibble x * 4) b))"
    "8 \<le> int (length (drop (low_nibble x * 4) b))" for x y
    using n(1)[of x] n(2)[of y] assms(1) by simp_all
  show "logs (print_tcp_packet b sz)"
    unfolding print_tcp_packet_def Let_def log_footer_def
    by (intro log_intros logs_print_headers assms small tail; simp add: assms)
  show "logs (print_udp_packet b sz)"
    unfolding print_udp_packet_def Let_def log_footer_def
    by (intro log_intros logs_print_headers assms small tail; simp add: assms)
  show "logs (print_icmp_packet b sz)"
    unfolding print_icmp_packet_def Let_def log_footer_def
    by (intro log_intros logs_print_headers assms small tail; simp add: assms)
qed

section \<open>The counters\<close>

definition counters_ok :: "'k sniffer \<Rightarrow> bool" where
  "counters_ok s \<longleftrightarrow> 0 \<le> tcp s \<and> 0 \<le> udp s \<and> 0 \<le> icmp s \<and> 0 \<le> igmp s \<and> 0 \<le> others s
     \<and> total s = tcp s + udp s + icmp s + igmp s + others s"

text \<open>The state after a packet with protocol number \<open>p\<close> has been counted.\<close>

definition counted :: "byte \<Rightarrow> 'k sniffer \<Rightarrow> 'k sniffer" where
  "counted p s = s\<lparr>total := total s + 1, icmp := icmp s + of_bool (p = 1), igmp := igmp s + of_bool (p = 2),
     tcp := tcp s + of_bool (p = 6), udp := udp s + of_bool (p = 17),
     others := others s + of_bool (p \<notin> {1, 2, 6, 17})\<rparr>"

lemma counters_ok_counted: "counters_ok s \<Longrightarrow> counters_ok (counted p s)"
  by (auto simp: counters_ok_def counted_def)

lemma increment_run: "get s < int_max \<Longrightarrow> increment get upd s = Ret () (upd (\<lambda>n. n + 1) s)"
  by (simp add: increment_def bnd_run_if)

lemma print_counters_run:
  "\<exists>q. print_counters s = Ret () (s\<lparr>sproc := q\<rparr>) \<and> os q = os (sproc s)"
  unfolding print_counters_def bnd_run_if on_sproc_def zoom_def
  by simp (rule exI, rule conjI, rule refl, simp)

lemma plus_one_update:
  "icmp_update (\<lambda>n. n + 1) s = s\<lparr>icmp := icmp s + 1\<rparr>" "igmp_update (\<lambda>n. n + 1) s = s\<lparr>igmp := igmp s + 1\<rparr>"
  "tcp_update (\<lambda>n. n + 1) s = s\<lparr>tcp := tcp s + 1\<rparr>" "udp_update (\<lambda>n. n + 1) s = s\<lparr>udp := udp s + 1\<rparr>"
  "others_update (\<lambda>n. n + 1) s = s\<lparr>others := others s + 1\<rparr>"
  "total_update (\<lambda>n. n + 1) s = s\<lparr>total := total s + 1\<rparr>" for s :: "'k sniffer"
  by (cases s; simp)+

text \<open>The protocols whose packets are printed to the log.\<close>

definition printed :: "byte \<Rightarrow> bool" where
  "printed p \<longleftrightarrow> p = 1 \<or> p = 6 \<or> p = 17"

text \<open>Printing a packet without a log writes to a null stream.\<close>

lemma log_no_log: "logfile s = None \<Longrightarrow> seq (fprintf_log fmt args) m s = Undef"
  by (simp add: seq_run fprintf_log_def bnd_run_if)

lemma print_packet_no_log:
  assumes "logfile s = None"
  shows "print_tcp_packet b sz s = Undef" "print_udp_packet b sz s = Undef" "print_icmp_packet b sz s = Undef"
  unfolding print_tcp_packet_def print_udp_packet_def print_icmp_packet_def with_block_def checked_def Let_def
  by (simp_all add: log_no_log[OF assms])

lemma process_protocol_run:
  assumes "length b = 65536" "sz \<le> 65536" "logfile s = None \<longrightarrow> \<not> printed p" "counters_ok s" "total s < int_max"
  shows "\<exists>x. process_protocol b sz p (s\<lparr>total := total s + 1\<rparr>) = Ret () ((counted p s)\<lparr>logfile := x\<rparr>)
    \<and> (x = None \<longleftrightarrow> logfile s = None)"
proof -
  let ?s = "s\<lparr>total := total s + 1\<rparr>"
  have le: "icmp ?s < int_max" "igmp ?s < int_max" "tcp ?s < int_max" "udp ?s < int_max" "others ?s < int_max"
    using assms(4,5) by (auto simp: counters_ok_def)
  have log: "\<exists>x. m r = Ret () (r\<lparr>logfile := Some x\<rparr>)"
    if "m \<in> {print_icmp_packet b sz, print_tcp_packet b sz, print_udp_packet b sz}" "logfile r \<noteq> None"
    for m and r :: "'a sniffer"
    using that logs_print_packet[OF assms(1,2)] logs_run by blast
  consider "p = 1" | "p = 2" | "p = 6" | "p = 17" | "p \<notin> {1, 2, 6, 17}"
    by blast
  then show ?thesis
  proof cases
    case 1
    then have "logfile s \<noteq> None"
      using assms(3) by (auto simp: printed_def)
    then show ?thesis
      using 1 log[of "print_icmp_packet b sz" "?s\<lparr>icmp := icmp s + 1\<rparr>"] le
      by (auto simp: process_protocol_def seq_run increment_run plus_one_update counted_def)
  next
    case 3
    then have "logfile s \<noteq> None"
      using assms(3) by (auto simp: printed_def)
    then show ?thesis
      using 3 log[of "print_tcp_packet b sz" "?s\<lparr>tcp := tcp s + 1\<rparr>"] le
      by (auto simp: process_protocol_def seq_run increment_run plus_one_update counted_def)
  next
    case 4
    then have "logfile s \<noteq> None"
      using assms(3) by (auto simp: printed_def)
    then show ?thesis
      using 4 log[of "print_udp_packet b sz" "?s\<lparr>udp := udp s + 1\<rparr>"] le
      by (auto simp: process_protocol_def seq_run increment_run plus_one_update counted_def)
  qed (use le in \<open>auto simp: process_protocol_def increment_run plus_one_update counted_def intro!: exI[of _ "logfile s"]\<close>)
qed

lemma ProcessPacket_run:
  assumes "length b = 65536" "sz \<le> 65536" "logfile s = None \<longrightarrow> \<not> printed (b ! 23)" "counters_ok s" "total s < int_max"
  shows "\<exists>x q. ProcessPacket b sz s = Ret () ((counted (b ! 23) s)\<lparr>logfile := x, sproc := q\<rparr>)
    \<and> (x = None \<longleftrightarrow> logfile s = None) \<and> os q = os (sproc s)"
proof -
  obtain x where x: "process_protocol b sz (b ! 23) (s\<lparr>total := total s + 1\<rparr>) = Ret () ((counted (b ! 23) s)\<lparr>logfile := x\<rparr>)"
    "x = None \<longleftrightarrow> logfile s = None"
    using process_protocol_run[OF assms] by (elim exE conjE)
  obtain q where q: "print_counters ((counted (b ! 23) s)\<lparr>logfile := x\<rparr>)
      = Ret () ((counted (b ! 23) s)\<lparr>logfile := x, sproc := q\<rparr>)" "os q = os (sproc s)"
    using print_counters_run[of "(counted (b ! 23) s)\<lparr>logfile := x\<rparr>"] by (auto simp: counted_def)
  have "ProcessPacket b sz s = print_counters ((counted (b ! 23) s)\<lparr>logfile := x\<rparr>)"
    using x(1) assms(1,5) by (simp add: ProcessPacket_def with_block_def seq_run increment_run plus_one_update)
  then show ?thesis
    using q x(2) by (intro exI[of _ x] exI[of _ q]) simp
qed

lemma process_protocol_no_log:
  assumes "logfile s = None" "printed p" "icmp s < int_max" "tcp s < int_max" "udp s < int_max"
  shows "process_protocol b sz p s = Undef"
  using assms(2) unfolding printed_def
  by (elim disjE)
    (simp_all add: process_protocol_def seq_run increment_run plus_one_update print_packet_no_log assms)

lemma ProcessPacket_no_log:
  assumes "length b = 65536" "logfile s = None" "printed (b ! 23)" "counters_ok s" "total s < int_max"
  shows "ProcessPacket b sz s = Undef"
proof -
  have "process_protocol b sz (b ! 23) (s\<lparr>total := total s + 1\<rparr>) = Undef"
    using assms(2-5) by (intro process_protocol_no_log) (auto simp: counters_ok_def)
  then show ?thesis
    using assms(1,5) by (simp add: ProcessPacket_def with_block_def seq_run increment_run plus_one_update)
qed

text \<open>How many of the packets have the protocol number \<open>p\<close> in their IP header.\<close>

definition proto_count :: "byte \<Rightarrow> bytes list \<Rightarrow> int" where
  "proto_count p ps = int (length (filter (\<lambda>x. x ! 23 = p) ps))"

text \<open>A packet socket as a source of packets.\<close>

locale packet_source =
  fixes K :: "'k posix" and sock :: int and pending :: "'k \<Rightarrow> bytes list"
  assumes recv_packet: "pending k = p # ps \<Longrightarrow> length p \<le> n \<Longrightarrow>
     \<exists>e k'. p_recv K sock n k = ((int (length p), p), e, k') \<and> pending k' = ps"
begin

lemma recv_run:
  assumes "pending (os (sproc s)) = p # ps" "length p \<le> n"
  shows "\<exists>q. on_sproc (call (p_recv K sock n)) s = Ret (int (length p), p) (s\<lparr>sproc := q\<rparr>) \<and> pending (os q) = ps"
  using recv_packet[OF assms] by (fastforce simp: on_sproc_def zoom_def call_def)

text \<open>One turn of the loop, with a packet that can be handled.\<close>

lemma sniffer_turn:
  assumes "pending (os (sproc s)) = p # ps" "24 \<le> length p" "length p \<le> 65536" "length b = 65536" "counters_ok s" "total s < int_max"
  shows "\<exists>q. on_sproc (call (p_recv K sock 65536)) s = Ret (int (length p), p) (s\<lparr>sproc := q\<rparr>)
    \<and> (if logfile s = None \<and> printed (p ! 23) then ProcessPacket (memcpy b 0 p) (int (length p)) (s\<lparr>sproc := q\<rparr>) = Undef
       else \<exists>s'. ProcessPacket (memcpy b 0 p) (int (length p)) (s\<lparr>sproc := q\<rparr>) = Ret () s' \<and> counters_ok s'
         \<and> (logfile s' = None \<longleftrightarrow> logfile s = None) \<and> pending (os (sproc s')) = ps \<and> total s' = total s + 1
         \<and> tcp s' = tcp s + of_bool (p ! 23 = 6) \<and> udp s' = udp s + of_bool (p ! 23 = 17)
         \<and> icmp s' = icmp s + of_bool (p ! 23 = 1) \<and> igmp s' = igmp s + of_bool (p ! 23 = 2))"
proof -
  let ?b = "memcpy b 0 p"
  obtain q where q: "on_sproc (call (p_recv K sock 65536)) s = Ret (int (length p), p) (s\<lparr>sproc := q\<rparr>)" "pending (os q) = ps"
    using recv_run[OF assms(1,3)] by blast
  have b: "length ?b = 65536" "?b ! 23 = p ! 23"
    using assms(2-4) by (auto simp: memcpy_def nth_append)
  have ok: "counters_ok (s\<lparr>sproc := q\<rparr>)" "total (s\<lparr>sproc := q\<rparr>) < int_max" "int (length p) \<le> 65536"
    using assms(3,5,6) by (simp_all add: counters_ok_def)
  show ?thesis
  proof (cases "logfile s = None \<and> printed (p ! 23)")
    case True
    then show ?thesis
      using q(1) ProcessPacket_no_log[OF b(1) _ _ ok(1,2)] b(2) by (intro exI[of _ q]) simp
  next
    case False
    then obtain x q' where x: "ProcessPacket ?b (int (length p)) (s\<lparr>sproc := q\<rparr>)
        = Ret () ((counted (p ! 23) (s\<lparr>sproc := q\<rparr>))\<lparr>logfile := x, sproc := q'\<rparr>)" "x = None \<longleftrightarrow> logfile s = None" "os q' = os q"
      using ProcessPacket_run[OF b(1) ok(3) _ ok(1,2)] b(2) by auto
    then show ?thesis
      using q False counters_ok_counted[OF ok(1), of "p ! 23"]
      by (intro exI[of _ q]) (auto simp: counted_def counters_ok_def)
  qed
qed

lemma sniffer_loop_run:
  assumes "pending (os (sproc s)) = ps @ rest" "\<forall>p\<in>set ps. 24 \<le> length p \<and> length p \<le> 65536"
    and "length b = 65536" "counters_ok s" "total s + int (length ps) \<le> int_max"
  shows "if logfile s = None \<and> (\<exists>p\<in>set ps. printed (p ! 23)) then sniffer_loop K sock (length ps) b s = Undef
    else \<exists>s'. sniffer_loop K sock (length ps) b s = Ret None s' \<and> counters_ok s'
    \<and> pending (os (sproc s')) = rest \<and> total s' = total s + int (length ps)
    \<and> tcp s' = tcp s + proto_count 6 ps \<and> udp s' = udp s + proto_count 17 ps
    \<and> icmp s' = icmp s + proto_count 1 ps \<and> igmp s' = igmp s + proto_count 2 ps"
  using assms
proof (induction ps arbitrary: s b)
  case Nil
  then show ?case
    by (auto simp: proto_count_def)
next
  case (Cons p ps)
  let ?b = "memcpy b 0 p"
  have fits: "length p \<le> length b" "length ?b = 65536"
    using Cons.prems(2,3) by simp_all
  have pre: "pending (os (sproc s)) = p # ps @ rest" "24 \<le> length p" "length p \<le> 65536" "total s < int_max"
    using Cons.prems by simp_all
  obtain q where q: "on_sproc (call (p_recv K sock 65536)) s = Ret (int (length p), p) (s\<lparr>sproc := q\<rparr>)"
    and turn: "if logfile s = None \<and> printed (p ! 23) then ProcessPacket ?b (int (length p)) (s\<lparr>sproc := q\<rparr>) = Undef
       else \<exists>s'. ProcessPacket ?b (int (length p)) (s\<lparr>sproc := q\<rparr>) = Ret () s' \<and> counters_ok s'
         \<and> (logfile s' = None \<longleftrightarrow> logfile s = None) \<and> pending (os (sproc s')) = ps @ rest \<and> total s' = total s + 1
         \<and> tcp s' = tcp s + of_bool (p ! 23 = 6) \<and> udp s' = udp s + of_bool (p ! 23 = 17)
         \<and> icmp s' = icmp s + of_bool (p ! 23 = 1) \<and> igmp s' = igmp s + of_bool (p ! 23 = 2)"
    using sniffer_turn[OF pre(1-3) Cons.prems(3,4) pre(4)] by blast
  show ?case
  proof (cases "logfile s = None \<and> printed (p ! 23)")
    case True
    then show ?thesis
      using q turn fits(1) by (auto simp: bnd_run_if seq_run)
  next
    case False
    then obtain s1 where s1: "ProcessPacket ?b (int (length p)) (s\<lparr>sproc := q\<rparr>) = Ret () s1" "counters_ok s1"
      "logfile s1 = None \<longleftrightarrow> logfile s = None" "pending (os (sproc s1)) = ps @ rest" "total s1 = total s + 1"
      "tcp s1 = tcp s + of_bool (p ! 23 = 6)" "udp s1 = udp s + of_bool (p ! 23 = 17)"
      "icmp s1 = icmp s + of_bool (p ! 23 = 1)" "igmp s1 = igmp s + of_bool (p ! 23 = 2)"
      using turn by auto
    have step: "sniffer_loop K sock (length (p # ps)) b s = sniffer_loop K sock (length ps) ?b s1"
      using q s1(1) fits(1) by (simp add: bnd_run_if seq_run)
    have "(\<exists>x\<in>set (p # ps). printed (x ! 23)) \<longleftrightarrow> (\<exists>x\<in>set ps. printed (x ! 23))" if "logfile s = None"
      using False that by auto
    then show ?thesis
      using Cons.IH[OF s1(4) _ fits(2) s1(2)] s1(3,5-9) Cons.prems(2,5) unfolding step
      by (auto simp: proto_count_def split: if_splits)
  qed
qed

end

section \<open>Properties\<close>

text \<open>C28. With the log open, \<open>PrintData\<close> on the first \<open>n\<close> bytes of a block appends exactly the hex dump
  in lines of sixteen bytes, each with its padding and text column, and changes nothing else.\<close>

theorem PrintData_hexdump:
  assumes "n \<le> length data" "logfile s = Some t"
  shows "PrintData data (int n) s = Ret () (s\<lparr>logfile := Some (t @ dump_lines (take n data))\<rparr>)"
  by (rule appends_run[OF appends_hexdump[OF assms(1)] assms(2)])

definition sniffer_start :: "'k \<Rightarrow> 'k sniffer" where
  "sniffer_start k = \<lparr>sproc = \<lparr>out = [], err = [], perrno = 0, os = k\<rparr>, logfile = Some [],
     tcp = 0, udp = 0, icmp = 0, others = 0, igmp = 0, total = 0\<rparr>"

theorem PrintData_hexdump_witness:
  "PrintData [0x41, 0x00, 0x42] 2 (sniffer_start ())
     = Ret () ((sniffer_start ())\<lparr>logfile := Some (dump_line [0x41, 0x00])\<rparr>)"
  using PrintData_hexdump[of 2 "[0x41, 0x00, 0x42]" "sniffer_start ()" "[]"]
  by (simp add: sniffer_start_def dump_lines.simps numeral_2_eq_2)

text \<open>C22. Processing a packet, whatever the 65536 byte receive buffer holds and whatever size of at most
  65536 is reported, negative ones included, while fewer than \<open>INT_MAX\<close> packets have been counted:
  with the log open, it reads only inside the buffer and returns, the packet is counted once in
  total and once under its protocol, and the counters keep adding up. Without a log the same
  holds for packets that are not printed, and a TCP, UDP or ICMP packet writes to a null stream.\<close>

theorem ProcessPacket_safe:
  assumes "length b = 65536" "sz \<le> 65536" "counters_ok s" "total s < int_max"
  shows "if logfile s = None \<and> b ! 23 \<in> {1, 6, 17} then ProcessPacket b sz s = Undef
    else \<exists>s'. ProcessPacket b sz s = Ret () s' \<and> counters_ok s' \<and> total s' = total s + 1
    \<and> tcp s' = tcp s + of_bool (b ! 23 = 6) \<and> udp s' = udp s + of_bool (b ! 23 = 17)
    \<and> icmp s' = icmp s + of_bool (b ! 23 = 1) \<and> igmp s' = igmp s + of_bool (b ! 23 = 2)"
proof (cases "logfile s = None \<and> printed (b ! 23)")
  case True
  then show ?thesis
    using ProcessPacket_no_log[OF assms(1) _ _ assms(3,4)] by (auto simp: printed_def)
next
  case False
  then obtain x q where "ProcessPacket b sz s = Ret () ((counted (b ! 23) s)\<lparr>logfile := x, sproc := q\<rparr>)"
    using ProcessPacket_run[OF assms(1,2) _ assms(3,4)] by blast
  then show ?thesis
    using False counters_ok_counted[OF assms(3), of "b ! 23"] by (auto simp: printed_def counters_ok_def counted_def)
qed

theorem ProcessPacket_safe_witness:
  "(\<exists>s'. ProcessPacket (replicate 65536 0xFF) (-5) (sniffer_start ()) = Ret () s' \<and> counters_ok s' \<and> total s' = 1)
   \<and> ProcessPacket (replicate 65536 6) 60 ((sniffer_start ())\<lparr>logfile := None\<rparr>) = Undef"
  using ProcessPacket_safe[of "replicate 65536 0xFF" "-5" "sniffer_start ()"]
    ProcessPacket_safe[of "replicate 65536 6" 60 "(sniffer_start ())\<lparr>logfile := None\<rparr>"]
  by (auto simp: sniffer_start_def counters_ok_def int_max_def)

end
