(* ===== verification/SimpleTun.thy ===== *)
theory SimpleTun
  imports Posix
begin

text \<open>
  \<open>reference/simpletun.c\<close>: a tunnel that carries the packets of a tun/tap interface over a TCP
  connection, each behind its length in two bytes. The definitions cover the whole program:
  the checked reads and writes, \<open>read_n\<close>, the option parser, the set-up of the interface and
  the connection, and the turns of the \<open>select\<close> loop. The 2000 byte packet buffer is part of
  the state, and a read that writes past its end is undefined.

  The locale \<open>tunnel_os\<close> is what the loop relies on: the interface hands out whole packets, the
  connection hands out its bytes in pieces of any size. Over it, the packets one end reads
  from its interface are the packets the other end writes to its own. \<open>tunnel_host\<close> extends it by
  the calls that set the tunnel up, so that \<open>main\<close> is known to reach its loop.
\<close>

section \<open>Definitions\<close>

definition BUFSIZE :: nat where
  "BUFSIZE = 2000"

definition IFNAMSIZ :: nat where
  "IFNAMSIZ = 16"

definition IFF_TUN :: int where
  "IFF_TUN = 1"

definition IFF_TAP :: int where
  "IFF_TAP = 2"

definition IFF_NO_PI :: int where
  "IFF_NO_PI = 0x1000"

definition EINTR :: int where
  "EINTR = 4"

definition nl :: string where
  "nl = [CHR 0x0A]"

text \<open>\<open>strcpy(dev, ifr.ifr_name)\<close> writes into the caller's array of \<open>IFNAMSIZ\<close> bytes.\<close>

definition tun_alloc :: "ext \<Rightarrow> 'k posix \<Rightarrow> string \<Rightarrow> int \<Rightarrow> ('k proc, int \<times> string) prog" where
  "tun_alloc E K dev fl =
     bnd (call (p_open K ''/dev/net/tun'')) (\<lambda>(fde, _).
     if fde < 0 then seq (perror E ''Opening /dev/net/tun'') (ret (fde, dev))
     else
       bnd (call (p_tunsetiff K fde (take IFNAMSIZ dev) fl)) (\<lambda>(r, name).
       if r < 0 then
         seq (perror E ''ioctl(TUNSETIFF)'')
         (bnd (call (p_close K fde)) (\<lambda>_. ret (r, dev)))
       else checked (length name < IFNAMSIZ) (ret (fde, name))))"

definition cread :: "ext \<Rightarrow> 'k posix \<Rightarrow> int \<Rightarrow> nat \<Rightarrow> ('k proc, int \<times> bytes) prog" where
  "cread E K fde n =
     bnd (call (p_read K fde n)) (\<lambda>(nread, bs).
     if nread < 0 then seq (perror E ''Reading data'') (exit_with 1)
     else ret (nread, bs))"

definition cwrite :: "ext \<Rightarrow> 'k posix \<Rightarrow> int \<Rightarrow> bytes \<Rightarrow> ('k proc, int) prog" where
  "cwrite E K fde bs =
     bnd (call (p_write K fde bs)) (\<lambda>(nwrite, _).
     if nwrite < 0 then seq (perror E ''Writing data'') (exit_with 1)
     else ret nwrite)"

lemma cread_nonneg: "cread E K fde n s = Ret (nread, bs) t \<Longrightarrow> 0 \<le> nread"
  by (auto simp: cread_def bnd_run_if seq_run perror_def split: if_splits outcome.splits)

text \<open>
  The loop of \<open>read_n\<close>: \<open>left\<close> bytes to go into \<open>buf\<close> from \<open>off\<close> on. What \<open>read\<close> delivers is
  copied into the buffer, past the end of which nothing may be written.
\<close>

function read_n_loop ::
  "ext \<Rightarrow> 'k posix \<Rightarrow> int \<Rightarrow> bytes \<Rightarrow> nat \<Rightarrow> int \<Rightarrow> int \<Rightarrow> ('k proc, int \<times> bytes) prog" where
  "read_n_loop E K fde buf off n left s =
     (if 0 < left then
        case cread E K fde (nat left) s of
          Ret (nread, bs) t \<Rightarrow>
            (case memcpy_to buf off bs t of
               Ret buf' u \<Rightarrow>
                 if nread = 0 then Ret (0, buf') u
                 else read_n_loop E K fde buf' (off + nat nread) n (left - nread) u
             | Throw e u \<Rightarrow> Throw e u
             | Exit c u \<Rightarrow> Exit c u
             | Undef \<Rightarrow> Undef)
        | Throw e t \<Rightarrow> Throw e t
        | Exit c t \<Rightarrow> Exit c t
        | Undef \<Rightarrow> Undef
      else Ret (n, buf) s)"
  by pat_completeness auto
termination
  by (relation "measure (\<lambda>(E, K, fde, buf, off, n, left, s). nat left)")
    (auto dest!: cread_nonneg)

declare read_n_loop.simps [simp del]

definition read_n :: "ext \<Rightarrow> 'k posix \<Rightarrow> int \<Rightarrow> bytes \<Rightarrow> int \<Rightarrow> ('k proc, int \<times> bytes) prog" where
  "read_n E K fde buf n = read_n_loop E K fde buf 0 n n"

definition do_debug :: "bool \<Rightarrow> string \<Rightarrow> fmt_arg list \<Rightarrow> ('k proc, unit) prog" where
  "do_debug dbg msg args = only_if dbg (print_err msg args)"

definition my_err :: "string \<Rightarrow> fmt_arg list \<Rightarrow> ('k proc, unit) prog" where
  "my_err msg args = print_err msg args"

definition usage :: "string \<Rightarrow> ('k proc, 'a) prog" where
  "usage progname =
     seq (print_err (''Usage:'' @ nl) [])
     (seq (print_err (''%s -i <ifacename> [-s|-c <serverIP>] [-p <port>] [-u|-a] [-d]'' @ nl) [FStr progname])
     (seq (print_err (''%s -h'' @ nl) [FStr progname])
     (seq (print_err nl [])
     (seq (print_err (''-i <ifacename>: Name of interface to use (mandatory)'' @ nl) [])
     (seq (print_err (''-s|-c <serverIP>: run in server mode (-s), or specify server address (-c <serverIP>) (mandatory)'' @ nl) [])
     (seq (print_err (''-p <port>: port to listen on (if run in server mode) or to connect to (in client mode), default 55555'' @ nl) [])
     (seq (print_err (''-u|-a: use TUN (-u, default) or TAP (-a)'' @ nl) [])
     (seq (print_err (''-d: outputs debug information while running'' @ nl) [])
     (seq (print_err (''-h: prints this help text'' @ nl) [])
     (exit_with 1))))))))))"

section \<open>Definitions: options\<close>

record options =
  debug :: bool
  tun_flags :: int
  if_name :: string
  header_len :: nat
  remote_ip :: string
  port :: u16
  cliserv :: int

definition initial_options :: options where
  "initial_options = \<lparr>debug = False, tun_flags = IFF_TUN, if_name = [], header_len = 20,
     remote_ip = [], port = 55555, cliserv = -1\<rparr>"

text \<open>The option string \<open>i:sc:p:uahd\<close>.\<close>

definition tun_takes :: "char \<Rightarrow> bool option" where
  "tun_takes c =
     (if c \<in> set ''icp'' then Some True else if c \<in> set ''suahd'' then Some False else None)"

primrec parse_options :: "string \<Rightarrow> (char \<times> string) list \<Rightarrow> options \<Rightarrow> ('k proc, options) prog" where
  "parse_options progname [] op = ret op"
| "parse_options progname (x # xs) op =
     (case x of (c, optarg) \<Rightarrow>
      if c = CHR ''d'' then parse_options progname xs (op\<lparr>debug := True\<rparr>)
      else if c = CHR ''h'' then usage progname
      else if c = CHR ''i'' then parse_options progname xs (op\<lparr>if_name := take (IFNAMSIZ - 1) (c_str optarg)\<rparr>)
      else if c = CHR ''s'' then parse_options progname xs (op\<lparr>cliserv := 1\<rparr>)
      else if c = CHR ''c'' then
        parse_options progname xs (op\<lparr>cliserv := 0, remote_ip := take 15 (c_str optarg)\<rparr>)
      else if c = CHR ''p'' then parse_options progname xs (op\<lparr>port := word_of_int (atoi optarg)\<rparr>)
      else if c = CHR ''u'' then parse_options progname xs (op\<lparr>tun_flags := IFF_TUN\<rparr>)
      else if c = CHR ''a'' then parse_options progname xs (op\<lparr>tun_flags := IFF_TAP, header_len := 14\<rparr>)
      else seq (my_err (''Unknown option %c'' @ nl) [FInt (of_char c)]) (usage progname))"

definition check_options :: "string \<Rightarrow> options \<Rightarrow> string list \<Rightarrow> ('k proc, unit) prog" where
  "check_options progname op rest =
     seq (only_if (rest \<noteq> []) (seq (my_err (''Too many options!'' @ nl) []) (usage progname)))
     (if if_name op = [] then
        seq (my_err (''Must specify interface name!'' @ nl) []) (usage progname)
      else if cliserv op < 0 then
        seq (my_err (''Must specify client or server mode!'' @ nl) []) (usage progname)
      else if cliserv op = 0 \<and> remote_ip op = [] then
        seq (my_err (''Must specify server address!'' @ nl) []) (usage progname)
      else ret ())"

section \<open>Definitions: the connection\<close>

definition die :: "ext \<Rightarrow> string \<Rightarrow> ('k proc, 'a) prog" where
  "die E msg = seq (perror E msg) (exit_with 1)"

definition AF_INET :: int where
  "AF_INET = 2"

definition SOCK_STREAM :: int where
  "SOCK_STREAM = 1"

definition connect_client :: "ext \<Rightarrow> 'k posix \<Rightarrow> options \<Rightarrow> int \<Rightarrow> ('k proc, int) prog" where
  "connect_client E K op sock_fd =
     (let addr = inet_addr (remote_ip op) in
      bnd (call (p_connect K sock_fd addr (htons (port op)))) (\<lambda>(r, _).
      if r < 0 then die E ''connect()''
      else
        seq (do_debug (debug op) (''CLIENT: Connected to server %s'' @ nl) [FStr (inet_ntoa addr)])
        (ret sock_fd)))"

definition accept_server :: "ext \<Rightarrow> 'k posix \<Rightarrow> options \<Rightarrow> int \<Rightarrow> ('k proc, int) prog" where
  "accept_server E K op sock_fd =
     bnd (call (p_reuseaddr K sock_fd)) (\<lambda>(r, _).
     if r < 0 then die E ''setsockopt()''
     else
       bnd (call (p_bind K sock_fd (htonl 0) (htons (port op)))) (\<lambda>(r, _).
       if r < 0 then die E ''bind()''
       else
         bnd (call (p_listen K sock_fd 5)) (\<lambda>(r, _).
         if r < 0 then die E ''listen()''
         else
           bnd (call (p_accept K sock_fd)) (\<lambda>(net_fd, remote).
           if net_fd < 0 then die E ''accept()''
           else
             seq (do_debug (debug op) (''SERVER: Client connected from %s'' @ nl) [FStr (inet_ntoa remote)])
             (ret net_fd)))))"

section \<open>Definitions: the loop\<close>

record tun_vars =
  tap2net :: u64
  net2tap :: u64
  buffer :: bytes
  timeout :: nat

definition from_tap :: "ext \<Rightarrow> 'k posix \<Rightarrow> bool \<Rightarrow> int \<Rightarrow> int \<Rightarrow> tun_vars \<Rightarrow> ('k proc, tun_vars) prog" where
  "from_tap E K dbg tap_fd net_fd v =
     bnd (cread E K tap_fd BUFSIZE) (\<lambda>(r, bs).
     bnd (memcpy_to (buffer v) 0 bs) (\<lambda>buf.
     let nread = (word_of_int r :: u16);
         v = v\<lparr>buffer := buf, tap2net := tap2net v + 1\<rparr> in
     seq (do_debug dbg (''TAP2NET %lu: Read %d bytes from the tap interface'' @ nl)
            [FInt (uint (tap2net v)), FInt (uint nread)])
     (bnd (cwrite E K net_fd (mem16 (htons nread))) (\<lambda>_.
      checked (unat nread \<le> length buf)
       (bnd (cwrite E K net_fd (take (unat nread) buf)) (\<lambda>w.
        seq (do_debug dbg (''TAP2NET %lu: Written %d bytes to the network'' @ nl)
               [FInt (uint (tap2net v)), FInt (uint (word_of_int w :: u16))])
        (ret v)))))))"

text \<open>\<open>None\<close>: the other end is gone and the loop is left.\<close>

definition from_net ::
  "ext \<Rightarrow> 'k posix \<Rightarrow> bool \<Rightarrow> int \<Rightarrow> int \<Rightarrow> tun_vars \<Rightarrow> ('k proc, tun_vars option) prog" where
  "from_net E K dbg tap_fd net_fd v =
     bnd (read_n E K net_fd (replicate 2 0) 2) (\<lambda>(r, lenbuf).
     if (word_of_int r :: u16) = 0 then ret None
     else
       let v = v\<lparr>net2tap := net2tap v + 1\<rparr> in
       bnd (read_n E K net_fd (buffer v) (uint (ntohs (read16 lenbuf)))) (\<lambda>(r, buf).
       let nread = (word_of_int r :: u16);
           v = v\<lparr>buffer := buf\<rparr> in
       seq (do_debug dbg (''NET2TAP %lu: Read %d bytes from the network'' @ nl)
              [FInt (uint (net2tap v)), FInt (uint nread)])
       (checked (unat nread \<le> length buf)
        (bnd (cwrite E K tap_fd (take (unat nread) buf)) (\<lambda>w.
         seq (do_debug dbg (''NET2TAP %lu: Written %d bytes to the tap interface'' @ nl)
                [FInt (uint (net2tap v)), FInt (uint (word_of_int w :: u16))])
         (ret (Some v)))))))"

definition tun_turn ::
  "ext \<Rightarrow> 'k posix \<Rightarrow> bool \<Rightarrow> int \<Rightarrow> int \<Rightarrow> tun_vars \<Rightarrow> ('k proc, tun_vars option) prog" where
  "tun_turn E K dbg tap_fd net_fd v =
     bnd (call (p_select K tap_fd net_fd (timeout v))) (\<lambda>(r, tap_set, net_set, left).
     let v = v\<lparr>timeout := left\<rparr> in
     bnd (gets perrno) (\<lambda>e.
     if r < 0 \<and> e = EINTR then ret (Some v)
     else if r < 0 then die E ''select()''
     else
       bnd (if tap_set then from_tap E K dbg tap_fd net_fd v else ret v) (\<lambda>v.
       if net_set then from_net E K dbg tap_fd net_fd v else ret (Some v))))"

primrec tun_loop ::
  "ext \<Rightarrow> 'k posix \<Rightarrow> bool \<Rightarrow> int \<Rightarrow> int \<Rightarrow> nat \<Rightarrow> tun_vars \<Rightarrow> ('k proc, int option) prog" where
  "tun_loop E K dbg tap_fd net_fd 0 v = ret None"
| "tun_loop E K dbg tap_fd net_fd (Suc turns) v =
     bnd (tun_turn E K dbg tap_fd net_fd v) (\<lambda>r. case r of
       None \<Rightarrow> ret (Some 0)
     | Some v \<Rightarrow> tun_loop E K dbg tap_fd net_fd turns v)"

text \<open>The stack contents of the uninitialised \<open>buffer\<close> are an argument.\<close>

definition tun_main ::
  "ext \<Rightarrow> 'k posix \<Rightarrow> bytes \<Rightarrow> string \<Rightarrow> string list \<Rightarrow> nat \<Rightarrow> ('k proc, int option) prog" where
  "tun_main E K stack progname args turns =
     (let (opts, rest) = getopt_all tun_takes args in
      bnd (parse_options progname opts initial_options) (\<lambda>op.
      seq (check_options progname op rest)
      (bnd (tun_alloc E K (if_name op) (or (tun_flags op) IFF_NO_PI)) (\<lambda>(tap_fd, name).
       if tap_fd < 0 then
         seq (my_err (''Error connecting to tun/tap interface %s!'' @ nl) [FStr name]) (exit_with 1)
       else
         seq (do_debug (debug op) (''Successfully connected to interface %s'' @ nl) [FStr name])
         (bnd (call (p_socket K AF_INET SOCK_STREAM 0)) (\<lambda>(sock_fd, _).
          if sock_fd < 0 then die E ''socket()''
          else
            bnd (if cliserv op = 0 then connect_client E K op sock_fd
                 else accept_server E K op sock_fd) (\<lambda>net_fd.
            tun_loop E K (debug op) tap_fd net_fd turns
              \<lparr>tap2net = 0, net2tap = 0, buffer = stack, timeout = 1000000\<rparr>)))))))"

section \<open>Reading a stream in pieces\<close>

record tun_view =
  tap_in :: "bytes list"
  tap_out :: "bytes list"
  sock_in :: bytes
  sock_out :: bytes

text \<open>
  \<open>tview\<close> shows the packets waiting on the interface and those written to it, the bytes
  waiting on the connection and those written to it; \<open>hung_up\<close> says that the other end has
  closed. \<open>select\<close> reports a descriptor on which \<open>read\<close> would not block.
\<close>

locale tunnel_os =
  fixes K :: "'k posix" and tap_fd net_fd :: int
    and tview :: "'k \<Rightarrow> tun_view" and hung_up :: "'k \<Rightarrow> bool"
  assumes read_tap:
      "tap_in (tview k) = p # ps \<Longrightarrow> length p \<le> n \<Longrightarrow>
       \<exists>e k'. p_read K tap_fd n k = ((int (length p), p), e, k')
         \<and> tview k' = (tview k)\<lparr>tap_in := ps\<rparr> \<and> hung_up k' = hung_up k"
    and read_net:
      "sock_in (tview k) \<noteq> [] \<Longrightarrow> 0 < n \<Longrightarrow>
       \<exists>m e k'. 0 < m \<and> m \<le> n \<and> m \<le> length (sock_in (tview k))
         \<and> p_read K net_fd n k = ((int m, take m (sock_in (tview k))), e, k')
         \<and> tview k' = (tview k)\<lparr>sock_in := drop m (sock_in (tview k))\<rparr> \<and> hung_up k' = hung_up k"
    and read_eof:
      "sock_in (tview k) = [] \<Longrightarrow> hung_up k \<Longrightarrow> 0 < n \<Longrightarrow>
       \<exists>e k'. p_read K net_fd n k = ((0, []), e, k') \<and> tview k' = tview k \<and> hung_up k' = hung_up k"
    and write_tap:
      "\<exists>e k'. p_write K tap_fd p k = ((int (length p), ()), e, k')
         \<and> tview k' = (tview k)\<lparr>tap_out := tap_out (tview k) @ [p]\<rparr> \<and> hung_up k' = hung_up k"
    and write_net:
      "\<not> hung_up k \<Longrightarrow>
       \<exists>e k'. p_write K net_fd p k = ((int (length p), ()), e, k')
         \<and> tview k' = (tview k)\<lparr>sock_out := sock_out (tview k) @ p\<rparr> \<and> hung_up k' = hung_up k"
    and select:
      "\<exists>r left e k'. 0 \<le> r \<and> p_select K tap_fd net_fd tmo k
           = ((r, tap_in (tview k) \<noteq> [], sock_in (tview k) \<noteq> [] \<or> hung_up k, left), e, k')
         \<and> tview k' = tview k \<and> hung_up k' = hung_up k"
begin

lemma cread_net:
  assumes "sock_in (tview (os s)) \<noteq> []" "0 < n"
  shows "\<exists>m t. 0 < m \<and> m \<le> n \<and> m \<le> length (sock_in (tview (os s)))
    \<and> cread E K net_fd n s = Ret (int m, take m (sock_in (tview (os s)))) t
    \<and> tview (os t) = (tview (os s))\<lparr>sock_in := drop m (sock_in (tview (os s)))\<rparr> \<and> hung_up (os t) = hung_up (os s)"
  using read_net[OF assms] by (fastforce simp: cread_def bnd_run_if call_def)

lemma read_n_stream:
  assumes "0 \<le> left" "nat left \<le> length (sock_in (tview (os s)))" "off + nat left \<le> length buf"
  shows "\<exists>t. read_n_loop E K net_fd buf off n left s
      = Ret (n, memcpy buf off (take (nat left) (sock_in (tview (os s))))) t
    \<and> tview (os t) = (tview (os s))\<lparr>sock_in := drop (nat left) (sock_in (tview (os s)))\<rparr>
    \<and> hung_up (os t) = hung_up (os s)"
  using assms
proof (induction "nat left" arbitrary: left off buf s rule: less_induct)
  case less
  show ?case
  proof (cases "left = 0")
    case True
    then show ?thesis
      by (intro exI[of _ s]) (simp add: read_n_loop.simps memcpy_def)
  next
    case False
    let ?x = "sock_in (tview (os s))"
    have pos: "0 < left" "0 < nat left" "?x \<noteq> []"
      using False less.prems by auto
    obtain m t where m: "0 < m" "m \<le> nat left" "cread E K net_fd (nat left) s = Ret (int m, take m ?x) t"
      and t: "tview (os t) = (tview (os s))\<lparr>sock_in := drop m ?x\<rparr>" "hung_up (os t) = hung_up (os s)"
      using cread_net[OF pos(3,2)] by blast
    let ?buf = "memcpy buf off (take m ?x)"
    have len: "length (take m ?x) = m" "length ?buf = length buf"
      using m less.prems by auto
    have ml: "int m \<le> left"
      using m(2) pos(1) by linarith
    have nl: "nat (left - int m) = nat left - m"
      by (simp add: nat_diff_distrib)
    have le: "nat left - m \<le> length (drop m ?x)" "off + m + (nat left - m) \<le> length ?buf"
      using less.prems m(2) len(2) by auto
    obtain u where u: "read_n_loop E K net_fd ?buf (off + m) n (left - int m) t
        = Ret (n, memcpy ?buf (off + m) (take (nat left - m) (drop m ?x))) u"
      "tview (os u) = (tview (os s))\<lparr>sock_in := drop (nat left - m) (drop m ?x)\<rparr>" "hung_up (os u) = hung_up (os t)"
      using less.hyps[of "left - int m" t "off + m" ?buf] pos ml m(1,2) t(1) le unfolding nl by auto
    have "take m ?x @ take (nat left - m) (drop m ?x) = take (nat left) ?x"
      using m(2) take_add[of m "nat left - m" ?x] by simp
    then have "memcpy ?buf (off + m) (take (nat left - m) (drop m ?x)) = memcpy buf off (take (nat left) ?x)"
      using memcpy_memcpy[of off "take m ?x" "take (nat left - m) (drop m ?x)" buf] len(1) m(2) less.prems by simp
    moreover have "drop (nat left - m) (drop m ?x) = drop (nat left) ?x"
      using m(2) by (simp add: drop_drop)
    ultimately show ?thesis
      using pos m u t(2) len less.prems
      by (intro exI[of _ u]) (simp add: read_n_loop.simps[of E K net_fd buf off n left s] memcpy_to_def)
  qed
qed

text \<open>A packet longer than the space behind \<open>off\<close> is written past the end of the buffer.\<close>

lemma read_n_overflow:
  assumes "off \<le> length buf" "length buf < off + nat left" "nat left \<le> length (sock_in (tview (os s)))"
  shows "read_n_loop E K net_fd buf off n left s = Undef"
  using assms
proof (induction "nat left" arbitrary: left off buf s rule: less_induct)
  case less
  let ?x = "sock_in (tview (os s))"
  have pos: "0 < left" "0 < nat left" "?x \<noteq> []"
    using less.prems by auto
  obtain m t where m: "0 < m" "m \<le> nat left" "cread E K net_fd (nat left) s = Ret (int m, take m ?x) t"
    and t: "tview (os t) = (tview (os s))\<lparr>sock_in := drop m ?x\<rparr>"
    using cread_net[OF pos(3,2)] by blast
  let ?buf = "memcpy buf off (take m ?x)"
  have len: "length (take m ?x) = m"
    using m less.prems by auto
  show ?case
  proof (cases "off + m \<le> length buf")
    case True
    then have "read_n_loop E K net_fd ?buf (off + m) n (left - int m) t = Undef"
      using less.hyps[of "left - int m" "off + m" ?buf t] pos m(1,2) t less.prems len
      by (auto simp: nat_diff_distrib)
    then show ?thesis
      using pos m True len by (simp add: read_n_loop.simps[of E K net_fd buf off n left s] memcpy_to_def)
  next
    case False
    then show ?thesis
      using pos m len by (simp add: read_n_loop.simps[of E K net_fd buf off n left s] memcpy_to_def checked_def)
  qed
qed

text \<open>A packet on the connection: its length in network byte order, then its bytes.\<close>

end

definition tun_encode :: "bytes \<Rightarrow> bytes" where
  "tun_encode p = mem16 (htons (word_of_nat (length p))) @ p"

lemma tun_encode_nonempty [simp]: "tun_encode p \<noteq> []"
  by (simp add: tun_encode_def flip: length_greater_0_conv)

lemma concat_tun_encode_empty [simp]: "concat (map tun_encode ps) = [] \<longleftrightarrow> ps = []"
  by (cases ps) simp_all

lemma do_debug_run: "\<exists>t. do_debug dbg msg args s = Ret () t \<and> os t = os s"
  by (cases dbg) (simp_all add: do_debug_def)

context tunnel_os
begin

lemma cwrite_net: "\<not> hung_up (os s) \<Longrightarrow> \<exists>t. cwrite E K net_fd p s = Ret (int (length p)) t
    \<and> tview (os t) = (tview (os s))\<lparr>sock_out := sock_out (tview (os s)) @ p\<rparr> \<and> hung_up (os t) = hung_up (os s)"
  using write_net[of "os s" p] by (fastforce simp: cwrite_def bnd_run_if call_def)

lemma cwrite_tap: "\<exists>t. cwrite E K tap_fd p s = Ret (int (length p)) t
    \<and> tview (os t) = (tview (os s))\<lparr>tap_out := tap_out (tview (os s)) @ [p]\<rparr> \<and> hung_up (os t) = hung_up (os s)"
  using write_tap[of p "os s"] by (fastforce simp: cwrite_def bnd_run_if call_def)

lemma from_tap_run:
  assumes "tap_in (tview (os s)) = p # ps" "length p \<le> BUFSIZE" "length (buffer v) = BUFSIZE" "\<not> hung_up (os s)"
  shows "\<exists>v' t. from_tap E K dbg tap_fd net_fd v s = Ret v' t \<and> length (buffer v') = BUFSIZE
    \<and> tview (os t) = (tview (os s))\<lparr>tap_in := ps, sock_out := sock_out (tview (os s)) @ tun_encode p\<rparr>
    \<and> hung_up (os t) = hung_up (os s)"
proof -
  let ?n = "word_of_nat (length p) :: u16"
  let ?v = "v\<lparr>buffer := memcpy (buffer v) 0 p, tap2net := tap2net v + 1\<rparr>"
  have n: "unat ?n = length p"
    using assms(2) by (simp add: unat_of_nat BUFSIZE_def)
  obtain t1 where t1: "cread E K tap_fd BUFSIZE s = Ret (int (length p), p) t1"
    "tview (os t1) = (tview (os s))\<lparr>tap_in := ps\<rparr>" "hung_up (os t1) = hung_up (os s)"
    using read_tap[OF assms(1,2)] by (fastforce simp: cread_def bnd_run_if call_def)
  obtain t2 where t2: "do_debug dbg (''TAP2NET %lu: Read %d bytes from the tap interface'' @ nl)
      [FInt (uint (tap2net v + 1)), FInt (uint ?n)] t1 = Ret () t2" "os t2 = os t1"
    using do_debug_run by blast
  obtain t3 where t3: "cwrite E K net_fd (mem16 (htons ?n)) t2 = Ret (int (length (mem16 (htons ?n)))) t3"
    "tview (os t3) = (tview (os t2))\<lparr>sock_out := sock_out (tview (os t2)) @ mem16 (htons ?n)\<rparr>"
    "hung_up (os t3) = hung_up (os t2)"
    using cwrite_net[of t2 E "mem16 (htons ?n)"] t1(3) t2(2) assms(4) by auto
  obtain t4 where t4: "cwrite E K net_fd p t3 = Ret (int (length p)) t4"
    "tview (os t4) = (tview (os t3))\<lparr>sock_out := sock_out (tview (os t3)) @ p\<rparr>"
    "hung_up (os t4) = hung_up (os t3)"
    using cwrite_net[of t3 E p] t1(3) t2(2) t3(3) assms(4) by auto
  obtain t5 where t5: "do_debug dbg (''TAP2NET %lu: Written %d bytes to the network'' @ nl)
      [FInt (uint (tap2net v + 1)), FInt (uint ?n)] t4 = Ret () t5" "os t5 = os t4"
    using do_debug_run by blast
  have buf: "take (length p) (memcpy (buffer v) 0 p) = p" "length (memcpy (buffer v) 0 p) = BUFSIZE"
    using assms(2,3) by (simp_all add: memcpy_def)
  have "from_tap E K dbg tap_fd net_fd v s = Ret ?v t5"
    using t1(1) t2(1) t3(1) t4(1) t5(1) assms(2,3) n buf
    by (simp add: from_tap_def bnd_run_if seq_run Let_def)
  then show ?thesis
    using t1 t2 t3 t4 t5 buf by (intro exI[of _ ?v] exI[of _ t5]) (simp add: tun_encode_def)
qed

lemma from_net_run:
  assumes "sock_in (tview (os s)) = tun_encode p @ rest" "length p \<le> BUFSIZE" "length (buffer v) = BUFSIZE"
  shows "\<exists>v' t. from_net E K dbg tap_fd net_fd v s = Ret (Some v') t \<and> length (buffer v') = BUFSIZE
    \<and> tview (os t) = (tview (os s))\<lparr>sock_in := rest, tap_out := tap_out (tview (os s)) @ [p]\<rparr>
    \<and> hung_up (os t) = hung_up (os s)"
proof -
  let ?n = "word_of_nat (length p) :: u16"
  let ?h = "mem16 (htons ?n)"
  let ?buf = "memcpy (buffer v) 0 p"
  let ?v = "v\<lparr>net2tap := net2tap v + 1, buffer := ?buf\<rparr>"
  have n: "unat ?n = length p" "uint ?n = int (length p)"
    using assms(2) by (simp_all add: unat_of_nat uint_nat BUFSIZE_def)
  have x: "sock_in (tview (os s)) = ?h @ p @ rest"
    using assms(1) by (simp add: tun_encode_def)
  have h: "memcpy (replicate 2 0) 0 ?h = ?h" "read16 ?h = htons ?n"
    using read16_mem16[of "htons ?n" "[]"] by (simp_all add: memcpy_def)
  obtain t1 where t1: "read_n E K net_fd (replicate 2 0) 2 s = Ret (2, ?h) t1"
    "tview (os t1) = (tview (os s))\<lparr>sock_in := p @ rest\<rparr>" "hung_up (os t1) = hung_up (os s)"
    using read_n_stream[of 2 s 0 "replicate 2 0" E 2] x h(1) by (auto simp: read_n_def)
  obtain t2 where t2: "read_n E K net_fd (buffer v) (int (length p)) t1 = Ret (int (length p), ?buf) t2"
    "tview (os t2) = (tview (os s))\<lparr>sock_in := rest\<rparr>" "hung_up (os t2) = hung_up (os t1)"
    using read_n_stream[of "int (length p)" t1 0 "buffer v" E "int (length p)"] t1(2) assms(2,3)
    by (auto simp: read_n_def)
  obtain t3 where t3: "do_debug dbg (''NET2TAP %lu: Read %d bytes from the network'' @ nl)
      [FInt (uint (net2tap v + 1)), FInt (uint ?n)] t2 = Ret () t3" "os t3 = os t2"
    using do_debug_run by blast
  obtain t4 where t4: "cwrite E K tap_fd p t3 = Ret (int (length p)) t4"
    "tview (os t4) = (tview (os t3))\<lparr>tap_out := tap_out (tview (os t3)) @ [p]\<rparr>" "hung_up (os t4) = hung_up (os t3)"
    using cwrite_tap by blast
  obtain t5 where t5: "do_debug dbg (''NET2TAP %lu: Written %d bytes to the tap interface'' @ nl)
      [FInt (uint (net2tap v + 1)), FInt (uint ?n)] t4 = Ret () t5" "os t5 = os t4"
    using do_debug_run by blast
  have buf: "take (length p) ?buf = p" "length ?buf = BUFSIZE"
    using assms(2,3) by (simp_all add: memcpy_def)
  have "from_net E K dbg tap_fd net_fd v s = Ret (Some ?v) t5"
    using t1(1) t2(1) t3(1) t4(1) t5(1) assms(2) n h(2) buf
    by (simp add: from_net_def bnd_run_if seq_run Let_def)
  then show ?thesis
    using t1 t2 t3 t4 t5 buf by (intro exI[of _ ?v] exI[of _ t5]) simp
qed

lemma from_net_hangup:
  assumes "sock_in (tview (os s)) = []" "hung_up (os s)"
  shows "\<exists>t. from_net E K dbg tap_fd net_fd v s = Ret None t \<and> tview (os t) = tview (os s)"
proof -
  obtain t where t: "cread E K net_fd 2 s = Ret (0, []) t" "tview (os t) = tview (os s)"
    using read_eof[OF assms, of 2] by (fastforce simp: cread_def bnd_run_if call_def)
  then have "read_n E K net_fd (replicate 2 0) 2 s = Ret (0, replicate 2 0) t"
    by (simp add: read_n_def read_n_loop.simps memcpy_def)
  then show ?thesis
    using t(2) by (simp add: from_net_def bnd_run_if)
qed

lemma from_net_overflow:
  assumes "sock_in (tview (os s)) = mem16 (htons n) @ x" "BUFSIZE < unat n" "unat n \<le> length x"
    and "length (buffer v) = BUFSIZE"
  shows "from_net E K dbg tap_fd net_fd v s = Undef"
proof -
  let ?h = "mem16 (htons n)"
  have h: "memcpy (replicate 2 0) 0 ?h = ?h" "read16 ?h = htons n"
    using read16_mem16[of "htons n" "[]"] by (simp_all add: memcpy_def)
  obtain t where t: "read_n E K net_fd (replicate 2 0) 2 s = Ret (2, ?h) t"
    "tview (os t) = (tview (os s))\<lparr>sock_in := x\<rparr>"
    using read_n_stream[of 2 s 0 "replicate 2 0" E 2] assms(1) h(1) by (auto simp: read_n_def)
  have "read_n E K net_fd (buffer v) (uint n) t = Undef"
    using read_n_overflow[of 0 "buffer v" "uint n" t E "uint n"] assms(2-4) t(2)
    by (simp add: read_n_def)
  then show ?thesis
    using t(1) h(2) by (simp add: from_net_def bnd_run_if Let_def)
qed

lemma maybe_from_tap:
  assumes "tap_in (tview (os s)) = ps" "\<forall>p\<in>set ps. length p \<le> BUFSIZE" "length (buffer v) = BUFSIZE"
    and "ps \<noteq> [] \<Longrightarrow> \<not> hung_up (os s)"
  shows "\<exists>v' t. (if ps \<noteq> [] then from_tap E K dbg tap_fd net_fd v else ret v) s = Ret v' t
    \<and> length (buffer v') = BUFSIZE \<and> hung_up (os t) = hung_up (os s)
    \<and> tview (os t) = (tview (os s))\<lparr>tap_in := drop 1 ps,
        sock_out := sock_out (tview (os s)) @ concat (map tun_encode (take 1 ps))\<rparr>"
proof (cases ps)
  case Nil
  then show ?thesis
    using assms by (intro exI[of _ v] exI[of _ s]) (cases "tview (os s)"; simp)
next
  case (Cons p ps')
  then show ?thesis
    using from_tap_run[of s p ps' v E dbg] assms by auto
qed

lemma maybe_from_net:
  assumes "sock_in (tview (os s)) = concat (map tun_encode qs)" "\<forall>q\<in>set qs. length q \<le> BUFSIZE"
    and "length (buffer v) = BUFSIZE"
  shows "\<exists>v' t. (if qs \<noteq> [] then from_net E K dbg tap_fd net_fd v else ret (Some v)) s = Ret (Some v') t
    \<and> length (buffer v') = BUFSIZE \<and> hung_up (os t) = hung_up (os s)
    \<and> tview (os t) = (tview (os s))\<lparr>sock_in := concat (map tun_encode (drop 1 qs)),
        tap_out := tap_out (tview (os s)) @ take 1 qs\<rparr>"
proof (cases qs)
  case Nil
  then show ?thesis
    using assms by (intro exI[of _ v] exI[of _ s]) (cases "tview (os s)"; simp)
next
  case (Cons q qs')
  then show ?thesis
    using from_net_run[of s q "concat (map tun_encode qs')" v E dbg] assms by auto
qed

text \<open>One turn moves one packet each way, where there is one.\<close>

lemma tun_turn_run:
  assumes "tap_in (tview (os s)) = ps" "sock_in (tview (os s)) = concat (map tun_encode qs)"
    and "\<forall>p\<in>set ps \<union> set qs. length p \<le> BUFSIZE" "length (buffer v) = BUFSIZE" "qs = [] \<or> ps \<noteq> [] \<Longrightarrow> \<not> hung_up (os s)"
  shows "\<exists>v' t. tun_turn E K dbg tap_fd net_fd v s = Ret (Some v') t \<and> length (buffer v') = BUFSIZE
    \<and> tview (os t) = \<lparr>tap_in = drop 1 ps, tap_out = tap_out (tview (os s)) @ take 1 qs,
        sock_in = concat (map tun_encode (drop 1 qs)),
        sock_out = sock_out (tview (os s)) @ concat (map tun_encode (take 1 ps))\<rparr>
    \<and> hung_up (os t) = hung_up (os s)"
proof -
  obtain r left t1 where t1: "0 \<le> r" "call (p_select K tap_fd net_fd (timeout v)) s = Ret (r, ps \<noteq> [], qs \<noteq> [], left) t1"
    "tview (os t1) = tview (os s)" "hung_up (os t1) = hung_up (os s)"
    using select[of "timeout v" "os s"] assms(1,2,5) by (fastforce simp: call_def)
  let ?v = "v\<lparr>timeout := left\<rparr>"
  obtain v2 t2 where t2: "(if ps \<noteq> [] then from_tap E K dbg tap_fd net_fd ?v else ret ?v) t1 = Ret v2 t2"
    "length (buffer v2) = BUFSIZE" "hung_up (os t2) = hung_up (os s)"
    "tview (os t2) = (tview (os s))\<lparr>tap_in := drop 1 ps,
        sock_out := sock_out (tview (os s)) @ concat (map tun_encode (take 1 ps))\<rparr>"
    using maybe_from_tap[of t1 ps ?v E dbg] assms(1,3,4,5) t1(3,4) by auto
  obtain v3 t3 where t3: "(if qs \<noteq> [] then from_net E K dbg tap_fd net_fd v2 else ret (Some v2)) t2 = Ret (Some v3) t3"
    "length (buffer v3) = BUFSIZE" "hung_up (os t3) = hung_up (os s)"
    "tview (os t3) = (tview (os t2))\<lparr>sock_in := concat (map tun_encode (drop 1 qs)),
        tap_out := tap_out (tview (os s)) @ take 1 qs\<rparr>"
    using maybe_from_net[of t2 qs v2 E dbg] assms(2,3) t2(2-4) by auto
  have "tun_turn E K dbg tap_fd net_fd v s = Ret (Some v3) t3"
    using t1(1,2) t2(1) t3(1) by (simp add: tun_turn_def bnd_run_if Let_def)
  then show ?thesis
    using t2(4) t3 by (intro exI[of _ v3] exI[of _ t3]) (cases "tview (os s)"; simp)
qed

lemma tun_loop_run:
  assumes "tap_in (tview (os s)) = ps" "sock_in (tview (os s)) = concat (map tun_encode qs)"
    and "\<forall>p\<in>set ps \<union> set qs. length p \<le> BUFSIZE" "length (buffer v) = BUFSIZE" "\<not> hung_up (os s)"
  shows "\<exists>t. tun_loop E K dbg tap_fd net_fd n v s = Ret None t
    \<and> tview (os t) = \<lparr>tap_in = drop n ps, tap_out = tap_out (tview (os s)) @ take n qs,
        sock_in = concat (map tun_encode (drop n qs)),
        sock_out = sock_out (tview (os s)) @ concat (map tun_encode (take n ps))\<rparr>"
  using assms
proof (induction n arbitrary: v s ps qs)
  case 0
  then show ?case
    by (intro exI[of _ s]) simp
next
  case (Suc n)
  obtain v' t where t: "tun_turn E K dbg tap_fd net_fd v s = Ret (Some v') t" "length (buffer v') = BUFSIZE"
    "tview (os t) = \<lparr>tap_in = drop 1 ps, tap_out = tap_out (tview (os s)) @ take 1 qs,
        sock_in = concat (map tun_encode (drop 1 qs)),
        sock_out = sock_out (tview (os s)) @ concat (map tun_encode (take 1 ps))\<rparr>"
    "hung_up (os t) = hung_up (os s)"
    using tun_turn_run[OF Suc.prems(1-4)] Suc.prems(5) by blast
  have small: "\<forall>p\<in>set (drop 1 ps) \<union> set (drop 1 qs). length p \<le> BUFSIZE"
    using Suc.prems(3) by (meson UnE UnI1 UnI2 in_set_dropD)
  obtain u where u: "tun_loop E K dbg tap_fd net_fd n v' t = Ret None u"
    "tview (os u) = \<lparr>tap_in = drop n (drop 1 ps), tap_out = tap_out (tview (os t)) @ take n (drop 1 qs),
        sock_in = concat (map tun_encode (drop n (drop 1 qs))),
        sock_out = sock_out (tview (os t)) @ concat (map tun_encode (take n (drop 1 ps)))\<rparr>"
    using Suc.IH[of t "drop 1 ps" "drop 1 qs" v'] small t(2-4) Suc.prems(5) by auto
  have split: "take (Suc n) xs = take 1 xs @ take n (drop 1 xs)" for xs :: "bytes list"
    using take_add[of 1 n xs] by simp
  show ?case
    using t u unfolding split by (intro exI[of _ u]) (simp add: bnd_run_if)
qed

text \<open>When the other end hangs up, the loop ends after the last packet.\<close>

lemma tun_loop_hangup:
  assumes "tap_in (tview (os s)) = []" "sock_in (tview (os s)) = concat (map tun_encode qs)"
    and "\<forall>q\<in>set qs. length q \<le> BUFSIZE" "length (buffer v) = BUFSIZE" "hung_up (os s)"
    and "length qs < n"
  shows "\<exists>t. tun_loop E K dbg tap_fd net_fd n v s = Ret (Some 0) t
    \<and> tap_out (tview (os t)) = tap_out (tview (os s)) @ qs"
  using assms
proof (induction qs arbitrary: n v s)
  case Nil
  obtain r left t1 where t1: "0 \<le> r" "call (p_select K tap_fd net_fd (timeout v)) s = Ret (r, False, True, left) t1"
    "tview (os t1) = tview (os s)" "hung_up (os t1) = hung_up (os s)"
    using select[of "timeout v" "os s"] Nil.prems by (fastforce simp: call_def)
  have "sock_in (tview (os t1)) = []" "hung_up (os t1)"
    using Nil.prems t1(3,4) by simp_all
  then obtain t2 where "from_net E K dbg tap_fd net_fd (v\<lparr>timeout := left\<rparr>) t1 = Ret None t2" "tview (os t2) = tview (os t1)"
    using from_net_hangup by blast
  then have "tun_turn E K dbg tap_fd net_fd v s = Ret None t2" "tap_out (tview (os t2)) = tap_out (tview (os s))"
    using t1 by (simp_all add: tun_turn_def bnd_run_if Let_def)
  then show ?case
    using Nil.prems(6) by (cases n) (auto simp: bnd_run_if)
next
  case (Cons q qs)
  obtain m where n: "n = Suc m" "length qs < m"
    using Cons.prems(6) by (cases n) auto
  obtain v' t where t: "tun_turn E K dbg tap_fd net_fd v s = Ret (Some v') t" "length (buffer v') = BUFSIZE"
    "tap_in (tview (os t)) = []" "tap_out (tview (os t)) = tap_out (tview (os s)) @ [q]"
    "sock_in (tview (os t)) = concat (map tun_encode qs)" "hung_up (os t)"
    using tun_turn_run[of s "[]" "q # qs" v E dbg] Cons.prems by auto
  have "\<forall>q\<in>set qs. length q \<le> BUFSIZE"
    using Cons.prems(3) by simp
  then show ?case
    using Cons.IH[OF t(3,5) _ t(2,6) n(2)] t(1,4) n(1) by (auto simp: bnd_run_if)
qed

end

section \<open>A tunnel device\<close>

text \<open>
  A system with the interface on descriptor 3 and the connection on descriptor 4. The
  connection delivers at most \<open>c + 1\<close> bytes per \<open>read\<close>.
\<close>

record tun_dev =
  dev_view :: tun_view
  dev_closed :: bool

definition ok_call :: "'k \<Rightarrow> (int \<times> unit) \<times> int \<times> 'k" where
  "ok_call k = ((0, ()), 0, k)"

definition dev_read :: "nat \<Rightarrow> int \<Rightarrow> nat \<Rightarrow> tun_dev \<Rightarrow> (int \<times> bytes) \<times> int \<times> tun_dev" where
  "dev_read c f n d =
     (let v = dev_view d in
      if f = 3 then
        (case tap_in v of
           [] \<Rightarrow> ((-1, []), 11, d)
         | p # ps \<Rightarrow> ((int (length (take n p)), take n p), 0, d\<lparr>dev_view := v\<lparr>tap_in := ps\<rparr>\<rparr>))
      else if f = 4 then
        (let x = take (min n (Suc c)) (sock_in v) in
         if x = [] \<and> \<not> dev_closed d then ((-1, []), 11, d)
         else ((int (length x), x), 0, d\<lparr>dev_view := v\<lparr>sock_in := drop (length x) (sock_in v)\<rparr>\<rparr>))
      else ((-1, []), 9, d))"

definition dev_write :: "int \<Rightarrow> bytes \<Rightarrow> tun_dev \<Rightarrow> (int \<times> unit) \<times> int \<times> tun_dev" where
  "dev_write f p d =
     (let v = dev_view d in
      if f = 3 then ((int (length p), ()), 0, d\<lparr>dev_view := v\<lparr>tap_out := tap_out v @ [p]\<rparr>\<rparr>)
      else if f = 4 then ((int (length p), ()), 0, d\<lparr>dev_view := v\<lparr>sock_out := sock_out v @ p\<rparr>\<rparr>)
      else ((-1, ()), 9, d))"

definition tun_system :: "nat \<Rightarrow> tun_dev posix" where
  "tun_system c = \<lparr>
     p_open = (\<lambda>path k. ((3, ()), 0, k)),
     p_close = (\<lambda>f. ok_call),
     p_tunsetiff = (\<lambda>f name fl k. ((0, name), 0, k)),
     p_socket = (\<lambda>domain type protocol k. ((4, ()), 0, k)),
     p_connect = (\<lambda>f a p. ok_call),
     p_reuseaddr = (\<lambda>f. ok_call),
     p_bind = (\<lambda>f a p. ok_call),
     p_listen = (\<lambda>f n. ok_call),
     p_accept = (\<lambda>f k. ((4, 0), 0, k)),
     p_select = (\<lambda>f g tmo k.
       (let v = dev_view k; a = tap_in v \<noteq> []; b = sock_in v \<noteq> [] \<or> dev_closed k
        in ((of_bool a + of_bool b, a, b, tmo), 0, k))),
     p_read = dev_read c,
     p_write = dev_write,
     p_recv = dev_read c,
     p_attach_filter = (\<lambda>f prog. ok_call),
     p_ifindex = (\<lambda>f name k. ((-1, 0), 19, k)),
     p_hwaddr = (\<lambda>f name k. ((-1, []), 19, k)),
     p_sendto = (\<lambda>f x ll k. ((-1, ()), 6, k))\<rparr>"

interpretation dev: tunnel_os "tun_system c" 3 4 dev_view dev_closed for c
proof unfold_locales
  fix k :: tun_dev and n :: nat
  assume x: "sock_in (dev_view k) \<noteq> []" and n: "0 < n"
  let ?m = "min (min n (Suc c)) (length (sock_in (dev_view k)))"
  have "take ?m (sock_in (dev_view k)) = take (min n (Suc c)) (sock_in (dev_view k))"
    by (simp add: min_def)
  then show "\<exists>m e k'. 0 < m \<and> m \<le> n \<and> m \<le> length (sock_in (dev_view k))
      \<and> p_read (tun_system c) 4 n k = ((int m, take m (sock_in (dev_view k))), e, k')
      \<and> dev_view k' = (dev_view k)\<lparr>sock_in := drop m (sock_in (dev_view k))\<rparr> \<and> dev_closed k' = dev_closed k"
    using x n by (intro exI[of _ ?m]) (auto simp: tun_system_def dev_read_def Let_def min.commute)
qed (auto simp: tun_system_def dev_read_def dev_write_def ok_call_def Let_def)

section \<open>The command line\<close>

definition options_inv :: "options \<Rightarrow> bool" where
  "options_inv op \<longleftrightarrow> length (if_name op) < IFNAMSIZ \<and> length (remote_ip op) \<le> 15 \<and> cliserv op \<in> {-1, 0, 1}"

lemma usage_exits: "\<exists>t. usage progname s = Exit 1 t"
  by (simp add: usage_def seq_run)

lemma usage_outcomes [simp]:
  "usage progname s \<noteq> Ret a t" "usage progname s \<noteq> Throw e t" "usage progname s \<noteq> Undef"
  "usage progname s = Exit c t \<Longrightarrow> c = 1"
  by (simp_all add: usage_def seq_run)

lemma parse_options_cases:
  "options_inv op \<Longrightarrow> (\<exists>op'. parse_options progname opts op s = Ret op' s \<and> options_inv op')
     \<or> (\<exists>t. parse_options progname opts op s = Exit 1 t)"
proof (induction opts arbitrary: op)
  case (Cons x xs)
  obtain c a where x: "x = (c, a)"
    by (cases x)
  note IH = Cons.IH
  have upd: "options_inv (op\<lparr>debug := True\<rparr>)" "options_inv (op\<lparr>if_name := take (IFNAMSIZ - 1) (c_str a)\<rparr>)"
    "options_inv (op\<lparr>cliserv := 1\<rparr>)" "options_inv (op\<lparr>cliserv := 0, remote_ip := take 15 (c_str a)\<rparr>)"
    "options_inv (op\<lparr>port := word_of_int (atoi a)\<rparr>)" "options_inv (op\<lparr>tun_flags := IFF_TUN\<rparr>)"
    "options_inv (op\<lparr>tun_flags := IFF_TAP, header_len := 14\<rparr>)"
    using Cons.prems by (simp_all add: options_inv_def IFNAMSIZ_def)
  show ?case
    using IH[OF upd(1)] IH[OF upd(2)] IH[OF upd(3)] IH[OF upd(4)] IH[OF upd(5)] IH[OF upd(6)] IH[OF upd(7)]
    by (simp add: x seq_run my_err_def usage_exits)
qed auto

lemma check_options_cases:
  "(check_options progname op rest s = Ret () s \<and> rest = [] \<and> if_name op \<noteq> [] \<and> 0 \<le> cliserv op
      \<and> (cliserv op = 0 \<longrightarrow> remote_ip op \<noteq> []))
   \<or> (\<exists>t. check_options progname op rest s = Exit 1 t)"
  by (cases "rest = []")
    (auto simp: check_options_def seq_run my_err_def usage_exits dest: usage_outcomes(4) split: outcome.splits)

section \<open>From main on\<close>

text \<open>The command line is accepted: the option parser and the checks after it return \<open>op\<close>.\<close>

definition accepts :: "string \<Rightarrow> string list \<Rightarrow> 'k proc \<Rightarrow> options \<Rightarrow> bool" where
  "accepts progname args s op \<longleftrightarrow>
     (let (opts, rest) = getopt_all tun_takes args in
      bnd (parse_options progname opts initial_options) (\<lambda>op. seq (check_options progname op rest) (ret op)) s = Ret op s)"

text \<open>
  A system that lets the program set up its tunnel: the interface can be attached, the
  socket \<open>sock_fd\<close> opened, connected and listened on, and a client accepted on \<open>net_fd\<close>; none of
  this touches the packets and bytes that are waiting.
\<close>

locale tunnel_host = tunnel_os K tap_fd net_fd tview hung_up
  for K :: "'k posix" and tap_fd net_fd :: int and tview :: "'k \<Rightarrow> tun_view" and hung_up :: "'k \<Rightarrow> bool" +
  fixes sock_fd :: int
  assumes fds: "0 \<le> tap_fd" "0 \<le> net_fd" "0 \<le> sock_fd"
    and open_tun: "\<exists>e k'. p_open K ''/dev/net/tun'' k = ((tap_fd, ()), e, k') \<and> tview k' = tview k \<and> hung_up k' = hung_up k"
    and tunsetiff: "length dev < IFNAMSIZ \<Longrightarrow> \<exists>name e k'. p_tunsetiff K tap_fd dev fl k = ((0, name), e, k')
       \<and> length name < IFNAMSIZ \<and> tview k' = tview k \<and> hung_up k' = hung_up k"
    and stream_socket: "\<exists>e k'. p_socket K AF_INET SOCK_STREAM 0 k = ((sock_fd, ()), e, k') \<and> tview k' = tview k \<and> hung_up k' = hung_up k"
    and connects: "\<exists>e k'. p_connect K sock_fd a pt k = ((0, ()), e, k') \<and> tview k' = tview k \<and> hung_up k' = hung_up k"
    and reuseaddr: "\<exists>e k'. p_reuseaddr K sock_fd k = ((0, ()), e, k') \<and> tview k' = tview k \<and> hung_up k' = hung_up k"
    and binds: "\<exists>e k'. p_bind K sock_fd a pt k = ((0, ()), e, k') \<and> tview k' = tview k \<and> hung_up k' = hung_up k"
    and listens: "\<exists>e k'. p_listen K sock_fd n k = ((0, ()), e, k') \<and> tview k' = tview k \<and> hung_up k' = hung_up k"
    and accepts_client: "\<exists>a e k'. p_accept K sock_fd k = ((net_fd, a), e, k') \<and> tview k' = tview k \<and> hung_up k' = hung_up k"
begin

abbreviation same_traffic :: "'k proc \<Rightarrow> 'k proc \<Rightarrow> bool" where
  "same_traffic s t \<equiv> tview (os t) = tview (os s) \<and> hung_up (os t) = hung_up (os s)"

lemma quiet_call:
  assumes "\<And>k. \<exists>e k'. f k = ((r, a), e, k') \<and> tview k' = tview k \<and> hung_up k' = hung_up k"
  shows "\<exists>t. call f s = Ret (r, a) t \<and> same_traffic s t"
  using assms[of "os s"] by (auto simp: call_def)

lemma tun_alloc_quiet:
  assumes "length dev < IFNAMSIZ"
  shows "\<exists>name t. tun_alloc E K dev fl s = Ret (tap_fd, name) t \<and> same_traffic s t"
proof -
  obtain t1 where t1: "call (p_open K ''/dev/net/tun'') s = Ret (tap_fd, ()) t1" "same_traffic s t1"
    using quiet_call[OF open_tun] by blast
  obtain name t2 where t2: "call (p_tunsetiff K tap_fd (take IFNAMSIZ dev) fl) t1 = Ret (0, name) t2"
    "length name < IFNAMSIZ" "same_traffic t1 t2"
    using tunsetiff[of dev fl "os t1"] assms by (fastforce simp: call_def)
  show ?thesis
    using t1 t2 fds(1) by (intro exI[of _ name] exI[of _ t2]) (simp add: tun_alloc_def bnd_run_if)
qed

lemma connect_client_quiet: "\<exists>t. connect_client E K op sock_fd s = Ret sock_fd t \<and> same_traffic s t"
proof -
  obtain t1 where t1: "call (p_connect K sock_fd (inet_addr (remote_ip op)) (htons (port op))) s = Ret (0, ()) t1" "same_traffic s t1"
    using quiet_call[OF connects[of "inet_addr (remote_ip op)" "htons (port op)"]] by blast
  obtain t2 where "do_debug (debug op) (''CLIENT: Connected to server %s'' @ nl) [FStr (inet_ntoa (inet_addr (remote_ip op)))] t1 = Ret () t2"
    "os t2 = os t1"
    using do_debug_run by blast
  with t1 show ?thesis
    by (intro exI[of _ t2]) (simp add: connect_client_def Let_def bnd_run_if seq_run)
qed

lemma accept_server_quiet: "\<exists>t. accept_server E K op sock_fd s = Ret net_fd t \<and> same_traffic s t"
proof -
  obtain t1 where t1: "call (p_reuseaddr K sock_fd) s = Ret (0, ()) t1" "same_traffic s t1"
    using quiet_call[OF reuseaddr] by blast
  obtain t2 where t2: "call (p_bind K sock_fd (htonl 0) (htons (port op))) t1 = Ret (0, ()) t2" "same_traffic t1 t2"
    using quiet_call[OF binds[of "htonl 0" "htons (port op)"]] by blast
  obtain t3 where t3: "call (p_listen K sock_fd 5) t2 = Ret (0, ()) t3" "same_traffic t2 t3"
    using quiet_call[OF listens[of 5]] by blast
  obtain a t4 where t4: "call (p_accept K sock_fd) t3 = Ret (net_fd, a) t4" "same_traffic t3 t4"
    using accepts_client[of "os t3"] by (fastforce simp: call_def)
  obtain t5 where "do_debug (debug op) (''SERVER: Client connected from %s'' @ nl) [FStr (inet_ntoa a)] t4 = Ret () t5" "os t5 = os t4"
    using do_debug_run by blast
  with t1 t2 t3 t4 show ?thesis
    using fds(2) by (intro exI[of _ t5]) (simp add: accept_server_def bnd_run_if seq_run)
qed

text \<open>With an accepted command line, \<open>main\<close> reaches its loop; a client uses the socket it connected.\<close>

lemma tun_main_run:
  assumes "accepts progname args s op" "cliserv op = 0 \<longrightarrow> sock_fd = net_fd"
  shows "\<exists>t. tun_main E K stack progname args turns s = tun_loop E K (debug op) tap_fd net_fd turns
      \<lparr>tap2net = 0, net2tap = 0, buffer = stack, timeout = 1000000\<rparr> t \<and> same_traffic s t"
proof -
  obtain opts rest where g: "getopt_all tun_takes args = (opts, rest)"
    by (cases "getopt_all tun_takes args")
  have "options_inv initial_options"
    by (simp add: options_inv_def initial_options_def IFNAMSIZ_def)
  then have p: "parse_options progname opts initial_options s = Ret op s" "options_inv op"
    and c: "check_options progname op rest s = Ret () s"
    using parse_options_cases[of initial_options progname opts s] check_options_cases[of progname op rest s] assms(1)
    by (auto simp: accepts_def g bnd_run_if seq_run split: outcome.splits)
  obtain name t1 where t1: "tun_alloc E K (if_name op) (or (tun_flags op) IFF_NO_PI) s = Ret (tap_fd, name) t1" "same_traffic s t1"
    using tun_alloc_quiet p(2) unfolding options_inv_def by blast
  obtain t2 where t2: "do_debug (debug op) (''Successfully connected to interface %s'' @ nl) [FStr name] t1 = Ret () t2" "os t2 = os t1"
    using do_debug_run by blast
  obtain t3 where t3: "call (p_socket K AF_INET SOCK_STREAM 0) t2 = Ret (sock_fd, ()) t3" "same_traffic t2 t3"
    using quiet_call[OF stream_socket] by blast
  obtain t4 where "(if cliserv op = 0 then connect_client E K op sock_fd else accept_server E K op sock_fd) t3 = Ret net_fd t4"
    "same_traffic t3 t4"
    using connect_client_quiet[of E op t3] accept_server_quiet[of E op t3] assms(2) by (cases "cliserv op = 0") auto
  with t1 t2 t3 p(1) c show ?thesis
    using fds by (intro exI[of _ t4]) (simp add: tun_main_def g bnd_run_if seq_run)
qed

end

interpretation dev_host: tunnel_host "tun_system c" 3 4 dev_view dev_closed 4 for c
  by unfold_locales (auto simp: tun_system_def ok_call_def)

section \<open>Properties\<close>

text \<open>C20. \<open>read_n\<close> puts exactly the next \<open>n\<close> bytes of the connection at the start of the buffer and
  consumes nothing else, in whatever pieces \<open>read\<close> delivers them.\<close>

theorem read_n_exact:
  assumes "tunnel_os K tap_fd net_fd tview hung_up" "n \<le> length (sock_in (tview (os s)))" "n \<le> length buf"
  shows "\<exists>t. read_n E K net_fd buf (int n) s
      = Ret (int n, take n (sock_in (tview (os s))) @ drop n buf) t
    \<and> tview (os t) = (tview (os s))\<lparr>sock_in := drop n (sock_in (tview (os s)))\<rparr>"
  using tunnel_os.read_n_stream[OF assms(1), of "int n" s 0 buf E "int n"] assms(2,3)
  by (auto simp: read_n_def memcpy_def)

definition tun_start :: "bytes list \<Rightarrow> bytes \<Rightarrow> bool \<Rightarrow> tun_dev proc" where
  "tun_start ps x c = \<lparr>out = [], err = [], perrno = 0, os = \<lparr>dev_view =
     \<lparr>tap_in = ps, tap_out = [], sock_in = x, sock_out = []\<rparr>, dev_closed = c\<rparr>\<rparr>"

definition vars_start :: tun_vars where
  "vars_start = \<lparr>tap2net = 0, net2tap = 0, buffer = replicate BUFSIZE 0, timeout = 1000000\<rparr>"

theorem read_n_exact_witness:
  "\<exists>t. read_n libc_ext (tun_system 1) 4 [0, 0, 0, 9] 3 (tun_start [] [1, 2, 3, 4] False) = Ret (3, [1, 2, 3, 9]) t"
  using read_n_exact[OF dev.tunnel_os_axioms, of 3 "tun_start [] [1, 2, 3, 4] False" "[0, 0, 0, 9]" libc_ext 1]
  by (auto simp: tun_start_def)

text \<open>C6. The tunnel carries packets unchanged and in order, from one \<open>main\<close> to the other: once both
  programs have accepted their command lines, on systems that set up the connection and take
  every write whole while it is up, and with the receiver's own interface idle, the packets of at most 2000 bytes that one end reads from its interface are, byte for byte and
  one by one, the packets the other end writes to its own when it receives the bytes the
  first end sent; after the first end has closed the connection, the other end's program
  returns 0.\<close>

theorem tunnel_end_to_end:
  assumes "tunnel_host KA tapA netA viewA hungA sockA" "tunnel_host KB tapB netB viewB hungB sockB"
    and "accepts progA argsA s opA" "cliserv opA = 0 \<longrightarrow> sockA = netA" "cliserv opB = 0 \<longrightarrow> sockB = netB"
    and "viewA (os s) = \<lparr>tap_in = ps, tap_out = [], sock_in = [], sock_out = []\<rparr>" "\<not> hungA (os s)"
    and "\<forall>p\<in>set ps. length p \<le> BUFSIZE" "length stackA = BUFSIZE" "length stackB = BUFSIZE"
  shows "\<exists>t. tun_main E KA stackA progA argsA (length ps) s = Ret None t
    \<and> (\<forall>r. sock_in (viewB (os r)) = sock_out (viewA (os t)) \<and> tap_in (viewB (os r)) = [] \<and> hungB (os r)
          \<and> accepts progB argsB r opB
        \<longrightarrow> (\<exists>u. tun_main E' KB stackB progB argsB (Suc (length ps)) r = Ret (Some 0) u
              \<and> tap_out (viewB (os u)) = tap_out (viewB (os r)) @ ps))"
proof -
  note osA = tunnel_host.axioms(1)[OF assms(1)] and osB = tunnel_host.axioms(1)[OF assms(2)]
  let ?v = "\<lambda>stack. \<lparr>tap2net = 0, net2tap = 0, buffer = stack, timeout = 1000000\<rparr>"
  obtain s1 where s1: "tun_main E KA stackA progA argsA (length ps) s = tun_loop E KA (debug opA) tapA netA (length ps) (?v stackA) s1"
    "viewA (os s1) = viewA (os s)" "hungA (os s1) = hungA (os s)"
    using tunnel_host.tun_main_run[OF assms(1,3,4)] by blast
  obtain t where t: "tun_loop E KA (debug opA) tapA netA (length ps) (?v stackA) s1 = Ret None t"
    "sock_out (viewA (os t)) = concat (map tun_encode ps)"
    using tunnel_os.tun_loop_run[OF osA, of s1 ps "[]" "?v stackA" E "debug opA" "length ps"] assms(6-9) s1(2,3) by auto
  have "\<exists>u. tun_main E' KB stackB progB argsB (Suc (length ps)) r = Ret (Some 0) u
      \<and> tap_out (viewB (os u)) = tap_out (viewB (os r)) @ ps"
    if r: "sock_in (viewB (os r)) = sock_out (viewA (os t))" "tap_in (viewB (os r)) = []" "hungB (os r)" "accepts progB argsB r opB" for r
  proof -
    obtain r1 where "tun_main E' KB stackB progB argsB (Suc (length ps)) r
        = tun_loop E' KB (debug opB) tapB netB (Suc (length ps)) (?v stackB) r1"
      "viewB (os r1) = viewB (os r)" "hungB (os r1) = hungB (os r)"
      using tunnel_host.tun_main_run[OF assms(2) r(4) assms(5)] by blast
    then show ?thesis
      using tunnel_os.tun_loop_hangup[OF osB, of r1 ps "?v stackB" "Suc (length ps)" E' "debug opB"] r t(2) assms(8,10)
      by auto
  qed
  with s1(1) t(1) show ?thesis
    by auto
qed

text \<open>The command lines of the two ends: \<open>simpletun -i tun0 -c10.0.0.1\<close> and \<open>simpletun -i tun0 -s -d\<close>.\<close>

lemma demo_accepts:
  "accepts ''simpletun'' [''-i'', ''tun0'', ''-c10.0.0.1''] s
     (initial_options\<lparr>if_name := ''tun0'', cliserv := 0, remote_ip := ''10.0.0.1''\<rparr>)"
  "accepts ''simpletun'' [''-i'', ''tun0'', ''-s'', ''-d''] s
     (initial_options\<lparr>if_name := ''tun0'', cliserv := 1, debug := True\<rparr>)"
  by (simp_all add: accepts_def tun_takes_def bnd_run_if seq_run check_options_def initial_options_def IFNAMSIZ_def c_str_def)

theorem tunnel_end_to_end_witness:
  "\<exists>t. tun_main libc_ext (tun_system 0) (replicate BUFSIZE 0) ''simpletun'' [''-i'', ''tun0'', ''-c10.0.0.1''] 2
       (tun_start [[1, 2, 3], [4]] [] False) = Ret None t
     \<and> (\<exists>u. tun_main libc_ext (tun_system 6) (replicate BUFSIZE 0) ''simpletun'' [''-i'', ''tun0'', ''-s'', ''-d''] 3
            (tun_start [] (sock_out (dev_view (os t))) True) = Ret (Some 0) u
          \<and> tap_out (dev_view (os u)) = [[1, 2, 3], [4]])"
proof -
  let ?s = "tun_start [[1, 2, 3], [4]] [] False" and ?b = "replicate BUFSIZE 0 :: bytes"
  let ?c = "[''-i'', ''tun0'', ''-c10.0.0.1'']" and ?d = "[''-i'', ''tun0'', ''-s'', ''-d'']"
  have start: "dev_view (os ?s) = \<lparr>tap_in = [[1, 2, 3], [4]], tap_out = [], sock_in = [], sock_out = []\<rparr>"
    "\<not> dev_closed (os ?s)" "\<forall>p\<in>set [[1, 2, 3], [4 :: byte]]. length p \<le> BUFSIZE"
    "length ?b = BUFSIZE"
    by (simp_all add: tun_start_def BUFSIZE_def)
  let ?op = "initial_options\<lparr>if_name := ''tun0'', cliserv := 1, debug := True\<rparr>"
  obtain t where t: "tun_main libc_ext (tun_system 0) ?b ''simpletun'' ?c 2 ?s = Ret None t"
    and far: "\<And>r. sock_in (dev_view (os r)) = sock_out (dev_view (os t)) \<and> tap_in (dev_view (os r)) = [] \<and> dev_closed (os r)
          \<and> accepts ''simpletun'' ?d r ?op
        \<Longrightarrow> \<exists>u. tun_main libc_ext (tun_system 6) ?b ''simpletun'' ?d 3 r = Ret (Some 0) u
              \<and> tap_out (dev_view (os u)) = tap_out (dev_view (os r)) @ [[1, 2, 3], [4]]"
    using tunnel_end_to_end[OF dev_host.tunnel_host_axioms dev_host.tunnel_host_axioms demo_accepts(1) _ _ start(1,2,3,4) start(4),
        of ?op libc_ext 0 "''simpletun''" ?d libc_ext 6]
    by (auto simp: numeral_2_eq_2 numeral_3_eq_3)
  show ?thesis
    using t far[of "tun_start [] (sock_out (dev_view (os t))) True"] demo_accepts(2) by (auto simp: tun_start_def)
qed

text \<open>C36. A peer that announces a packet of more than 2000 bytes, and sends it, makes the program
  write past the end of its packet buffer: the length from the network is not checked.\<close>

theorem tunnel_buffer_overflow:
  assumes "tunnel_os K tap_fd net_fd tview hung_up" "sock_in (tview (os s)) = mem16 (htons n) @ x"
    and "BUFSIZE < unat n" "unat n \<le> length x" "length (buffer v) = BUFSIZE"
  shows "from_net E K dbg tap_fd net_fd v s = Undef"
  by (rule tunnel_os.from_net_overflow[OF assms])

theorem tunnel_buffer_overflow_witness:
  "from_net libc_ext (tun_system 99) False 3 4 vars_start (tun_start [] (mem16 (htons 2001) @ replicate 2001 0) False) = Undef"
  by (rule tunnel_buffer_overflow[OF dev.tunnel_os_axioms, where n = 2001 and x = "replicate 2001 0"])
    (simp_all add: tun_start_def vars_start_def BUFSIZE_def)

text \<open>C27. Whatever the command line is, the option parser either returns options that name an
  interface of at most 15 characters and a mode, with a server address in client mode and no
  arguments left over, having printed nothing; or the program exits with status 1.\<close>

theorem options_checked:
  "let (opts, rest) = getopt_all tun_takes args;
       run = bnd (parse_options progname opts initial_options) (\<lambda>op. seq (check_options progname op rest) (ret op)) s
   in (\<exists>op. run = Ret op s \<and> if_name op \<noteq> [] \<and> length (if_name op) < IFNAMSIZ \<and> cliserv op \<in> {0, 1}
          \<and> (cliserv op = 0 \<longrightarrow> remote_ip op \<noteq> []) \<and> rest = [])
      \<or> (\<exists>t. run = Exit 1 t)"
proof -
  obtain opts rest where g: "getopt_all tun_takes args = (opts, rest)"
    by (cases "getopt_all tun_takes args")
  have "options_inv initial_options"
    by (simp add: options_inv_def initial_options_def IFNAMSIZ_def)
  then consider op where "parse_options progname opts initial_options s = Ret op s" "options_inv op"
    | t where "parse_options progname opts initial_options s = Exit 1 t"
    using parse_options_cases by blast
  then show ?thesis
  proof cases
    case 1
    then show ?thesis
      using check_options_cases[of progname op rest s] g by (auto simp: bnd_run_if seq_run options_inv_def)
  next
    case 2
    then show ?thesis
      using g by (simp add: bnd_run_if)
  qed
qed

theorem options_checked_witness:
  "\<exists>op. bnd (parse_options ''simpletun'' [(CHR ''i'', ''tun0''), (CHR ''c'', ''10.0.0.1'')] initial_options)
       (\<lambda>op. seq (check_options ''simpletun'' op []) (ret op)) (tun_start [] [] False) = Ret op (tun_start [] [] False)
     \<and> getopt_all tun_takes [''-i'', ''tun0'', ''-c10.0.0.1''] = ([(CHR ''i'', ''tun0''), (CHR ''c'', ''10.0.0.1'')], [])
     \<and> if_name op = ''tun0'' \<and> cliserv op = 0 \<and> remote_ip op = ''10.0.0.1''"
proof -
  have ev: "getopt_all tun_takes [''-i'', ''tun0'', ''-c10.0.0.1''] = ([(CHR ''i'', ''tun0''), (CHR ''c'', ''10.0.0.1'')], [])"
    by (simp add: tun_takes_def)
  have "\<exists>op. bnd (parse_options ''simpletun'' [(CHR ''i'', ''tun0''), (CHR ''c'', ''10.0.0.1'')] initial_options)
       (\<lambda>op. seq (check_options ''simpletun'' op []) (ret op)) (tun_start [] [] False) = Ret op (tun_start [] [] False)
     \<and> if_name op = ''tun0'' \<and> cliserv op = 0 \<and> remote_ip op = ''10.0.0.1''"
    using options_checked[of "[''-i'', ''tun0'', ''-c10.0.0.1'']" "''simpletun''" "tun_start [] [] False"]
    unfolding ev
    by (auto simp: bnd_run_if seq_run check_options_def initial_options_def IFNAMSIZ_def c_str_def)
  with ev show ?thesis
    by blast
qed

end
