(* ===== verification/RefSockets.thy ===== *)
theory RefSockets
  imports Sniffer SimpleTun Ip
begin

text \<open>
  The small C programs under \<open>reference/\<close>: the ARP listener \<open>arp.c\<close>, the raw socket listeners
  \<open>raw_sockets.c\<close> and \<open>raw_sockets_all.c\<close>, the frame sender \<open>raw_socket_eth.c\<close> and the device
  test \<open>tun_test.c\<close>. Each is modelled from its first system call to its last \<open>printf\<close>. A
  receive buffer keeps what an earlier packet left in it. The packet filter of \<open>arp.c\<close> is the data
  handed to the kernel, and \<open>bpf_run\<close> what the kernel does with it. The lemmas give the text each
  listener prints in terms of the structures of the stack: ARP packets as \<open>arp.h\<close> reads them, datagrams
  as \<open>ip.cc\<close> makes them.
\<close>

section \<open>Definitions: arp.c\<close>

record ref_arp =
  htype :: u16
  ptype :: u16
  hlen :: byte
  plen :: byte
  oper :: u16
  sender_ha :: bytes
  sender_pa :: bytes
  target_ha :: bytes
  target_pa :: bytes

definition read_arp :: "bytes \<Rightarrow> ref_arp" where
  "read_arp b = \<lparr>htype = read16 b, ptype = read16 (drop 2 b), hlen = b ! 4, plen = b ! 5,
     oper = read16 (drop 6 b), sender_ha = take 6 (drop 8 b), sender_pa = take 4 (drop 14 b),
     target_ha = take 6 (drop 18 b), target_pa = take 4 (drop 24 b)\<rparr>"

definition sizeof_ethernet :: nat where
  "sizeof_ethernet = 14"

definition sizeof_arp :: nat where
  "sizeof_arp = 28"

definition BUFF_SIZE :: nat where
  "BUFF_SIZE = 2048"

definition ETH_P_ARP :: u16 where
  "ETH_P_ARP = 0x0806"

text \<open>Load the half word at 12, compare with \<open>ETH_P_ARP\<close>, return 42 or 0.\<close>

definition arpfilter :: "sock_filter list" where
  "arpfilter = [
     \<lparr>bpf_code = 0x28, bpf_jt = 0, bpf_jf = 0, bpf_k = 12\<rparr>,
     \<lparr>bpf_code = 0x15, bpf_jt = 0, bpf_jf = 1, bpf_k = 0x0806\<rparr>,
     \<lparr>bpf_code = 0x06, bpf_jt = 0, bpf_jf = 0, bpf_k = sizeof_arp + sizeof_ethernet\<rparr>,
     \<lparr>bpf_code = 0x06, bpf_jt = 0, bpf_jf = 0, bpf_k = 0\<rparr>]"

text \<open>
  What the kernel does with a filter (\<open>bpf(4)\<close>), for the three instructions in use: load a half
  word in network byte order at a fixed offset, where a load outside the packet rejects it;
  skip instructions depending on the accumulator; return the number of bytes to keep. Jumps
  go forward only, so the rest of the program is all that is left to run.
\<close>

function bpf_run :: "sock_filter list \<Rightarrow> bytes \<Rightarrow> nat \<Rightarrow> nat option" where
  "bpf_run [] p a = None"
| "bpf_run (c # cs) p a =
     (if bpf_code c = 0x28 then
        if bpf_k c + 2 \<le> length p then bpf_run cs p (unat (ntohs (read16 (drop (bpf_k c) p)))) else Some 0
      else if bpf_code c = 0x15 then bpf_run (drop (if a = bpf_k c then bpf_jt c else bpf_jf c) cs) p a
      else if bpf_code c = 0x06 then Some (bpf_k c)
      else None)"
  by pat_completeness auto
termination
  by (relation "measure (\<lambda>(cs, _). length cs)") auto

definition bpf_deliver :: "sock_filter list \<Rightarrow> bytes list \<Rightarrow> bytes list" where
  "bpf_deliver cs ps = concat (map (\<lambda>p. case bpf_run cs p 0 of
     None \<Rightarrow> [] | Some n \<Rightarrow> if n = 0 then [] else [take n p]) ps)"

definition is_arp_frame :: "bytes \<Rightarrow> bool" where
  "is_arp_frame p \<longleftrightarrow> 14 \<le> length p \<and> ntohs (read16 (drop 12 p)) = ETH_P_ARP"

definition byte_args :: "bytes \<Rightarrow> fmt_arg list" where
  "byte_args bs = map (\<lambda>x. FInt (uint x)) bs"

definition dump_arp_hdr :: "ref_arp \<Rightarrow> ('k proc, unit) prog" where
  "dump_arp_hdr a =
     (let ht = uint (ntohs (htype a)); pt = uint (ntohs (ptype a)); op = uint (ntohs (oper a)) in
      seq (if ht = 1 then print_out (''ARP HTYPE: Ethernet(0x%04X)'' @ endl) [FInt ht]
           else print_out (''ARP HYPE: 0x%04X'' @ endl) [FInt ht])
      (seq (if pt = 0x0800 then print_out (''ARP PTYPE: IPv4(0x%04X)'' @ endl) [FInt pt]
            else print_out (''ARP PTYPE: 0x%04X'' @ endl) [FInt pt])
      (seq (print_out (''ARP HLEN: %d'' @ endl) [FInt (uint (hlen a))])
      (seq (print_out (''ARP PLEN: %d'' @ endl) [FInt (uint (plen a))])
      (seq (if op = 1 then print_out (''ARP OPER: Request(0x%04X)'' @ endl) [FInt op]
            else if op = 2 then print_out (''ARP OPER: Response(0x%04X)'' @ endl) [FInt op]
            else print_out (''ARP OPER: 0x%04X'' @ endl) [FInt op])
      (seq (print_out (''ARP Sender HA: %02X:%02X:%02X:%02X:%02X:%02X'' @ endl) (byte_args (sender_ha a)))
      (seq (print_out (''ARP Sender PA: %d.%d.%d.%d'' @ endl) (byte_args (sender_pa a)))
      (seq (print_out (''ARP Target HA: %02X:%02X:%02X:%02X:%02X:%02X'' @ endl) (byte_args (target_ha a)))
      (seq (print_out (''ARP Target PA: %d.%d.%d.%d'' @ endl) (byte_args (target_pa a)))
      (print_out (''ARP DONE ====================='' @ endl) []))))))))))"

text \<open>One turn of the loop, with the buffer that stays allocated across turns.\<close>

definition arp_listen_turn :: "ext \<Rightarrow> 'k posix \<Rightarrow> int \<Rightarrow> bytes \<Rightarrow> ('k proc, bytes) prog" where
  "arp_listen_turn E K sock buf =
     bnd (call (p_recv K sock BUFF_SIZE)) (\<lambda>(recvd_size, bs).
     if recvd_size < 0 then
       seq (perror E ''recv(): '') (bnd (call (p_close K sock)) (\<lambda>_. exit_with (-1)))
     else
       bnd (memcpy_to buf 0 bs) (\<lambda>buf.
       if size_t recvd_size < sizeof_ethernet + sizeof_arp then
         seq (print_out (''Short packet. Packet len: %ld'' @ endl) [FInt recvd_size]) (ret buf)
       else checked (sizeof_ethernet + sizeof_arp \<le> length buf)
         (if ntohs (read16 (drop 12 buf)) \<noteq> ETH_P_ARP then
            seq (print_out (''Received wrong ethernet type: %X'' @ endl) [FInt (uint (read16 (drop 12 buf)))])
            (exit_with 1)
          else seq (dump_arp_hdr (read_arp (take sizeof_arp (drop sizeof_ethernet buf)))) (ret buf))))"

primrec arp_listen :: "ext \<Rightarrow> 'k posix \<Rightarrow> int \<Rightarrow> nat \<Rightarrow> bytes \<Rightarrow> ('k proc, bytes) prog" where
  "arp_listen E K sock 0 buf = ret buf"
| "arp_listen E K sock (Suc turns) buf =
     bnd (arp_listen_turn E K sock buf) (arp_listen E K sock turns)"

text \<open>\<open>malloc\<close> gives \<open>heap\<close>; \<open>can_alloc\<close> says whether the copy of the filter could be allocated.\<close>

definition arp_main :: "ext \<Rightarrow> 'k posix \<Rightarrow> bool \<Rightarrow> bytes \<Rightarrow> nat \<Rightarrow> ('k proc, bytes) prog" where
  "arp_main E K can_alloc heap turns =
     bnd (call (p_socket K AF_PACKET SOCK_RAW (htons ETH_P_ALL))) (\<lambda>(sock, _).
     if sock = -1 then seq (perror E ''socket(): '') (exit_with (-1))
     else if \<not> can_alloc then
       seq (perror E ''malloc'') (bnd (call (p_close K sock)) (\<lambda>_. exit_with 1))
     else
       bnd (call (p_attach_filter K sock arpfilter)) (\<lambda>(r, _).
       if r = -1 then
         seq (perror E ''setsockopt'') (bnd (call (p_close K sock)) (\<lambda>_. exit_with 1))
       else arp_listen E K sock turns heap))"

section \<open>Definitions: raw\_sockets.c and raw\_sockets\_all.c\<close>

definition print_incoming :: "bytes \<Rightarrow> ('k proc, unit) prog" where
  "print_incoming buf =
     checked (20 \<le> length buf)
       (seq (print_out (''Incoming Packet: '' @ endl) [])
       (seq (print_out (''Packet Size (bytes): %d'' @ endl) [FInt (uint (ntohs (read16 (drop 2 buf))))])
       (seq (print_out (''Source Address: %s'' @ endl) [FStr (inet_ntoa (read32 (drop 12 buf)))])
       (seq (print_out (''Destination Address: %s'' @ endl) [FStr (inet_ntoa (read32 (drop 16 buf)))])
       (print_out (''Identification: %d'' @ endl @ endl) [FInt (uint (ntohs (read16 (drop 4 buf))))])))))"

primrec hexdump_bytes :: "bytes \<Rightarrow> nat \<Rightarrow> nat \<Rightarrow> ('k proc, unit) prog" where
  "hexdump_bytes buf i 0 = ret ()"
| "hexdump_bytes buf i (Suc n) =
     seq (checked (i < length buf) (print_out ''%02x'' [FInt (uint (buf ! i))])) (hexdump_bytes buf (Suc i) n)"

definition hexdump :: "bytes \<Rightarrow> int \<Rightarrow> ('k proc, unit) prog" where
  "hexdump buf len = seq (hexdump_bytes buf 0 (nat len)) (print_out endl [])"

text \<open>The loop both programs have; \<open>show_packet\<close> is what they do with a packet.\<close>

primrec raw_listen ::
  "'k posix \<Rightarrow> (bytes \<Rightarrow> int \<Rightarrow> ('k proc, unit) prog) \<Rightarrow> int \<Rightarrow> nat \<Rightarrow> bytes \<Rightarrow> ('k proc, int option) prog" where
  "raw_listen K show_packet sock 0 buf = ret None"
| "raw_listen K show_packet sock (Suc turns) buf =
     bnd (call (p_recv K sock 65536)) (\<lambda>(packet_size, bs).
     if packet_size = -1 then
       seq (print_out (''Failed to get packets'' @ endl) []) (ret (Some 1))
     else
       bnd (memcpy_to buf 0 bs) (\<lambda>buf.
       seq (show_packet buf packet_size) (raw_listen K show_packet sock turns buf)))"

definition IPPROTO_TCP :: u16 where
  "IPPROTO_TCP = 6"

definition raw_sockets_main :: "ext \<Rightarrow> 'k posix \<Rightarrow> bytes \<Rightarrow> nat \<Rightarrow> ('k proc, int option) prog" where
  "raw_sockets_main E K heap turns =
     bnd (call (p_socket K AF_INET SOCK_RAW IPPROTO_TCP)) (\<lambda>(sock, _).
     if sock = -1 then seq (perror E ''Failed to create socket'') (exit_with 1)
     else raw_listen K (\<lambda>buf n. print_incoming buf) sock turns heap)"

text \<open>This program passes \<open>ETH_P_ALL\<close> in host byte order.\<close>

definition raw_sockets_all_main :: "ext \<Rightarrow> 'k posix \<Rightarrow> bytes \<Rightarrow> nat \<Rightarrow> ('k proc, int option) prog" where
  "raw_sockets_all_main E K heap turns =
     bnd (call (p_socket K AF_PACKET SOCK_RAW ETH_P_ALL)) (\<lambda>(sock, _).
     if sock = -1 then seq (perror E ''Failed to create socket'') (exit_with 1)
     else raw_listen K hexdump sock turns heap)"

section \<open>Definitions: raw\_socket\_eth.c\<close>

definition my_msg :: bytes where
  "my_msg =
     [0x91, 0xe0, 0xf0, 0x01, 0x00, 0x00] @
     [0x08, 0x00, 0x27, 0x90, 0x5f, 0xae] @
     [0x22, 0xf0] @
     [0xfc, 0x06, 0x00, 0x2c, 0x00, 0x00] @
     [0x00, 0x00, 0x00, 0x00, 0x00, 0x00] @
     [0x08, 0x00, 0x27, 0xff, 0xfe, 0x90, 0x5f, 0xae] @
     [0xd8, 0x80, 0x39, 0xff, 0xfe, 0xd0, 0xac, 0xb5] @
     [0xd8, 0x80, 0x39, 0xff, 0xfe, 0xd0, 0x9b, 0xc8] @
     [0x00, 0x00] @
     [0x00, 0x00] @
     [0x00, 0x00, 0x00, 0x00, 0x00, 0x00] @
     [0x00, 0x00, 0x00, 0x5f] @
     [0x00, 0x00, 0x00, 0x00, 0x00, 0x00]"

definition get_interface_MAC :: "ext \<Rightarrow> 'k posix \<Rightarrow> string \<Rightarrow> int \<Rightarrow> ('k proc, unit) prog" where
  "get_interface_MAC E K interface_name sockfd =
     bnd (call (p_hwaddr K sockfd (take (IFNAMSIZ - 1) interface_name))) (\<lambda>(r, _).
     only_if (r < 0) (perror E ''SIOCGIFHWADDR''))"

text \<open>When the request fails the structure still holds the zeros of \<open>memset\<close>.\<close>

definition get_interface_index :: "ext \<Rightarrow> 'k posix \<Rightarrow> string \<Rightarrow> int \<Rightarrow> ('k proc, int) prog" where
  "get_interface_index E K interface_name sockfd =
     bnd (call (p_ifindex K sockfd (take (IFNAMSIZ - 1) interface_name))) (\<lambda>(r, i).
     if r < 0 then seq (perror E ''SIOCGIFINDEX'') (ret 0) else ret i)"

text \<open>\<open>stack\<close> is what the uninitialised \<open>sockaddr_ll\<close> holds; three of its members are set.\<close>

definition send_test :: "ext \<Rightarrow> 'k posix \<Rightarrow> sockaddr_ll \<Rightarrow> ('k proc, int) prog" where
  "send_test E K stack =
     bnd (call (p_socket K AF_PACKET SOCK_RAW (htons ETH_P_ALL))) (\<lambda>(sockfd, _).
     if sockfd < 0 then ret 1
     else
       bnd (get_interface_index E K ''eth0'' sockfd) (\<lambda>i.
       let socket_address = stack\<lparr>sll_ifindex := i, sll_halen := 6,
             sll_addr := memcpy (sll_addr stack) 0 (take 6 my_msg)\<rparr> in
       bnd (call (p_sendto K sockfd my_msg socket_address)) (\<lambda>(r, _).
       if r < 0 then seq (print_out (''Fail'' @ endl) []) (ret 2) else ret 0)))"

definition eth_main :: "ext \<Rightarrow> 'k posix \<Rightarrow> sockaddr_ll \<Rightarrow> ('k proc, int) prog" where
  "eth_main E K stack = send_test E K stack"

section \<open>Definitions: tun\_test.c\<close>

definition test_tun_alloc :: "ext \<Rightarrow> 'k posix \<Rightarrow> string \<Rightarrow> ('k proc, int \<times> string) prog" where
  "test_tun_alloc E K dev =
     bnd (call (p_open K ''/dev/net/tap'')) (\<lambda>(fde, _).
     if fde < 0 then seq (print_out (''Cannot open TUN/TAP dev'' @ endl) []) (exit_with 1)
     else
       bnd (call (p_tunsetiff K fde (take IFNAMSIZ dev) (or IFF_TAP IFF_NO_PI))) (\<lambda>(r, name).
       if r < 0 then
         bnd (gets perrno) (\<lambda>e.
         seq (print_out (''ERR: Could not ioctl tun: %s'' @ endl) [FStr (strerror E e)])
         (bnd (call (p_close K fde)) (\<lambda>_. ret (r, dev))))
       else ret (fde, take (IFNAMSIZ - 1) name)))"

definition tun_test_main :: "ext \<Rightarrow> 'k posix \<Rightarrow> string \<Rightarrow> string list \<Rightarrow> ('k proc, int) prog" where
  "tun_test_main E K progname args =
     (case args of
        [arg] \<Rightarrow>
          bnd (test_tun_alloc E K (take (IFNAMSIZ - 1) (c_str arg))) (\<lambda>(fde, _).
          seq (print_out (''fd = %d'' @ endl) [FInt fde]) (ret 0))
      | _ \<Rightarrow> seq (print_err ''usage: %s <name of interface in /dev/net>'' [FStr progname]) (ret 1))"

text \<open>The system of \<open>simpletun\<close>, with a packet socket as its only socket.\<close>

definition listen_system :: "tun_dev posix" where
  "listen_system = (tun_system 0)\<lparr>p_socket := (\<lambda>domain type protocol k. ((3, ()), 0, k))\<rparr>"

interpretation dev_packets: packet_source listen_system 3 "\<lambda>k. tap_in (dev_view k)"
  by unfold_locales (auto simp: listen_system_def tun_system_def dev_read_def Let_def)

lemma listen_system_calls [simp]:
  "p_socket listen_system domain type protocol k = ((3, ()), 0, k)" "p_attach_filter listen_system f prog k = ((0, ()), 0, k)"
  by (simp_all add: listen_system_def tun_system_def ok_call_def)

section \<open>What the filter selects\<close>

lemma arpfilter_selects: "bpf_run arpfilter p 0 = Some (if is_arp_frame p then 42 else 0)"
proof -
  have "unat (ntohs (read16 (drop 12 p))) = 0x0806 \<longleftrightarrow> ntohs (read16 (drop 12 p)) = ETH_P_ARP"
    unfolding ETH_P_ARP_def by (simp add: word_unat_eq_iff)
  then show ?thesis
    by (auto simp: arpfilter_def is_arp_frame_def sizeof_arp_def sizeof_ethernet_def)
qed

lemma arpfilter_delivers: "bpf_deliver arpfilter ps = map (take 42) (filter is_arp_frame ps)"
  by (induction ps) (simp_all add: bpf_deliver_def arpfilter_selects)

section \<open>What the ARP listener prints\<close>

text \<open>
  The report on a packet, from the fields that \<open>arp.h\<close> gives it: the listener reads the same
  bytes with its own structure.
\<close>

definition arp_report :: "Packet \<Rightarrow> string" where
  "arp_report p =
     (let ht = uint16_of_net (hw_type p); pt = uint16_of_net (p_type p); op = uint16_of_net (opcode p) in
      sprintf (if ht = 1 then ''ARP HTYPE: Ethernet(0x%04X)'' @ endl else ''ARP HYPE: 0x%04X'' @ endl) [FInt (uint ht)]
      @ sprintf (if pt = 0x0800 then ''ARP PTYPE: IPv4(0x%04X)'' @ endl else ''ARP PTYPE: 0x%04X'' @ endl) [FInt (uint pt)]
      @ sprintf (''ARP HLEN: %d'' @ endl) [FInt (uint (hw_addr_len p))]
      @ sprintf (''ARP PLEN: %d'' @ endl) [FInt (uint (p_len p))]
      @ sprintf (if op = 1 then ''ARP OPER: Request(0x%04X)'' @ endl
          else if op = 2 then ''ARP OPER: Response(0x%04X)'' @ endl else ''ARP OPER: 0x%04X'' @ endl) [FInt (uint op)]
      @ sprintf (''ARP Sender HA: %02X:%02X:%02X:%02X:%02X:%02X'' @ endl) (byte_args (mac_bytes (src_hw_addr p)))
      @ sprintf (''ARP Sender PA: %d.%d.%d.%d'' @ endl) (byte_args (mem_ip (src_ip_addr p)))
      @ sprintf (''ARP Target HA: %02X:%02X:%02X:%02X:%02X:%02X'' @ endl) (byte_args (mac_bytes (dst_hw_addr p)))
      @ sprintf (''ARP Target PA: %d.%d.%d.%d'' @ endl) (byte_args (mem_ip (dst_ip_addr p)))
      @ ''ARP DONE ====================='' @ endl)"

lemma mac_bytes_slice: "n + 6 \<le> length b \<Longrightarrow> mac_bytes (mac_of_bytes (drop n b)) = take 6 (drop n b)"
  using mac_bytes_mac_of_bytes[of "take 6 (drop n b)"] by (simp add: mac_of_bytes_def)

lemma mem_ip_slice: "n + 4 \<le> length b \<Longrightarrow> mem_ip (read_ip (drop n b)) = take 4 (drop n b)"
  using mem32_read32[of "take 4 (drop n b)"] by (simp add: mem_ip_def read_ip_def read32_def)

text \<open>\<open>prints m x\<close>: \<open>m\<close> does nothing but print \<open>x\<close>.\<close>

definition prints :: "('k proc, unit) prog \<Rightarrow> string \<Rightarrow> bool" where
  "prints m x \<longleftrightarrow> (\<forall>s. m s = Ret () (s\<lparr>out := out s @ x\<rparr>))"

lemma prints_out: "prints (print_out fmt args) (sprintf fmt args)"
  by (simp add: prints_def)

lemma prints_run: "prints m x \<Longrightarrow> m s = Ret () (s\<lparr>out := out s @ x\<rparr>)"
  by (simp add: prints_def)

lemma prints_seq: "prints m x \<Longrightarrow> prints n y \<Longrightarrow> prints (seq m n) (x @ y)"
  by (simp add: prints_def seq_run)

lemma prints_ret: "prints (ret ()) []"
  by (simp add: prints_def)

lemma prints_literal: "CHR ''%'' \<notin> set fmt \<Longrightarrow> prints (print_out fmt args) fmt"
  by (metis prints_out sprintf_plain)

lemma print_if: "(if b then print_out f as else print_out g as) = print_out (if b then f else g) as"
  by simp

lemma uint_1_2: "uint (w :: u16) = 1 \<longleftrightarrow> w = 1" "uint w = 2 \<longleftrightarrow> w = 2" "uint w = 2048 \<longleftrightarrow> w = 2048"
  by (auto simp: word_uint_eq_iff)

lemma prints_dump_arp:
  assumes "length b = 28"
  shows "prints (dump_arp_hdr (read_arp b)) (arp_report (read_packet b))"
proof -
  have fields: "mac_bytes (src_hw_addr (read_packet b)) = sender_ha (read_arp b)"
    "mac_bytes (dst_hw_addr (read_packet b)) = target_ha (read_arp b)"
    "mem_ip (src_ip_addr (read_packet b)) = sender_pa (read_arp b)"
    "mem_ip (dst_ip_addr (read_packet b)) = target_pa (read_arp b)"
    "uint16_of_net (hw_type (read_packet b)) = ntohs (htype (read_arp b))"
    "uint16_of_net (p_type (read_packet b)) = ntohs (ptype (read_arp b))"
    "uint16_of_net (opcode (read_packet b)) = ntohs (oper (read_arp b))"
    "hw_addr_len (read_packet b) = hlen (read_arp b)" "p_len (read_packet b) = plen (read_arp b)"
    using assms by (simp_all add: read_packet_def read_arp_def mac_bytes_slice mem_ip_slice
        uint16_of_net_def read_net16_def)
  show ?thesis
    unfolding dump_arp_hdr_def arp_report_def Let_def print_if uint_1_2 fields
    by (intro prints_seq prints_out prints_literal) (simp add: endl_def)
qed

lemma prints_hexdump_bytes:
  "i + n \<le> length buf \<Longrightarrow> prints (hexdump_bytes buf i n) (concat (map hex02 (take n (drop i buf))))"
proof (induction n arbitrary: i)
  case (Suc n)
  then have "take (Suc n) (drop i buf) = buf ! i # take n (drop (Suc i) buf)"
    by (simp add: Cons_nth_drop_Suc[symmetric])
  moreover have "prints (print_out ''%02x'' [FInt (uint (buf ! i))]) (hex02 (buf ! i))"
    by (metis prints_out sprintf_hex02)
  ultimately show ?case
    using Suc prints_seq[OF _ Suc.IH[of "Suc i"]] by simp
qed (simp add: prints_ret)

lemma prints_hexdump:
  "n \<le> length buf \<Longrightarrow> prints (hexdump buf (int n)) (concat (map hex02 (take n buf)) @ endl)"
  unfolding hexdump_def nat_int
  using prints_seq[OF prints_hexdump_bytes[of 0 n buf] prints_literal[of endl "[]"]] by (simp add: endl_def)

context packet_source
begin

lemma call_recv:
  assumes "pending (os s) = p # ps" "length p \<le> n"
  shows "\<exists>t. call (p_recv K sock n) s = Ret (int (length p), p) t \<and> out t = out s \<and> pending (os t) = ps"
  using recv_packet[OF assms] by (fastforce simp: call_def)

lemma arp_listen_run:
  assumes "pending (os s) = ps @ rest" "length buf = BUFF_SIZE"
    and "\<forall>p\<in>set ps. 42 \<le> length p \<and> length p \<le> BUFF_SIZE \<and> ntohs (read16 (drop 12 p)) = ETH_P_ARP"
  shows "\<exists>buf' t. arp_listen E K sock (length ps) buf s = Ret buf' t \<and> length buf' = BUFF_SIZE
    \<and> pending (os t) = rest
    \<and> out t = out s @ concat (map (\<lambda>p. arp_report (read_packet (take 28 (drop 14 p)))) ps)"
  using assms
proof (induction ps arbitrary: s buf)
  case Nil
  then show ?case
    by (intro exI[of _ buf] exI[of _ s]) simp
next
  case (Cons p ps)
  let ?buf = "memcpy buf 0 p"
  let ?x = "arp_report (read_packet (take 28 (drop 14 p)))"
  have p: "42 \<le> length p" "length p \<le> BUFF_SIZE" "ntohs (read16 (drop 12 p)) = ETH_P_ARP"
    using Cons.prems(3) by auto
  obtain t where t: "call (p_recv K sock BUFF_SIZE) s = Ret (int (length p), p) t" "out t = out s" "pending (os t) = ps @ rest"
    using call_recv[of s p "ps @ rest" BUFF_SIZE] Cons.prems(1) p(2) by auto
  have buf: "length ?buf = BUFF_SIZE" "read16 (drop 12 ?buf) = read16 (drop 12 p)"
    "take 28 (drop 14 ?buf) = take 28 (drop 14 p)"
    using p Cons.prems(2) by (auto simp: memcpy_def read16_def)
  let ?t = "t\<lparr>out := out t @ ?x\<rparr>"
  have "dump_arp_hdr (read_arp (take 28 (drop 14 p))) t = Ret () ?t"
    using p(1) by (intro prints_run prints_dump_arp) simp
  moreover have "size_t (int (length p)) = length p"
    using p(2) by (simp add: BUFF_SIZE_def)
  ultimately have turn: "arp_listen_turn E K sock buf s = Ret ?buf ?t"
    using t(1) p buf Cons.prems(2)
    by (simp add: arp_listen_turn_def bnd_run_if seq_run sizeof_ethernet_def sizeof_arp_def)
  obtain buf' u where "arp_listen E K sock (length ps) ?buf ?t = Ret buf' u" "length buf' = BUFF_SIZE" "pending (os u) = rest"
    "out u = out ?t @ concat (map (\<lambda>p. arp_report (read_packet (take 28 (drop 14 p)))) ps)"
    using Cons.IH[of ?t ?buf] Cons.prems t(3) buf(1) by auto
  then show ?case
    using turn t(2) by (intro exI[of _ buf'] exI[of _ u]) (simp add: bnd_run_if)
qed

text \<open>The loop of both listeners prints what \<open>show_packet\<close> prints for each packet; the buffer
  starts with the packet, behind it is what earlier packets left there.\<close>

lemma raw_listen_prints:
  assumes "pending (os s) = ps @ rest" "length buf = 65536" "\<forall>p\<in>set ps. length p \<le> 65536"
    and packet: "\<And>p q. p \<in> set ps \<Longrightarrow> prints (show_packet (p @ q) (int (length p))) (f p)"
  shows "\<exists>t. raw_listen K show_packet sock (length ps) buf s = Ret None t \<and> pending (os t) = rest
    \<and> out t = out s @ concat (map f ps)"
  using assms
proof (induction ps arbitrary: s buf)
  case Nil
  then show ?case
    by (intro exI[of _ s]) simp
next
  case (Cons p ps)
  let ?buf = "memcpy buf 0 p"
  obtain t where t: "call (p_recv K sock 65536) s = Ret (int (length p), p) t" "out t = out s" "pending (os t) = ps @ rest"
    using call_recv[of s p "ps @ rest" 65536] Cons.prems by auto
  have buf: "length ?buf = 65536" "?buf = p @ drop (length p) buf"
    using Cons.prems(2,3) by (simp_all add: memcpy_def)
  let ?t = "t\<lparr>out := out t @ f p\<rparr>"
  have shown: "show_packet ?buf (int (length p)) t = Ret () ?t"
    unfolding buf(2) by (rule prints_run[OF Cons.prems(4)]) simp
  obtain u where "raw_listen K show_packet sock (length ps) ?buf ?t = Ret None u" "pending (os u) = rest"
    "out u = out ?t @ concat (map f ps)"
    using Cons.IH[of ?t ?buf] Cons.prems t(3) buf(1) by auto
  then show ?case
    using t(1,2) shown Cons.prems(2,3) by (intro exI[of _ u]) (simp add: bnd_run_if seq_run)
qed

end

section \<open>Properties\<close>

text \<open>C23. The sniffer, from its \<open>main\<close> on, over any source of at most \<open>INT_MAX\<close> packets of 24 to 65536 bytes: if
  its log could be created, it processes every packet, its counters add up, and each is the
  number of packets of its protocol. If the log could not be created, it says so and goes on:
  the same holds as long as no TCP, UDP or ICMP packet arrives, and the first one that does
  writes to a null stream.\<close>

theorem sniffer_counts:
  assumes "packet_source K sock pending" "0 \<le> sock"
    and "p_socket K AF_PACKET SOCK_RAW (htons ETH_P_ALL) (os (sproc s)) = ((sock, ()), e, k)" "pending k = ps @ rest"
    and "\<forall>p\<in>set ps. 24 \<le> length p \<and> length p \<le> 65536" "length b = 65536" "int (length ps) \<le> int_max"
    and "tcp s = 0" "udp s = 0" "icmp s = 0" "others s = 0" "igmp s = 0" "total s = 0"
  shows "if \<not> can_create \<and> (\<exists>p\<in>set ps. p ! 23 \<in> {1, 6, 17}) then sniffer_main E K can_create b (length ps) s = Undef
    else \<exists>s'. sniffer_main E K can_create b (length ps) s = Ret None s' \<and> counters_ok s'
    \<and> pending (os (sproc s')) = rest \<and> total s' = int (length ps) \<and> tcp s' = proto_count 6 ps
    \<and> udp s' = proto_count 17 ps \<and> icmp s' = proto_count 1 ps \<and> igmp s' = proto_count 2 ps"
proof -
  let ?p = "sproc s"
  let ?s = "s\<lparr>logfile := (if can_create then Some [] else None), sproc := ?p\<lparr>out := out ?p
      @ (if can_create then [] else sprintf ''Unable to create log.txt file.'' []) @ sprintf (''Starting...'' @ endl) [], os := k\<rparr>\<rparr>"
  have main: "sniffer_main E K can_create b (length ps) s = sniffer_loop K sock (length ps) b ?s"
    using assms(2,3) by (cases can_create) (simp_all add: sniffer_main_def seq_run bnd_run_if on_sproc_def zoom_def call_def)
  have start: "pending (os (sproc ?s)) = ps @ rest" "counters_ok ?s" "total ?s + int (length ps) \<le> int_max"
    using assms(4,7-13) by (simp_all add: counters_ok_def)
  have "(\<exists>p\<in>set ps. printed (p ! 23)) \<longleftrightarrow> (\<exists>p\<in>set ps. p ! 23 \<in> {1, 6, 17})"
    by (auto simp: printed_def)
  then show ?thesis
    using packet_source.sniffer_loop_run[OF assms(1) start(1) assms(5,6) start(2,3)] assms(8-13) unfolding main
    by (auto split: if_splits)
qed

theorem sniffer_counts_witness:
  "(\<exists>s'. sniffer_main libc_ext listen_system True (replicate 65536 0) 1
      (sniffer_start (os (tun_start [replicate 64 6] [] False))) = Ret None s' \<and> tcp s' = 1 \<and> total s' = 1)
   \<and> sniffer_main libc_ext listen_system False (replicate 65536 0) 1
      (sniffer_start (os (tun_start [replicate 64 6] [] False))) = Undef"
  using sniffer_counts[OF dev_packets.packet_source_axioms,
      of "sniffer_start (os (tun_start [replicate 64 6] [] False))" 0 "os (tun_start [replicate 64 6] [] False)"
        "[replicate 64 6]" "[]" "replicate 65536 0" True libc_ext]
    sniffer_counts[OF dev_packets.packet_source_axioms,
      of "sniffer_start (os (tun_start [replicate 64 6] [] False))" 0 "os (tun_start [replicate 64 6] [] False)"
        "[replicate 64 6]" "[]" "replicate 65536 0" False libc_ext]
  by (auto simp: sniffer_start_def tun_start_def int_max_def proto_count_def)

text \<open>C29. \<open>arp.c\<close> agrees with \<open>arp.h\<close>: of any sequence of frames of at least 42 bytes that arrive after the
  program has attached its filter, the kernel running the filter hands it the first 42
  bytes of exactly the ARP frames, and the program prints, in order, the report on the
  packet that \<open>arp.h\<close> finds in each of them.\<close>

theorem arp_listener_reports:
  assumes "packet_source K sock pending" "sock \<noteq> -1"
    and "p_socket K AF_PACKET SOCK_RAW (htons ETH_P_ALL) (os s) = ((sock, ()), e, k)"
    and "p_attach_filter K sock arpfilter k = ((0, ()), e', k')" "length heap = BUFF_SIZE"
    and "pending k' = bpf_deliver arpfilter fs" "\<forall>f\<in>set fs. 42 \<le> length f"
  shows "\<exists>buf t. arp_main E K True heap (length (filter is_arp_frame fs)) s = Ret buf t \<and> pending (os t) = []
    \<and> out t = out s @ concat (map (\<lambda>f. arp_report (read_packet (take 28 (drop 14 f)))) (filter is_arp_frame fs))"
proof -
  let ?s = "s\<lparr>perrno := (if sock < 0 then e else perrno s), os := k'\<rparr>" and ?ps = "map (take 42) (filter is_arp_frame fs)"
  have main: "arp_main E K True heap n s = arp_listen E K sock n heap ?s" for n
    using assms(2-4) by (simp add: arp_main_def seq_run bnd_run_if call_def)
  have ok: "\<forall>p\<in>set ?ps. 42 \<le> length p \<and> length p \<le> BUFF_SIZE \<and> ntohs (read16 (drop 12 p)) = ETH_P_ARP"
    using assms(7) by (auto simp: is_arp_frame_def BUFF_SIZE_def read16_def drop_take)
  show ?thesis
    using packet_source.arp_listen_run[OF assms(1) _ assms(5) ok, of ?s "[]" E] assms(6)
    by (auto simp: main arpfilter_delivers comp_def drop_take)
qed

definition arp_demo_frame :: bytes where
  "arp_demo_frame = mac_bytes kBroadcastMac @ mac_bytes (MacAddr 2 0 0 0 0 1) @ [8, 6] @ replicate 28 0"

theorem arp_listener_reports_witness:
  "\<exists>buf t. arp_main libc_ext listen_system True (replicate BUFF_SIZE 0) 1 (tun_start [arp_demo_frame] [] False)
     = Ret buf t \<and> out t = arp_report (read_packet (replicate 28 0))"
proof -
  have "is_arp_frame arp_demo_frame"
    by (simp add: is_arp_frame_def arp_demo_frame_def ETH_P_ARP_def) code_simp
  moreover have "\<not> is_arp_frame (replicate 60 0)"
    by code_simp
  ultimately have only: "filter is_arp_frame [replicate 60 0, arp_demo_frame] = [arp_demo_frame]"
    by simp
  then show ?thesis
    using arp_listener_reports[OF dev_packets.packet_source_axioms, of "tun_start [arp_demo_frame] [] False" 0
        "os (tun_start [arp_demo_frame] [] False)" 0 "os (tun_start [arp_demo_frame] [] False)"
        "replicate BUFF_SIZE 0" "[replicate 60 0, arp_demo_frame]" libc_ext]
    by (auto simp: tun_start_def arp_demo_frame_def BUFF_SIZE_def arpfilter_delivers)
qed

text \<open>C40. \<open>raw_sockets_all.c\<close>, from its \<open>main\<close> on: on the socket it opens for the protocol number 3 in host
  byte order, where the other programs pass the number in network byte order, it prints
  every packet of at most 65536 bytes, the size of its buffer, as the hexadecimal digits of its
  bytes, one line each.\<close>

theorem raw_sockets_all_dumps:
  assumes "packet_source K sock pending" "sock \<noteq> -1"
    and "p_socket K AF_PACKET SOCK_RAW 3 (os s) = ((sock, ()), e, k)" "pending k = ps @ rest"
    and "length heap = 65536" "\<forall>p\<in>set ps. length p \<le> 65536"
  shows "\<exists>t. raw_sockets_all_main E K heap (length ps) s = Ret None t \<and> pending (os t) = rest
    \<and> out t = out s @ concat (map (\<lambda>p. concat (map hex02 p) @ endl) ps)"
proof -
  let ?s = "s\<lparr>perrno := (if sock < 0 then e else perrno s), os := k\<rparr>"
  have shown: "prints (hexdump (p @ q) (int (length p))) (concat (map hex02 p) @ endl)" for p q
    using prints_hexdump[of "length p" "p @ q"] by simp
  have "raw_sockets_all_main E K heap (length ps) s = raw_listen K hexdump sock (length ps) heap ?s"
    using assms(2,3) by (simp add: raw_sockets_all_main_def ETH_P_ALL_def bnd_run_if call_def)
  then show ?thesis
    using packet_source.raw_listen_prints[where show_packet = hexdump and f = "\<lambda>p. concat (map hex02 p) @ endl",
        OF assms(1) _ assms(5,6) shown, of ?s rest] assms(4) by simp
qed

theorem raw_sockets_all_dumps_witness:
  "\<exists>t. raw_sockets_all_main libc_ext listen_system (replicate 65536 0) 1 (tun_start [[1, 255]] [] False) = Ret None t
     \<and> out t = hex02 1 @ hex02 255 @ endl"
  using raw_sockets_all_dumps[OF dev_packets.packet_source_axioms,
      of "tun_start [[1, 255]] [] False" 0 "os (tun_start [[1, 255]] [] False)" "[[1, 255]]" "[]" "replicate 65536 0" libc_ext]
  by (auto simp: tun_start_def)

text \<open>What \<open>raw_sockets.c\<close> says of a datagram.\<close>

definition ip_report :: "IpAddr \<Rightarrow> IpAddr \<Rightarrow> nat \<Rightarrow> string" where
  "ip_report src dst n = sprintf (''Incoming Packet: '' @ endl) []
     @ sprintf (''Packet Size (bytes): %d'' @ endl) [FInt (int n)]
     @ sprintf (''Source Address: %s'' @ endl) [FStr (IpAddr_str src)]
     @ sprintf (''Destination Address: %s'' @ endl) [FStr (IpAddr_str dst)]
     @ sprintf (''Identification: %d'' @ endl @ endl) [FInt 0]"

lemma ipv4_fields:
  fixes src dst :: IpAddr and pr :: Protocol and q :: bytes
  assumes "length data \<le> 65515"
  defines "x \<equiv> ipv4_datagram src dst data pr @ q"
  shows "uint (ntohs (read16 (drop 2 x))) = int (20 + length data)" "uint (ntohs (read16 (drop 4 x))) = 0"
    "read32 (drop 12 x) = ip_addr src" "read32 (drop 16 x) = ip_addr dst"
proof -
  let ?c = "Checksum (ipv4_header src dst (length data) pr 0)"
  have x: "x = [0x45, 0] @ mem_net16 (uint16_net (word_of_nat (20 + length data))) @ [0, 0, 0, 0, 64, protocol_byte pr]
      @ mem16 ?c @ mem32 (ip_addr src) @ mem32 (ip_addr dst) @ data @ q"
    by (simp add: x_def ipv4_datagram_def ipv4_header_def mem_net16_uint16_net mem_ip_def)
  show "uint (ntohs (read16 (drop 2 x))) = int (20 + length data)"
    using assms(1) by (simp add: x mem_net16_def uint16_net_def uint_nat unat_of_nat del: of_nat_add)
  show "uint (ntohs (read16 (drop 4 x))) = 0"
    by (simp add: x read16_def) code_simp
  show "read32 (drop 12 x) = ip_addr src" "read32 (drop 16 x) = ip_addr dst"
    by (simp_all add: x)
qed

lemma prints_incoming:
  assumes "length data \<le> 65515"
  shows "prints (print_incoming (ipv4_datagram src dst data pr @ q)) (ip_report src dst (20 + length data))"
  unfolding print_incoming_def ip_report_def IpAddr_str_def ipv4_fields[OF assms]
  by (simp add: checked_def) (intro prints_seq prints_out)

text \<open>The report, from the datagram itself.\<close>

definition datagram_report :: "bytes \<Rightarrow> string" where
  "datagram_report p = ip_report (read_ip (drop 12 p)) (read_ip (drop 16 p)) (length p)"

lemma made_datagram:
  assumes "MakeDatagram src dst data pr () = Ret p ()"
  shows "datagram_report p = ip_report src dst (20 + length data)" "length p \<le> 65535"
    "prints (print_incoming (p @ q)) (datagram_report p)"
proof -
  have "data \<noteq> []" "\<not> 65516 \<le> length data"
    using assms by (auto simp: MakeDatagram_empty MakeDatagram_overflow)
  then have "data \<noteq> []" "length data \<le> 65515"
    by auto
  moreover from this have p: "p = ipv4_datagram src dst data pr"
    using assms by (simp add: MakeDatagram_ok)
  ultimately show report: "datagram_report p = ip_report src dst (20 + length data)" and "length p \<le> 65535"
    using ipv4_fields[of data src dst pr "[]"] by (simp_all add: datagram_report_def read_ip_def)
  show "prints (print_incoming (p @ q)) (datagram_report p)"
    unfolding report using prints_incoming \<open>length data \<le> 65515\<close> p by simp
qed

text \<open>C39. \<open>raw_sockets.c\<close>, from its \<open>main\<close> on, reads what \<open>ip.cc\<close> writes: for every sequence of datagrams
  that \<open>MakeDatagram\<close> makes, it prints for each its size, its source and its destination as
  \<open>IpAddr::str\<close> prints them, and the identification 0.\<close>

theorem raw_sockets_reports:
  assumes "packet_source K sock pending" "sock \<noteq> -1"
    and "p_socket K AF_INET SOCK_RAW IPPROTO_TCP (os s) = ((sock, ()), e, k)" "length heap = 65536"
    and "list_all2 (\<lambda>(src, dst, data, pr) p. MakeDatagram src dst data pr () = Ret p ()) ds ps" "pending k = ps @ rest"
  shows "\<exists>t. raw_sockets_main E K heap (length ps) s = Ret None t \<and> pending (os t) = rest
    \<and> out t = out s @ concat (map (\<lambda>(src, dst, data, pr). ip_report src dst (20 + length data)) ds)"
proof -
  let ?s = "s\<lparr>perrno := (if sock < 0 then e else perrno s), os := k\<rparr>"
  have main: "raw_sockets_main E K heap (length ps) s = raw_listen K (\<lambda>buf n. print_incoming buf) sock (length ps) heap ?s"
    using assms(2,3) by (simp add: raw_sockets_main_def bnd_run_if call_def)
  have made: "\<exists>src dst data pr. MakeDatagram src dst data pr () = Ret p ()" if "p \<in> set ps" for p
    using assms(5) that by (fastforce simp: list_all2_conv_all_nth in_set_conv_nth)
  have reports: "map datagram_report ps = map (\<lambda>(src, dst, data, pr). ip_report src dst (20 + length data)) ds"
    using assms(5) by (induction rule: list_all2_induct) (auto simp: made_datagram(1))
  have "length p \<le> 65536" if "p \<in> set ps" for p
    using made[OF that] made_datagram(2) by (fastforce dest: le_trans)
  then have len: "\<forall>p\<in>set ps. length p \<le> 65536"
    by blast
  have shown: "prints (print_incoming (p @ q)) (datagram_report p)" if "p \<in> set ps" for p q
    using made[OF that] made_datagram(3) by blast
  show ?thesis
    using packet_source.raw_listen_prints[where show_packet = "\<lambda>buf n. print_incoming buf" and f = datagram_report,
        OF assms(1) _ assms(4) len shown, of ?s rest] assms(6)
    unfolding main reports[symmetric] by simp
qed

theorem raw_sockets_reports_witness:
  "\<exists>t. raw_sockets_main libc_ext listen_system (replicate 65536 0) 1
     (tun_start [ipv4_datagram (IpAddr 1) (IpAddr 2) [1, 2, 3] Protocol_tcp] [] False) = Ret None t
     \<and> out t = ip_report (IpAddr 1) (IpAddr 2) 23"
  using raw_sockets_reports[OF dev_packets.packet_source_axioms,
      of "tun_start [ipv4_datagram (IpAddr 1) (IpAddr 2) [1, 2, 3] Protocol_tcp] [] False" 0
      "os (tun_start [ipv4_datagram (IpAddr 1) (IpAddr 2) [1, 2, 3] Protocol_tcp] [] False)" "replicate 65536 0"
      "[(IpAddr 1, IpAddr 2, [1, 2, 3], Protocol_tcp)]" "[ipv4_datagram (IpAddr 1) (IpAddr 2) [1, 2, 3] Protocol_tcp]" "[]" libc_ext]
  by (auto simp: tun_start_def MakeDatagram_ok)

end
