(* ===== verification/Spec2Isabelle.thy ===== *)
theory Spec2Isabelle
  imports Stack NetworkSim RefSockets
begin

text \<open>
  A verification of orange-tcp, a small user-space network stack for Linux: Ethernet, ARP,
  IPv4 and ICMP over packet sockets, three command line programs on top of it, and the
  reference programs its author keeps beside it.

  \<^bold>\<open>The program and the theories.\<close> The stack under \<open>orange-tcp/\<close> is a tower: each layer calls the one
  below with a \<open>Socket\<close>, and adds its own static state. Each theory models one part.

  \<^item> \<open>Prelude\<close>: bytes and machine words in memory (little endian), and the outcomes of a
    computation: a value, a C++ exception, an exit of the process, or undefined behaviour
    (\<open>Ret\<close>, \<open>Throw\<close>, \<open>Exit\<close>, \<open>Undef\<close>), with the sequencing of such computations on a state.
  \<^item> \<open>Invariants\<close>: what it means that a computation keeps an invariant, with one rule per construct,
    and the states that sequences of operations reach.
  \<^item> \<open>Libc\<close>: the parts of the C library the sources call: \<open>htons\<close> and its kin, the conversions of
    \<open>printf\<close> and \<open>sscanf\<close> in use, \<open>inet_ntoa\<close> and \<open>inet_addr\<close>.
  \<^item> \<open>Net\<close>: \<open>netint.h\<close> and \<open>net.h\<close>, and the state of a process (flags, output, \<open>errno\<close>, files, and
    whatever is behind its sockets).
  \<^item> \<open>SerializableMap\<close>: \<open>serializable_map.h\<close>, the map with a text form on disk.
  \<^item> \<open>Crc32\<close>, \<open>Socket\<close>, \<open>Eth\<close>: the frame check sequence of \<open>eth.cc\<close>, the abstract class of
    \<open>socket.h\<close>, and the Ethernet layer of \<open>eth.h\<close> and \<open>eth.cc\<close>.
  \<^item> \<open>RawSocket\<close>: \<open>raw_socket.cc\<close>, the implementation of \<open>Socket\<close> on a Linux packet socket.
  \<^item> \<open>Arp\<close>: \<open>arp.h\<close> and \<open>arp.cc\<close>; the state adds the cache and whether it has been loaded.
  \<^item> \<open>Checksum\<close>, \<open>Ip\<close>: \<open>ip.h\<close> and \<open>ip.cc\<close>; the state adds the routing table.
  \<^item> \<open>Icmp\<close>: \<open>icmp.h\<close> and \<open>icmp.cc\<close>; the state adds the sequence counter.
  \<^item> \<open>NetworkSim\<close>: \<open>network_sim.h\<close> and \<open>network_sim.cc\<close>, the simulated network for tests.
  \<^item> \<open>Apps\<close>: \<open>ping.cc\<close>, \<open>arping.cc\<close> and \<open>eth_echo.cc\<close>, with their \<open>main\<close> functions.
  \<^item> \<open>Stack\<close>: the four layers on one socket as a state machine, and its invariant.
  \<^item> \<open>Posix\<close>, \<open>SimpleTun\<close>, \<open>Sniffer\<close>, \<open>RefSockets\<close>: the programs under \<open>reference/\<close>: their
    surroundings, \<open>simpletun.c\<close>, \<open>sniffer.c\<close>, and \<open>arp.c\<close>, \<open>raw_sockets.c\<close>, \<open>raw_sockets_all.c\<close>,
    \<open>raw_socket_eth.c\<close> and \<open>tun_test.c\<close>.

  A definition has the name of the function, method or class it models, with the class in
  front where two classes share a method name (\<open>RawSocket_SendTo\<close>, \<open>FakeSocket_SendTo\<close>), the program
  where two programs share a function name (\<open>arping_Main\<close>, \<open>ping_Main\<close>). A loop or a branch that
  needs a name of its own is a definition next to the function it is part of.

  \<^bold>\<open>How code is modelled.\<close> A function is a computation on the state it can reach: \<open>'k io\<close> for the process,
  \<open>'k arp_state\<close>, \<open>'k ip_state\<close> and \<open>'k icmp_state\<close> for the layers that add static variables, \<open>'k\<close>
  being the state behind the sockets. Out parameters are arguments and part of the result. A
  struct that is sent or received is a record with its bytes in memory (\<open>mem_packet\<close>, \<open>read_packet\<close>);
  a cast of a buffer to a struct is a read of its bytes. Every access to a buffer is checked
  against its length, and one outside it is \<open>Undef\<close>, as are reading a member that was never
  initialised and a signed overflow. Copying or setting zero bytes does nothing, wherever the pointer
  points. Unsigned arithmetic wraps at its width. A file that has been written can be read.

  \<^bold>\<open>Code outside the repository.\<close> Abseil's \<open>StrFormat\<close>, \<open>strerror\<close> and the contents of uninitialised
  variables are the record \<open>ext\<close>; Abseil's \<open>ParseCommandLine\<close> is the argument \<open>parse\<close> of the \<open>main\<close>
  functions, which gives the flags or rejects the command line; the Linux kernel is the record \<open>kernel\<close> of system calls for the
  C++ code and \<open>posix\<close> for the C programs. They are arguments of the definitions. What the
  properties need of them are the locales \<open>absl_format\<close> (a byte under \<open>%02x\<close>), \<open>packet_kernel\<close>
  (\<open>packet(7)\<close>: one frame per receive, cut to the buffer; frames of at most 1514 bytes are sent),
  \<open>tunnel_os\<close> (a tun/tap device with whole packets, a stream read in pieces of any size and, while the
  other end has not closed it, written without partial writes), \<open>tunnel_host\<close> (which
  extends it by a system on which the tunnel can be set up) and \<open>packet_source\<close>. \<open>bpf_run\<close> is what the
  kernel does with a packet filter, for the three instructions that \<open>arp.c\<close> uses. Each locale is interpreted on a concrete instance, which the witnesses use:
  \<open>libc_ext\<close>, \<open>queue_kernel\<close>, \<open>tun_system\<close>, \<open>listen_system\<close>.

  \<^bold>\<open>Interfaces inside the program.\<close> The layers above \<open>Socket\<close> are verified against its contracts, the
  locales \<open>safe_socket\<close> and \<open>link_socket\<close>; \<open>RawSocket\<close> meets both over every \<open>packet_kernel\<close> (a
  \<open>sublocale\<close>), \<open>FakeSocket\<close> only the first. \<open>kept_socket\<close> is the part of the contract that needs no
  working link, what the methods leave unchanged; \<open>RawSocket\<close> meets it over every kernel. \<open>std_map\<close> is the contract of the ordered map, \<open>codec\<close> what
  \<open>serializable_map\<close> needs of a key or value type; both address types meet it.

  \<^bold>\<open>What is shown.\<close>
  \<^item> Ethernet: a frame that was sent is received with its payload; damage within four
    consecutive bytes is always detected; the bitwise CRC is the table-driven one; received
    frames of more than 18 bytes are handled inside the buffers, shorter ones are not.
  \<^item> ARP: \<open>HandleRequest\<close> refines an abstract responder; request, answer and response between two
    hosts resolve the address; the cache on file is the cache in memory, also for a later
    process; what \<open>Request\<close> and \<open>GetMac\<close> do on a hit, a miss and a reply from someone else.
  \<^item> IP and ICMP: the layout and checksum of datagrams and echo requests, routing, what is sent
    (with the next hop known, or resolved on the way) and what is received, and the sizes at
    which \<open>MakeDatagram\<close> leaves its vector.
  \<^item> The whole stack: an invariant of its state that every sequence of operations keeps, whatever
    the kernel does, with the files, flags and output that can change.
  \<^item> Programs: whole runs of the ARP client, from \<open>main\<close> on, and of the ARP server, of \<open>ping\<close> and of
    the echo server, from \<open>Main\<close> on.
  \<^item> Sockets: \<open>RecvAll\<close> ends when its bytes arrive and does not when nothing does; the caches that
    two objects share; the simulated network, on which nothing arrives unless a socket takes the
    broadcast address as its own.
  \<^item> Reference programs: the tunnel carries packets unchanged from end to end, from one \<open>main\<close> to the
    other; \<open>read_n\<close>; the option parser; the sniffer's counters, memory safety and hex dump; the
    packet filter of \<open>arp.c\<close>; the listeners' output, which agrees with the packets and datagrams of
    the stack.

  \<^bold>\<open>Bounds.\<close> Loops that end are total functions. \<open>RecvAll\<close> takes the number of turns it may run, one
  per frame and one more are shown to be enough, and \<open>None\<close> means it is still running. Servers
  and listeners run forever, so they take the number of turns to observe; each property gives
  it as the number of frames or packets. The checksum is exact up to 128 KiB, where its 32-bit sum
  cannot have lost a carry; a stored map has fewer than 2^58 entries, so that its text has fewer
  than 2^64 characters; an Ethernet payload of up to 1496 bytes fits, with the check sequence
  the program appends, into the 1514 bytes the kernel accepts.

  \<^bold>\<open>Not modelled.\<close> The unit tests, the build files and the scripts; declarations without code, and the
  usage texts that the \<open>main\<close> functions of the C++ programs register with Abseil. \<open>sleep\<close> and \<open>usleep\<close>, which change no state. What \<open>RawSocket::CreateOrDie\<close> prints on standard
  error before it exits, and the diagnostics \<open>getopt\<close> itself prints. Failure to allocate memory
  in the C++ code and failure of the receive buffers' \<open>malloc\<close>, which the reference programs do
  not check. Frames arrive only in the sense that they are in the queue when the next
  receive is made; signals and threads do not occur in the program.
\<close>

section \<open>Ethernet over a packet socket\<close>

lemma raw_link: "packet_kernel K kview open_fd idx \<Longrightarrow>
  link_socket (raw_socket E K this) (\<lambda>r. kview (kern r)) (raw_up kview open_fd idx this)"
  by (rule packet_kernel.is_link)

lemma raw_safe: "packet_kernel K kview open_fd idx \<Longrightarrow> safe_socket (raw_socket E K this)"
  using raw_link by (rule link_socket.axioms(1))

text \<open>C1. \<open>SendEthernetFrame\<close> puts exactly one frame on the link, with the header, the payload padded
  to 46 bytes and the check sequence, and a host that receives this frame gets the padded
  payload back from \<open>RecvEthernetFrame\<close>, when it asks for at least the length of the payload and
  at most 1500 bytes; for every payload of at most 1496 bytes.\<close>

theorem frame_roundtrip:
  assumes "packet_kernel KA viewA openA idxA" "packet_kernel KB viewB openB idxB"
    and "raw_up viewA openA idxA a (net s)" "raw_up viewB openB idxB b (net r)"
    and "length payload \<le> 1496" "length payload \<le> wanted" "wanted \<le> 1500"
  shows "\<exists>t frame. SendEthernetFrame EA (raw_socket EA KA a) src dst payload et s = Ret OkStatus t
    \<and> viewA (kern (net t)) = (viewA (kern (net s)))\<lparr>outbox := outbox (viewA (kern (net s))) @ [(frame, dst)]\<rparr>
    \<and> frame = eth_frame src dst payload et
    \<and> (\<forall>fs. inbox (viewB (kern (net r))) = frame # fs \<longrightarrow>
        (\<exists>u. RecvEthernetFrame EB (raw_socket EB KB b) p wanted r
            = Ret (OkStatus, payload @ replicate (46 - length payload) 0) u
          \<and> viewB (kern (net u)) = (viewB (kern (net r)))\<lparr>inbox := fs\<rparr>))"
proof -
  let ?f = "eth_frame src dst payload et"
  obtain t where t: "SendEthernetFrame EA (raw_socket EA KA a) src dst payload et s = Ret OkStatus t"
    "viewA (kern (net t)) = (viewA (kern (net s)))\<lparr>outbox := outbox (viewA (kern (net s))) @ [(?f, dst)]\<rparr>"
    using link_socket.send_frame[OF raw_link[OF assms(1)] assms(3,5), of EA EA src dst et] by blast
  have len: "18 < length ?f" "length ?f \<le> max 46 wanted + 18"
    using assms(6) by (auto simp: length_eth_frame)
  have "\<exists>u. RecvEthernetFrame EB (raw_socket EB KB b) p wanted r
        = Ret (OkStatus, payload @ replicate (46 - length payload) 0) u
      \<and> viewB (kern (net u)) = (viewB (kern (net r)))\<lparr>inbox := fs\<rparr>"
    if "inbox (viewB (kern (net r))) = ?f # fs" for fs
    using link_socket.recv_next_frame[OF raw_link[OF assms(2)] assms(4) that assms(7) len, of EB EB p]
    by (auto simp: fcs_ok_eth_frame eth_payload_eth_frame)
  with t show ?thesis by blast
qed

definition demo_frame :: bytes where
  "demo_frame = eth_frame (MacAddr 2 66 172 17 0 2) (MacAddr 2 66 172 17 0 3) [1, 2, 3] kEtherTypeIp"

theorem frame_roundtrip_witness:
  "(\<exists>t. SendEthernetFrame libc_ext (raw_socket libc_ext queue_kernel 0) (MacAddr 2 66 172 17 0 2) (MacAddr 2 66 172 17 0 3)
        [1, 2, 3] kEtherTypeIp (raw_start (link_start [])) = Ret OkStatus t)
   \<and> (\<exists>u. RecvEthernetFrame libc_ext (raw_socket libc_ext queue_kernel 0) [] 46 (raw_start (link_start [demo_frame]))
        = Ret (OkStatus, [1, 2, 3] @ replicate 43 0) u)"
  using frame_roundtrip[OF qk.packet_kernel_axioms qk.packet_kernel_axioms, of 0 "raw_start (link_start [])"
      0 "raw_start (link_start [demo_frame])" "[1, 2, 3]" 46 libc_ext "MacAddr 2 66 172 17 0 2"
      "MacAddr 2 66 172 17 0 3" kEtherTypeIp libc_ext "[]"]
  by (auto simp: demo_frame_def)

text \<open>C5. A frame that was damaged on the way within four consecutive bytes, wherever they are, is
  rejected with a CRC mismatch and the caller's payload stays as it was, when the receiver asks
  for at least the length of the payload and at most 1500 bytes.\<close>

theorem damaged_frame_rejected:
  assumes "packet_kernel K kview open_fd idx" "raw_up kview open_fd idx this (net s)"
    and "eth_frame src dst payload et = x @ d @ y" "length d' = length d" "length d \<le> 4" "d' \<noteq> d"
    and "inbox (kview (kern (net s))) = (x @ d' @ y) # fs" "length payload \<le> wanted" "wanted \<le> 1500"
  shows "\<exists>t. RecvEthernetFrame E (raw_socket E K this) p wanted s = Ret (crc_mismatch E (x @ d' @ y), p) t
    \<and> kview (kern (net t)) = (kview (kern (net s)))\<lparr>inbox := fs\<rparr>"
proof -
  have len: "length (x @ d' @ y) = 18 + max 46 (length payload)"
    using arg_cong[OF assms(3), of length] assms(4) by (simp add: length_eth_frame)
  have "\<not> fcs_ok (x @ d' @ y)"
    using fcs_burst[of x d y d'] fcs_ok_eth_frame[of src dst payload et] assms(3-6) len by simp
  moreover have "18 < length (x @ d' @ y)" "length (x @ d' @ y) \<le> max 46 wanted + 18"
    unfolding len using assms(8) by auto
  ultimately show ?thesis
    using link_socket.recv_next_frame[OF raw_link[OF assms(1)] assms(2,7,9), of E E p] by auto
qed

theorem damaged_frame_rejected_witness:
  "\<exists>t. RecvEthernetFrame libc_ext (raw_socket libc_ext queue_kernel 0) [9] 46
     (raw_start (link_start [[7] @ drop 1 demo_frame])) = Ret (crc_mismatch libc_ext ([7] @ drop 1 demo_frame), [9]) t"
proof -
  have f: "eth_frame (MacAddr 2 66 172 17 0 2) (MacAddr 2 66 172 17 0 3) [1, 2, 3] kEtherTypeIp
      = [] @ [2] @ drop 1 demo_frame"
    by (simp add: demo_frame_def eth_frame_def eth_body_def)
  show ?thesis
    using damaged_frame_rejected[OF qk.packet_kernel_axioms, of 0 "raw_start (link_start [[7] @ drop 1 demo_frame])"
        "MacAddr 2 66 172 17 0 2" "MacAddr 2 66 172 17 0 3" "[1, 2, 3]" kEtherTypeIp "[]" "[2]" "drop 1 demo_frame" "[7]" "[]" 46
        libc_ext "[9]"] f
    by auto
qed

text \<open>C9. As long as the socket delivers no frame of 18 bytes or less, \<open>RecvEthernetFrame\<close> stays inside
  its buffers and returns, whatever the frame holds: on success with a non-empty payload of
  at most 46 bytes or the size asked for, whichever is larger, since a smaller request is
  raised to 46; on failure with the caller's payload unchanged.\<close>

theorem recv_memory_safe:
  assumes "packet_kernel K kview open_fd idx"
    and "\<And>r bs t. RawSocket_Recv K this (max 46 wanted + 18) s = Ret (r, bs) t \<Longrightarrow> r \<noteq> -1 \<Longrightarrow> 18 < r"
  shows "\<exists>st q t. RecvEthernetFrame E (raw_socket E K this) p wanted s = Ret (st, q) t
    \<and> (if status_ok st then 0 < length q \<and> length q \<le> max 46 wanted else q = p)"
  using safe_socket.recv_ethernet_returns[OF raw_safe[OF assms(1)], of E this wanted s E p] assms(2)
  by (simp add: raw_socket_def)

theorem recv_memory_safe_witness:
  "\<exists>st q t. RecvEthernetFrame libc_ext (raw_socket libc_ext queue_kernel 0) [] 100
     (raw_start (link_start [replicate 19 0])) = Ret (st, q) t"
  using recv_memory_safe[OF qk.packet_kernel_axioms, of 0 100 "raw_start (link_start [replicate 19 0])" libc_ext "[]"]
  by (auto simp: RawSocket_Recv_def queue_kernel_def raw_start_def seq_run printf_def bnd_run_if get_fd_def syscall_def)

text \<open>C31. A received frame shorter than the Ethernet header and check sequence makes the program leave
  its buffer: always below 4 bytes, and below 18 bytes when frames are dumped.\<close>

theorem short_frame_undefined:
  assumes "packet_kernel K kview open_fd idx" "raw_up kview open_fd idx this (net s)"
    and "inbox (kview (kern (net s))) = f # fs" "wanted \<le> 1500"
    and "length f < 4 \<or> length f < 18 \<and> dump_ethernet (flags s)"
  shows "RecvEthernetFrame E (raw_socket E K this) p wanted s = Undef"
proof -
  let ?n = "max 46 wanted + 18" and ?buf = "memcpy (replicate (max 46 wanted + 18) 0) 0 f"
  obtain t where t: "Recv (raw_socket E K this) ?n s = Ret (int (length f), f) t" "same_files s t"
    using link_socket.recv_frame[OF raw_link[OF assms(1)] assms(2,3), of E ?n] assms(5) by auto
  have ps: "(if wanted < kEthernetPayloadMin then kEthernetPayloadMin else wanted) = max 46 wanted"
    by (simp add: kEthernetPayloadMin_def max_def)
  have le: "\<not> 1500 < max 46 wanted" and size: "size_t (int (length f)) = length f"
    using assms(4,5) by auto
  have short: "length f < 18"
    using assms(5) by auto
  then have "length ?buf = ?n"
    by simp
  then have dump: "DumpEthernetFrame E ?buf (length f) t = Undef"
    using assms(4) short by (intro DumpEthernetFrame_short) (simp_all add: eth_sizes)
  show ?thesis
    using assms(5) short le t dump size unfolding RecvEthernetFrame_def Let_def ps
    by (cases "dump_ethernet (flags s)")
      (simp_all add: eth_sizes bnd_run_if seq_run same_files_def checked_def)
qed

theorem short_frame_undefined_witness:
  "RecvEthernetFrame libc_ext (raw_socket libc_ext queue_kernel 0) [] 46 (raw_start (link_start [[1, 2, 3]])) = Undef"
  using short_frame_undefined[OF qk.packet_kernel_axioms, of 0 "raw_start (link_start [[1, 2, 3]])" "[1, 2, 3]" "[]" 46
      libc_ext "[]"]
  by simp

text \<open>C32. When the interface index is not cached and cannot be read, \<open>RawSocket::SendTo\<close> returns -123 and
  leaves the kernel as the failed request left it, so nothing is sent; and \<open>SendEthernetFrame\<close>,
  which only tests for -1, still reports success, for a payload of at most 1500 bytes and
  without frame dumps.\<close>

theorem send_failure_reported_ok:
  assumes "sys_ifindex K (fd (objs (net s) this)) kEthDevice (kern (net s)) = ((-1, i), e, k)"
    and "\<not> index_cached (net s)" "\<not> dump_ethernet (flags s)" "length payload \<le> 1500"
  shows "(\<exists>t. RawSocket_SendTo E K this (eth_frame src dst payload et) dst s = Ret (-123) t \<and> kern (net t) = k)
    \<and> (\<exists>t. SendEthernetFrame E (raw_socket E K this) src dst payload et s = Ret OkStatus t \<and> kern (net t) = k)"
proof -
  have "\<exists>t. RawSocket_SendTo E K this f dst s = Ret (-123) t \<and> kern (net t) = k" for f
    using assms(1,2)
    by (simp add: RawSocket_SendTo_def RawSocket_MakeSockAddr_def RawSocket_GetInterfaceIndex_def bnd_run_if
        get_fd_def syscall_def get_strerror_def)
  from this[of "eth_frame src dst payload et"] show ?thesis
    using assms(3,4) by (auto simp: SendEthernetFrame_eq kEthernetPayloadMax_def bnd_run_if seq_run raw_socket_def)
qed

theorem send_failure_reported_ok_witness:
  "(\<exists>t. RawSocket_SendTo libc_ext (queue_kernel\<lparr>sys_ifindex := (\<lambda>f name k. ((-1, 0), 19, k))\<rparr>) 0
      (eth_frame kBroadcastMac kBroadcastMac [1] kEtherTypeIp) kBroadcastMac (raw_start (link_start [])) = Ret (-123) t
      \<and> kern (net t) = link_start [])
   \<and> (\<exists>t. SendEthernetFrame libc_ext (raw_socket libc_ext (queue_kernel\<lparr>sys_ifindex := (\<lambda>f name k. ((-1, 0), 19, k))\<rparr>) 0)
      kBroadcastMac kBroadcastMac [1] kEtherTypeIp (raw_start (link_start [])) = Ret OkStatus t
      \<and> kern (net t) = link_start [])"
  by (rule send_failure_reported_ok) (simp_all add: raw_start_def default_flags_def)

section \<open>ARP\<close>

text \<open>C13. With a cache in memory or a cache file that can be parsed, \<open>Request\<close> for an address in the cache, in memory or still on file, returns the cached MAC
  address and sends nothing; for any other address it broadcasts one ARP request for that
  address, carrying this host's addresses, and returns OK.\<close>

theorem arp_request_hit_or_miss:
  assumes "packet_kernel K kview open_fd idx" "raw_up kview open_fd idx this (net (sys w))" "arp_view E w = Some m"
  defines "l \<equiv> kview (kern (net (sys w)))"
  shows "case map_find m ip of
      Some mac \<Rightarrow> \<exists>w'. Request E (raw_socket E K this) ip mo w = Ret (AlreadyExistsError ''MAC found'', mac) w'
        \<and> kview (kern (net (sys w'))) = l
    | None \<Rightarrow> \<exists>w'. Request E (raw_socket E K this) ip mo w = Ret (OkStatus, mo) w'
        \<and> kview (kern (net (sys w'))) = l\<lparr>outbox := outbox l @ [(arp_request_frame l ip, kBroadcastMac)]\<rparr>"
proof (cases "map_find m ip")
  case None
  then show ?thesis
    using link_socket.request_miss[OF raw_link[OF assms(1)] assms(2,3), of ip E mo] by (auto simp: l_def)
next
  case (Some mac)
  then show ?thesis
    using Request_hit[OF assms(3) Some, of "raw_socket E K this" mo] by (simp add: l_def)
qed

definition arp_start :: "link \<Rightarrow> (IpAddr, MacAddr) smap \<Rightarrow> link raw arp_state" where
  "arp_start l m = \<lparr>sys = raw_start l, g_arp_cache = m, arp_loaded = True\<rparr>"

lemma arp_start_simps [simp]: "sys (arp_start l m) = raw_start l" "arp_view E (arp_start l m) = Some m"
  by (simp_all add: arp_start_def arp_view_def)

text \<open>The same state in a process started with \<open>--server\<close>.\<close>

definition server_start :: "link raw arp_state \<Rightarrow> link raw arp_state" where
  "server_start w = w\<lparr>sys := (sys w)\<lparr>flags := (flags (sys w))\<lparr>server := True\<rparr>\<rparr>\<rparr>"

lemma server_start_simps [simp]:
  "server (flags (sys (server_start w)))" "net (sys (server_start w)) = net (sys w)"
  by (simp_all add: server_start_def)

theorem arp_request_hit_or_miss_witness:
  "(\<exists>w'. Request libc_ext (raw_socket libc_ext queue_kernel 0) (IpAddr 9) kBroadcastMac
        (arp_start (link_start []) [(IpAddr 9, MacAddr 1 2 3 4 5 6)])
      = Ret (AlreadyExistsError ''MAC found'', MacAddr 1 2 3 4 5 6) w')
   \<and> (\<exists>w'. Request libc_ext (raw_socket libc_ext queue_kernel 0) (IpAddr 9) kBroadcastMac (arp_start (link_start []) [])
      = Ret (OkStatus, kBroadcastMac) w')"
  using arp_request_hit_or_miss[OF qk.packet_kernel_axioms, of 0 "arp_start (link_start []) [(IpAddr 9, MacAddr 1 2 3 4 5 6)]"
      libc_ext "[(IpAddr 9, MacAddr 1 2 3 4 5 6)]" "IpAddr 9" kBroadcastMac]
    arp_request_hit_or_miss[OF qk.packet_kernel_axioms, of 0 "arp_start (link_start []) []" libc_ext "[]" "IpAddr 9" kBroadcastMac]
  by (auto simp: map_find_def)

text \<open>C3. \<open>HandleRequest\<close> refines the abstract ARP responder: for every frame of 46 to 64 bytes it sends
  exactly the frames \<open>arp_answer\<close> gives, one reply to a request for this host's address and
  nothing otherwise; a damaged frame or another opcode is an error.\<close>

theorem arp_responder_refinement:
  assumes "packet_kernel K kview open_fd idx" "raw_up kview open_fd idx this (net (sys w))"
    and "inbox (kview (kern (net (sys w)))) = f # fs" "46 \<le> length f" "length f \<le> 64"
  defines "l \<equiv> (kview (kern (net (sys w))))\<lparr>inbox := fs\<rparr>" and "p \<equiv> read_packet (eth_payload f)"
  shows "\<exists>st w'. HandleRequest E (raw_socket E K this) w = Ret st w'
    \<and> (status_ok st \<longleftrightarrow> fcs_ok f \<and> uint16_of_net (opcode p) = 1)
    \<and> kview (kern (net (sys w'))) = l\<lparr>outbox := outbox l @ (if fcs_ok f then arp_answer l p else [])\<rparr>"
  using link_socket.handle_request[OF raw_link[OF assms(1)] assms(2-5), of E E]
  unfolding l_def p_def by (auto simp: crc_mismatch_def not_opcode_def)

theorem arp_responder_refinement_witness:
  "\<exists>w'. HandleRequest libc_ext (raw_socket libc_ext queue_kernel 0)
      (arp_start (link_start [arp_request_frame (link_start []) (IpAddr 0x020011AC)]) []) = Ret OkStatus w'
     \<and> length (outbox (kern (net (sys w')))) = 1"
  using arp_responder_refinement[OF qk.packet_kernel_axioms, of 0
      "arp_start (link_start [arp_request_frame (link_start []) (IpAddr 0x020011AC)]) []"
      "arp_request_frame (link_start []) (IpAddr 0x020011AC)" "[]" libc_ext]
  by (auto simp: arp_frame_facts arp_answer_def status_ok_def)

text \<open>C2. ARP resolution between two hosts: host A's request for B's address makes B answer, and the
  answer makes A return B's MAC address and remember it.\<close>

theorem arp_resolution:
  assumes "packet_kernel KA viewA openA idxA" "packet_kernel KB viewB openB idxB"
    and "raw_up viewA openA idxA a (net (sys w))" "raw_up viewB openB idxB b (net (sys x))"
    and "arp_view E w = Some m" "map_ok m" "map_find m (link_ip (viewB (kern (net (sys x))))) = None"
  defines "lA \<equiv> viewA (kern (net (sys w)))" and "lB \<equiv> viewB (kern (net (sys x)))"
  shows "\<exists>w1. Request E (raw_socket E KA a) (link_ip lB) mo w = Ret (OkStatus, mo) w1
    \<and> outbox (viewA (kern (net (sys w1)))) = outbox lA @ [(arp_request_frame lA (link_ip lB), kBroadcastMac)]
    \<and> (\<forall>fs. inbox lB = arp_request_frame lA (link_ip lB) # fs \<longrightarrow>
        (\<exists>x1 g. HandleRequest E' (raw_socket E' KB b) x = Ret OkStatus x1
          \<and> outbox (viewB (kern (net (sys x1)))) = outbox lB @ [(g, link_mac lA)]
          \<and> (\<forall>w2 gs. raw_up viewA openA idxA a (net (sys w2)) \<and> arp_view E w2 = Some m
                \<and> inbox (viewA (kern (net (sys w2)))) = g # gs \<longrightarrow>
              (\<exists>w3. HandleResponse E (raw_socket E KA a) mo w2 = Ret (OkStatus, link_mac lB) w3
                \<and> map_find (g_arp_cache w3) (link_ip lB) = Some (link_mac lB)))))"
proof -
  let ?f = "arp_request_frame lA (link_ip lB)"
  let ?q = "make_arp_packet kArpResponse (link_mac lB) (link_ip lB) (link_mac lA) (link_ip lA)"
  let ?g = "eth_frame (link_mac lB) (link_mac lA) (mem_packet ?q) kEtherTypeArp"
  obtain w1 where w1: "Request E (raw_socket E KA a) (link_ip lB) mo w = Ret (OkStatus, mo) w1"
    "outbox (viewA (kern (net (sys w1)))) = outbox lA @ [(?f, kBroadcastMac)]"
    using link_socket.request_miss[OF raw_link[OF assms(1)] assms(3,5,7), of E mo] by (auto simp: lA_def lB_def)
  have answer: "\<exists>x1. HandleRequest E' (raw_socket E' KB b) x = Ret OkStatus x1
      \<and> outbox (viewB (kern (net (sys x1)))) = outbox lB @ [(?g, link_mac lA)]" if "inbox lB = ?f # fs" for fs
    using link_socket.handle_request[OF raw_link[OF assms(2)] assms(4), of ?f fs E' E'] that
    by (auto simp: lB_def arp_frame_facts arp_answer_def arp_reply_def)
  have learn: "\<exists>w3. HandleResponse E (raw_socket E KA a) mo w2 = Ret (OkStatus, link_mac lB) w3
      \<and> map_find (g_arp_cache w3) (link_ip lB) = Some (link_mac lB)"
    if "raw_up viewA openA idxA a (net (sys w2))" "arp_view E w2 = Some m" "inbox (viewA (kern (net (sys w2)))) = ?g # gs"
    for w2 gs
    using link_socket.handle_response[OF raw_link[OF assms(1)] that(1,3) _ _ that(2), of E mo] map_find_map_put[OF assms(6)]
    by (auto simp: arp_reply_facts Let_def)
  show ?thesis
    using w1 answer learn by blast
qed

definition link_b :: "bytes list \<Rightarrow> link" where
  "link_b fs = \<lparr>inbox = fs, outbox = [], link_mac = MacAddr 2 66 172 17 0 3, link_ip = IpAddr 0x030011AC\<rparr>"

lemma link_b_simps [simp]:
  "inbox (link_b fs) = fs" "outbox (link_b fs) = []"
  "link_mac (link_b fs) = MacAddr 2 66 172 17 0 3" "link_ip (link_b fs) = IpAddr 0x030011AC"
  by (simp_all add: link_b_def)

theorem arp_resolution_witness:
  "\<exists>x1 g w3. HandleRequest libc_ext (raw_socket libc_ext queue_kernel 0)
       (arp_start (link_b [arp_request_frame (link_start []) (IpAddr 0x030011AC)]) []) = Ret OkStatus x1
     \<and> outbox (kern (net (sys x1))) = [(g, MacAddr 2 66 172 17 0 2)]
     \<and> HandleResponse libc_ext (raw_socket libc_ext queue_kernel 0) kBroadcastMac (arp_start (link_start [g]) [])
         = Ret (OkStatus, MacAddr 2 66 172 17 0 3) w3"
proof -
  let ?x = "arp_start (link_b [arp_request_frame (link_start []) (IpAddr 0x030011AC)]) []"
  have m: "map_ok ([] :: (IpAddr, MacAddr) smap)" "map_find ([] :: (IpAddr, MacAddr) smap) ip = None" for ip
    by (simp_all add: map_ok_def map_find_def)
  obtain x1 g where "HandleRequest libc_ext (raw_socket libc_ext queue_kernel 0) ?x = Ret OkStatus x1"
    "outbox (kern (net (sys x1))) = [(g, MacAddr 2 66 172 17 0 2)]"
    and learn: "\<forall>w2. raw_up (\<lambda>k. k) (\<lambda>f k. f = 3) 2 0 (net (sys w2)) \<and> arp_view libc_ext w2 = Some []
        \<and> (\<exists>gs. inbox (kern (net (sys w2))) = g # gs) \<longrightarrow>
      (\<exists>w3. HandleResponse libc_ext (raw_socket libc_ext queue_kernel 0) kBroadcastMac w2
        = Ret (OkStatus, MacAddr 2 66 172 17 0 3) w3 \<and> map_find (g_arp_cache w3) (IpAddr 0x030011AC)
        = Some (MacAddr 2 66 172 17 0 3))"
    using arp_resolution[OF qk.packet_kernel_axioms qk.packet_kernel_axioms, of 0 "arp_start (link_start []) []" 0 ?x
        libc_ext "[]" kBroadcastMac libc_ext] m
    by auto
  moreover have "\<exists>w3. HandleResponse libc_ext (raw_socket libc_ext queue_kernel 0) kBroadcastMac (arp_start (link_start [g]) [])
      = Ret (OkStatus, MacAddr 2 66 172 17 0 3) w3"
    using learn[THEN spec, of "arp_start (link_start [g]) []"] by auto
  ultimately show ?thesis
    by blast
qed

text \<open>C8. A MAC address that \<open>HandleResponse\<close> has learnt, from a valid reply in a frame of 46 to 64
  bytes, survives the process: if the cache file can be
  written, a later process that starts with the same files and flags answers a request for
  that address from the file, without sending anything.\<close>

theorem arp_cache_persists:
  assumes "absl_format E" "packet_kernel K kview open_fd idx" "raw_up kview open_fd idx this (net (sys w))"
    and "arp_view E w = Some m" "map_ok m" "length m < 2 ^ 57" "writable (sys w) (arp_cache (flags (sys w)))"
    and "inbox (kview (kern (net (sys w)))) = f # fs" "46 \<le> length f" "length f \<le> 64" "fcs_ok f"
    and "uint16_of_net (opcode (read_packet (eth_payload f))) = 2"
  defines "p \<equiv> read_packet (eth_payload f)"
  shows "\<exists>w'. HandleResponse E (raw_socket E K this) mo w = Ret (OkStatus, src_hw_addr p) w'
    \<and> (\<forall>y sk mo'. \<not> arp_loaded y \<and> g_arp_cache y = [] \<and> same_files (sys w') (sys y) \<longrightarrow>
        (\<exists>y'. Request E sk (src_ip_addr p) mo' y = Ret (AlreadyExistsError ''MAC found'', src_hw_addr p) y'
          \<and> sys y' = sys y))"
proof -
  let ?m = "map_put (src_ip_addr p) (src_hw_addr p) m"
  obtain i where i: "HandleResponse E (raw_socket E K this) mo w = Ret (OkStatus, src_hw_addr p)
      (w\<lparr>sys := write_file (arp_cache (flags i)) (serialize IpAddr_str (MacAddr_str E) ?m) i,
         g_arp_cache := ?m, arp_loaded := True\<rparr>)" "same_files (sys w) i"
    using link_socket.handle_response[OF raw_link[OF assms(2)] assms(3,8-10,4), of E mo] assms(11,12)
    by (auto simp: Let_def p_def)
  have small: "length (map_put k v n) \<le> Suc (length n)" for k v and n :: "(IpAddr, MacAddr) smap"
    by (induction k v n rule: map_put.induct) auto
  have read: "deserialize IpAddr_FromString (MacAddr_FromString E) (serialize IpAddr_str (MacAddr_str E) ?m) [] = Some ?m"
    using assms(6) small[of "src_ip_addr p" "src_hw_addr p" m]
    by (intro serializable_map.deserialize_serialize_empty[OF absl_format.is_serializable_map[OF assms(1)]]
        le_less_trans[OF absl_format.length_serialize[OF assms(1)]] map_ok_map_put assms(5)) simp
  let ?w = "write_file (arp_cache (flags i)) (serialize IpAddr_str (MacAddr_str E) ?m) i"
  have "arp_view E y = Some ?m" if "\<not> arp_loaded y" "g_arp_cache y = []" "same_files ?w (sys y)" for y
    using that read i(2) assms(7) by (auto simp: arp_view_def same_files_def read_file_def write_file_def)
  moreover have "map_find ?m (src_ip_addr p) = Some (src_hw_addr p)"
    by (simp add: map_find_map_put[OF assms(5)])
  ultimately have "Request E sk (src_ip_addr p) mo' y = Ret (AlreadyExistsError ''MAC found'', src_hw_addr p)
      (y\<lparr>g_arp_cache := ?m, arp_loaded := True\<rparr>)"
    if "\<not> arp_loaded y" "g_arp_cache y = []" "same_files ?w (sys y)" for y sk mo'
    using that by (intro Request_hit) auto
  with i(1) show ?thesis
    by auto
qed

theorem arp_cache_persists_witness:
  "\<exists>w'. HandleResponse libc_ext (raw_socket libc_ext queue_kernel 0) kBroadcastMac (arp_start (link_start [reply_frame]) [])
     = Ret (OkStatus, MacAddr 2 66 172 17 0 3) w'
   \<and> (\<exists>y'. Request libc_ext (raw_socket libc_ext queue_kernel 0) (IpAddr 0x030011AC) kBroadcastMac
         (w'\<lparr>g_arp_cache := [], arp_loaded := False\<rparr>)
       = Ret (AlreadyExistsError ''MAC found'', MacAddr 2 66 172 17 0 3) y')"
proof -
  let ?w = "arp_start (link_start [reply_frame]) []"
  have "map_ok ([] :: (IpAddr, MacAddr) smap)" "writable (sys ?w) (arp_cache (flags (sys ?w)))"
    "inbox (kern (net (sys ?w))) = reply_frame # []" "46 \<le> length reply_frame" "length reply_frame \<le> 64"
    "uint16_of_net (opcode (read_packet (eth_payload reply_frame))) = 2"
    by (simp_all add: map_ok_def raw_start_def reply_frame_facts)
  then obtain w' where "HandleResponse libc_ext (raw_socket libc_ext queue_kernel 0) kBroadcastMac ?w
      = Ret (OkStatus, MacAddr 2 66 172 17 0 3) w'"
    and later: "\<And>y sk mo'. \<not> arp_loaded y \<and> g_arp_cache y = [] \<and> same_files (sys w') (sys y) \<Longrightarrow>
        \<exists>y'. Request libc_ext sk (IpAddr 0x030011AC) mo' y = Ret (AlreadyExistsError ''MAC found'', MacAddr 2 66 172 17 0 3) y'"
    using arp_cache_persists[OF libc.absl_format_axioms qk.packet_kernel_axioms, of 0 ?w "[]" reply_frame "[]" kBroadcastMac]
    by (fastforce simp: reply_frame_facts)
  then show ?thesis
    using later[of "w'\<lparr>g_arp_cache := [], arp_loaded := False\<rparr>"] by auto
qed

text \<open>C33. \<open>GetMac\<close> takes any ARP reply for an answer: when the address is not cached and the next frame,
  of 46 to 64 bytes, is a valid reply from another address, it returns the sender of that reply, and files it
  under the sender's address.\<close>

theorem GetMac_accepts_any_reply:
  assumes "packet_kernel K kview open_fd idx" "raw_up kview open_fd idx this (net (sys w))"
    and "arp_view E w = Some m" "map_ok m" "map_find m ip = None"
    and "inbox (kview (kern (net (sys w)))) = f # fs" "46 \<le> length f" "length f \<le> 64" "fcs_ok f"
    and "uint16_of_net (opcode (read_packet (eth_payload f))) = 2" "src_ip_addr (read_packet (eth_payload f)) \<noteq> ip"
  defines "p \<equiv> read_packet (eth_payload f)"
  shows "\<exists>w'. GetMac E (raw_socket E K this) ip w = Ret (Inr (src_hw_addr p)) w'
    \<and> map_find (g_arp_cache w') (src_ip_addr p) = Some (src_hw_addr p) \<and> map_find (g_arp_cache w') ip = None"
  using link_socket.get_mac_miss[OF raw_link[OF assms(1)] assms(2,6-10,3,5), of E] map_find_map_put[OF assms(4)] assms(5,11)
  by (auto simp: p_def)

theorem GetMac_accepts_any_reply_witness:
  "\<exists>w'. GetMac libc_ext (raw_socket libc_ext queue_kernel 0) (IpAddr 7) (arp_start (link_start [reply_frame]) [])
     = Ret (Inr (MacAddr 2 66 172 17 0 3)) w'"
  using GetMac_accepts_any_reply[OF qk.packet_kernel_axioms, of 0 "arp_start (link_start [reply_frame]) []"
      libc_ext "[]" "IpAddr 7" reply_frame "[]"]
  by (auto simp: reply_frame_facts map_ok_def map_find_def)

section \<open>Datagrams\<close>

text \<open>C7. \<open>SendDatagram\<close> with 1 to 1476 bytes of data. The next hop is the gateway of the default route when there is one, whatever
  other routes say; otherwise the gateway for the destination; otherwise the destination
  itself. With the next hop in the ARP cache, one frame is sent, to that host's MAC address,
  which holds the IPv4 datagram from this host to the destination. With another next hop and
  a valid ARP reply waiting in a frame of 46 to 64 bytes, the request for it is broadcast first, and the frame goes to the
  sender of the reply.\<close>

theorem datagram_sent:
  fixes dst :: IpAddr
  assumes "packet_kernel K kview open_fd idx" "raw_up kview open_fd idx this (net (sys (arp w)))"
    and "route_view w = Some rt" "arp_view E (arp w) = Some m" "data \<noteq> []" "length data \<le> 1476"
  defines "l \<equiv> kview (kern (net (sys (arp w))))"
    and "hop \<equiv> (case map_find rt kDefaultDst of Some gateway \<Rightarrow> gateway
          | None \<Rightarrow> (case map_find rt dst of Some gateway \<Rightarrow> gateway | None \<Rightarrow> dst))"
  shows "case map_find m hop of
      Some dmac \<Rightarrow> \<exists>w'. SendDatagram E (raw_socket E K this) dst data pr w = Ret OkStatus w'
        \<and> kview (kern (net (sys (arp w')))) = l\<lparr>outbox := outbox l @ [ip_frame l dmac dst data pr]\<rparr>
    | None \<Rightarrow> \<forall>f fs. inbox l = f # fs \<and> 46 \<le> length f \<and> length f \<le> 64 \<and> fcs_ok f
          \<and> uint16_of_net (opcode (read_packet (eth_payload f))) = 2 \<longrightarrow>
        (\<exists>w'. SendDatagram E (raw_socket E K this) dst data pr w = Ret OkStatus w'
          \<and> kview (kern (net (sys (arp w')))) = l\<lparr>inbox := fs, outbox := outbox l @
              [(arp_request_frame l hop, kBroadcastMac), ip_frame l (src_hw_addr (read_packet (eth_payload f))) dst data pr]\<rparr>)"
proof (cases "map_find m hop")
  case None
  then show ?thesis
    using link_socket.send_datagram_miss[OF raw_link[OF assms(1), of E this] assms(2-4) _ assms(5,6), of dst _ _ pr]
    by (simp add: hop_def l_def ip_frame_def route_def)
next
  case (Some dmac)
  then show ?thesis
    using link_socket.send_datagram[OF raw_link[OF assms(1), of E this] assms(2-4) _ assms(5,6), of dst dmac pr]
    by (fastforce simp: hop_def l_def ip_frame_def route_def)
qed

definition ip_start :: "link \<Rightarrow> (IpAddr, MacAddr) smap \<Rightarrow> (IpAddr, IpAddr) smap \<Rightarrow> link raw ip_state" where
  "ip_start l m rt = \<lparr>arp = arp_start l m, g_routing_table = rt, routes_loaded = True\<rparr>"

lemma ip_start_simps [simp]: "arp (ip_start l m rt) = arp_start l m" "route_view (ip_start l m rt) = Some rt"
  by (simp_all add: ip_start_def route_view_def)

theorem datagram_sent_witness:
  "(\<exists>w'. SendDatagram libc_ext (raw_socket libc_ext queue_kernel 0) (IpAddr 9) [1, 2] Protocol_udp
      (ip_start (link_start []) [(IpAddr 1, kBroadcastMac)] [(kDefaultDst, IpAddr 1)]) = Ret OkStatus w')
   \<and> (\<exists>w'. SendDatagram libc_ext (raw_socket libc_ext queue_kernel 0) (IpAddr 9) [1, 2] Protocol_udp
      (ip_start (link_start [reply_frame]) [] [(IpAddr 9, IpAddr 0x030011AC)]) = Ret OkStatus w'
      \<and> length (outbox (kern (net (sys (arp w'))))) = 2)"
  using datagram_sent[OF qk.packet_kernel_axioms, of 0 "ip_start (link_start []) [(IpAddr 1, kBroadcastMac)] [(kDefaultDst, IpAddr 1)]"
      "[(kDefaultDst, IpAddr 1)]" libc_ext "[(IpAddr 1, kBroadcastMac)]" "[1, 2]" "IpAddr 9" Protocol_udp]
    datagram_sent[OF qk.packet_kernel_axioms, of 0 "ip_start (link_start [reply_frame]) [] [(IpAddr 9, IpAddr 0x030011AC)]"
      "[(IpAddr 9, IpAddr 0x030011AC)]" libc_ext "[]" "[1, 2]" "IpAddr 9" Protocol_udp]
  by (auto simp: map_find_def kDefaultDst_def reply_frame_facts)

text \<open>C17. \<open>RecvDatagram\<close> for \<open>n\<close> bytes returns the \<open>n\<close> data bytes of the frame that \<open>SendDatagram\<close> sends for
  data of that length, up to 1462 bytes.\<close>

theorem datagram_received:
  assumes "packet_kernel K kview open_fd idx" "raw_up kview open_fd idx this (net (sys (arp w)))"
    and "inbox (kview (kern (net (sys (arp w))))) = eth_frame src dst (ipv4_datagram sip dip data pr) kEtherTypeIp # fs"
    and "length data \<le> 1462"
  shows "\<exists>w'. RecvDatagram E (raw_socket E K this) buf (length data) w = Ret (OkStatus, data) w'
    \<and> kview (kern (net (sys (arp w')))) = (kview (kern (net (sys (arp w)))))\<lparr>inbox := fs\<rparr>"
proof -
  let ?f = "eth_frame src dst (ipv4_datagram sip dip data pr) kEtherTypeIp"
  have len: "38 + length data \<le> length ?f" "length ?f \<le> max 64 (56 + length data)"
    by (auto simp: length_eth_frame)
  have "take (length data) (drop 20 (eth_payload ?f)) = data"
    by (simp add: eth_payload_eth_frame ipv4_datagram_def)
  then show ?thesis
    using link_socket.recv_datagram[OF raw_link[OF assms(1), of E this] assms(2-4) len, of E buf]
    by (auto simp: fcs_ok_eth_frame)
qed

definition datagram_frame :: bytes where
  "datagram_frame = eth_frame (MacAddr 2 66 172 17 0 3) (MacAddr 2 66 172 17 0 2)
     (ipv4_datagram (IpAddr 0x030011AC) (IpAddr 0x020011AC) (echo_message 0) Protocol_icmp) kEtherTypeIp"

theorem datagram_received_witness:
  "\<exists>w'. RecvDatagram libc_ext (raw_socket libc_ext queue_kernel 0) [] 8 (ip_start (link_start [datagram_frame]) [] [])
     = Ret (OkStatus, echo_message 0) w'"
  using datagram_received[OF qk.packet_kernel_axioms, of 0 "ip_start (link_start [datagram_frame]) [] []"
      "MacAddr 2 66 172 17 0 3" "MacAddr 2 66 172 17 0 2" "IpAddr 0x030011AC" "IpAddr 0x020011AC" "echo_message 0"
      Protocol_icmp "[]" libc_ext "[]"]
  by (auto simp: datagram_frame_def)

section \<open>The programs\<close>

text \<open>C14. \<open>arping --server\<close>, from its \<open>Main\<close> on: it opens its socket, and after as many turns of its
  loop as there are frames waiting, of 46 to 64 bytes each, it has sent, in order, exactly the
  replies the abstract responder gives for each, none for a damaged frame, and goes on running.\<close>

theorem arp_server_run:
  assumes "packet_kernel K kview open_fd idx" "can_open K open_fd (net (sys w)) k" "server (flags (sys w))"
    and "inbox (kview k) = fs @ rest" "\<forall>f\<in>set fs. 46 \<le> length f \<and> length f \<le> 64"
  shows "\<exists>w'. arping_Main E K (length fs) w = Ret None w'
    \<and> kview (kern (net (sys w'))) = (kview k)\<lparr>inbox := rest,
        outbox := outbox (kview k) @ concat (map (arp_service (kview k)) fs)\<rparr>"
proof -
  let ?ob = "next_obj (net (sys w))"
  obtain i where i: "RawSocket_CreateOrDie E K (sys w) = Ret ?ob i"
    "raw_up kview open_fd idx ?ob (net i)" "kern (net i) = k"
    using packet_kernel.create_run[OF assms(1,2)] by blast
  obtain j where "arping_loop E (raw_socket E K ?ob) (length fs) (w\<lparr>sys := i\<rparr>) = Ret () (w\<lparr>sys := j\<rparr>)"
    "kview (kern (net j)) = (kview k)\<lparr>inbox := rest, outbox := outbox (kview k) @ concat (map (arp_service (kview k)) fs)\<rparr>"
    using link_socket.arping_loop_run[OF raw_link[OF assms(1)], of ?ob "w\<lparr>sys := i\<rparr>" fs rest E E] i assms(4,5) by auto
  then show ?thesis
    using i(1) assms(3)
    by (simp add: arping_Main_def arping_Server_def on_io_def zoom_def bnd_run_if seq_run)
qed

theorem arp_server_run_witness:
  "\<exists>w'. arping_Main libc_ext queue_kernel 2
      (server_start (arp_start (link_b [arp_request_frame (link_start []) (IpAddr 0x030011AC), reply_frame]) [])) = Ret None w'
     \<and> outbox (kern (net (sys w'))) = [(reply_frame, MacAddr 2 66 172 17 0 2)]"
  using arp_server_run[OF qk.packet_kernel_axioms, of
      "server_start (arp_start (link_b [arp_request_frame (link_start []) (IpAddr 0x030011AC), reply_frame]) [])"
      "link_b [arp_request_frame (link_start []) (IpAddr 0x030011AC), reply_frame]"
      "[arp_request_frame (link_start []) (IpAddr 0x030011AC), reply_frame]" "[]" libc_ext]
  by (auto simp: arp_service_def arp_frame_facts arp_reply_facts arp_answer_def arp_reply_def reply_frame_def
      numeral_2_eq_2)

text \<open>C15. \<open>arping\<close> as a client, from its \<open>main\<close> on, when the address asked for is not in the cache and a
  valid reply from that address is waiting in a frame of 46 to 64 bytes: one request is broadcast and nothing else is sent, the
  reply is taken from the link, all the other requests asked for are answered from the cache,
  the exit status is 0 and the cache holds the address.\<close>

theorem arp_client_run:
  assumes "packet_kernel K kview open_fd idx" "can_open K open_fd (net (sys w)) k"
    and "parse argv (flags (sys w)) = Some fl" "\<not> server fl" "dest_ip fl \<noteq> []" "0 < num_requests fl"
    and "arp_view E (w\<lparr>sys := (sys w)\<lparr>flags := fl\<rparr>\<rparr>) = Some m" "map_ok m" "map_find m (IpAddr_FromString (dest_ip fl)) = None"
    and "inbox (kview k) = f # fs" "46 \<le> length f" "length f \<le> 64" "fcs_ok f"
    and "uint16_of_net (opcode (read_packet (eth_payload f))) = 2"
    and "src_ip_addr (read_packet (eth_payload f)) = IpAddr_FromString (dest_ip fl)"
  defines "ip \<equiv> IpAddr_FromString (dest_ip fl)" and "l \<equiv> kview k" and "mac \<equiv> src_hw_addr (read_packet (eth_payload f))"
  shows "\<exists>w'. arping_main parse E K turns argv w = Ret (Some 0) w'
    \<and> kview (kern (net (sys w'))) = l\<lparr>inbox := fs, outbox := outbox l @ [(arp_request_frame l ip, kBroadcastMac)]\<rparr>
    \<and> (\<exists>m'. arp_view E w' = Some m' \<and> map_find m' ip = Some mac)"
proof -
  let ?w = "w\<lparr>sys := (sys w)\<lparr>flags := fl\<rparr>\<rparr>" and ?ob = "next_obj (net (sys w))" and ?m = "map_put ip mac m"
  obtain i where i: "RawSocket_CreateOrDie E K (sys ?w) = Ret ?ob i" "same_files (sys ?w) i"
    "raw_up kview open_fd idx ?ob (net i)" "kern (net i) = k"
    using packet_kernel.create_run[OF assms(1), of "sys ?w" k E] assms(2) by auto
  note sk = raw_link[OF assms(1), of E ?ob]
  have at: "arp_view E (?w\<lparr>sys := i\<rparr>) = Some m"
    using assms(7) i(2) by (cases "arp_loaded w") (simp_all add: arp_view_def same_files_def read_file_def)
  obtain j where j: "ArpRoundTrip E (raw_socket E K ?ob) ip (?w\<lparr>sys := i\<rparr>) = Ret 0 (?w\<lparr>sys := j, g_arp_cache := ?m, arp_loaded := True\<rparr>)"
    "kview (kern (net j)) = l\<lparr>inbox := fs, outbox := outbox l @ [(arp_request_frame l ip, kBroadcastMac)]\<rparr>"
    using link_socket.round_trip_miss[OF sk, of "?w\<lparr>sys := i\<rparr>" f fs E m ip] i(3,4) at assms(9-15)
    unfolding ip_def l_def mac_def by auto
  have hit: "map_find ?m ip = Some mac"
    using map_find_map_put[OF assms(8)] by simp
  obtain w' where w': "arp_client_loop E (raw_socket E K ?ob) ip (nat (num_requests fl) - 1)
      (?w\<lparr>sys := j, g_arp_cache := ?m, arp_loaded := True\<rparr>) = Ret 0 w'" "net (sys w') = net j" "arp_view E w' = Some ?m"
    using link_socket.arp_client_loop_hits[OF sk _ hit, of E "?w\<lparr>sys := j, g_arp_cache := ?m, arp_loaded := True\<rparr>"]
    by (auto simp: arp_view_def)
  obtain n where n: "nat (num_requests fl) = Suc n"
    using assms(6) by (metis not0_implies_Suc zero_less_nat_eq less_irrefl)
  have "arping_main parse E K turns argv w = Ret (Some 0) w'"
    using i(1) j(1) w'(1) assms(3-5) n
    by (simp add: arping_main_def absl_main_def arp_flags_def arping_Main_def arping_Client_def bnd_run_if seq_run on_io_run ip_def Let_def)
  then show ?thesis
    using w' j(2) hit by (intro exI[of _ w']) simp
qed

text \<open>A reply from the host that the witness asks for.\<close>

definition client_reply :: bytes where
  "client_reply = eth_frame (MacAddr 2 66 172 17 0 3) (MacAddr 2 66 172 17 0 2)
     (mem_packet (make_arp_packet kArpResponse (MacAddr 2 66 172 17 0 3) (IpAddr_FromString ''172.17.0.3'')
       (MacAddr 2 66 172 17 0 2) (IpAddr 0x020011AC))) kEtherTypeArp"

lemma client_reply_facts:
  "fcs_ok client_reply" "length client_reply = 64"
  "read_packet (eth_payload client_reply) = make_arp_packet kArpResponse (MacAddr 2 66 172 17 0 3)
     (IpAddr_FromString ''172.17.0.3'') (MacAddr 2 66 172 17 0 2) (IpAddr 0x020011AC)"
  by (simp_all add: client_reply_def arp_reply_facts)

theorem arp_client_run_witness:
  "\<exists>w'. arping_main (\<lambda>argv fl. Some (fl\<lparr>dest_ip := ''172.17.0.3'', num_requests := 3\<rparr>)) libc_ext queue_kernel 0 []
     (arp_start (link_start [client_reply]) []) = Ret (Some 0) w' \<and> length (outbox (kern (net (sys w')))) = 1"
proof -
  let ?w = "arp_start (link_start [client_reply]) []"
  let ?fl = "(flags (sys ?w))\<lparr>dest_ip := ''172.17.0.3'', num_requests := 3\<rparr>"
  have "arp_view libc_ext (?w\<lparr>sys := (sys ?w)\<lparr>flags := ?fl\<rparr>\<rparr>) = Some []"
    "map_ok ([] :: (IpAddr, MacAddr) smap)" "map_find ([] :: (IpAddr, MacAddr) smap) (IpAddr_FromString (dest_ip ?fl)) = None"
    "\<not> server ?fl" "dest_ip ?fl \<noteq> []" "0 < num_requests ?fl"
    by (simp_all add: arp_view_def arp_start_def map_ok_def map_find_def default_flags_def)
  then show ?thesis
    using arp_client_run[OF qk.packet_kernel_axioms, of ?w "link_start [client_reply]"
        "\<lambda>argv fl. Some (fl\<lparr>dest_ip := ''172.17.0.3'', num_requests := 3\<rparr>)" "[]" ?fl libc_ext "[]" client_reply "[]" 0]
    by (auto simp: client_reply_facts)
qed

text \<open>C16. A run of \<open>ping\<close>, from its \<open>Main\<close> on, with a known next hop, a valid frame of 46 to 64 bytes waiting
  for each of the requests asked for, and a counter that stays an \<open>int\<close>, returns 0 and has sent one
  echo request per turn, with consecutive sequence numbers; what the frames hold is not looked at.\<close>

theorem ping_run_sends:
  assumes "packet_kernel K kview open_fd idx" "can_open K open_fd (net (sys (arp (ip_layer w)))) k"
    and "inbox (kview k) = fs @ rest" "\<forall>f\<in>set fs. 46 \<le> length f \<and> length f \<le> 64 \<and> fcs_ok f"
    and "echo_seq w + int (length fs) \<le> int_max"
    and "route_view (ip_layer w) = Some rt" "arp_view E (arp (ip_layer w)) = Some m"
    and "map_find m (route rt dst) = Some dmac"
    and "dest_ip (flags (sys (arp (ip_layer w)))) \<noteq> []" "num_requests (flags (sys (arp (ip_layer w)))) = int (length fs)"
    and "dst = IpAddr_FromString (dest_ip (flags (sys (arp (ip_layer w)))))"
  shows "\<exists>w'. ping_Main E K w = Ret 0 w'
    \<and> kview (kern (net (sys (arp (ip_layer w'))))) = (kview k)\<lparr>inbox := rest, outbox := outbox (kview k)
        @ map (\<lambda>n. echo_request_frame (kview k) dmac dst (echo_seq w + int n)) [0..<length fs]\<rparr>"
proof -
  let ?s = "sys (arp (ip_layer w))"
  let ?ob = "next_obj (net ?s)"
  obtain i where i: "RawSocket_CreateOrDie E K ?s = Ret ?ob i" "same_files ?s i"
    "raw_up kview open_fd idx ?ob (net i)" "kern (net i) = k"
    using packet_kernel.create_run[OF assms(1,2)] by blast
  let ?w = "w\<lparr>ip_layer := (ip_layer w)\<lparr>arp := (arp (ip_layer w))\<lparr>sys := i\<rparr>\<rparr>\<rparr>"
  have views: "route_view (ip_layer ?w) = Some rt" "arp_view E (arp (ip_layer ?w)) = Some m"
    using assms(6,7) i(2) by (simp_all add: route_view_sys arp_view_sys)
  obtain w' where "ping_loop E (raw_socket E K ?ob) dst (length fs) ?w = Ret 0 w'"
    "kview (kern (net (sys (arp (ip_layer w'))))) = (kview k)\<lparr>inbox := rest, outbox := outbox (kview k)
        @ map (\<lambda>n. echo_request_frame (kview k) dmac dst (echo_seq w + int n)) [0..<length fs]\<rparr>"
    using link_socket.ping_loop_run[OF raw_link[OF assms(1), of E ?ob], of ?w fs rest rt E m dst dmac]
      i(3,4) views assms(3-5,8) by auto
  moreover have "on_proc (RawSocket_CreateOrDie E K) w = Ret ?ob ?w"
    by (rule on_proc_run) (rule i(1))
  moreover have "on_proc (gets flags) w = Ret (flags ?s) w"
    using on_proc_run[of "gets flags" w "flags ?s" ?s] by simp
  ultimately show ?thesis
    using assms(9-11) by (simp add: ping_Main_def bnd_run_if Let_def)
qed

definition ping_start :: "link raw icmp_state" where
  "ping_start = \<lparr>ip_layer = \<lparr>arp = \<lparr>sys = (raw_start (link_start [datagram_frame]))
       \<lparr>flags := default_flags\<lparr>dest_ip := ''172.17.0.3''\<rparr>\<rparr>,
       g_arp_cache = [(IpAddr_FromString ''172.17.0.3'', MacAddr 2 66 172 17 0 3)], arp_loaded = True\<rparr>,
     g_routing_table = [], routes_loaded = True\<rparr>, echo_seq = 0\<rparr>"

theorem ping_run_sends_witness: "\<exists>w'. ping_Main libc_ext queue_kernel ping_start = Ret 0 w'"
proof -
  let ?m = "[(IpAddr_FromString ''172.17.0.3'', MacAddr 2 66 172 17 0 3)]"
  have start: "can_open queue_kernel (\<lambda>f k. f = 3) (net (sys (arp (ip_layer ping_start)))) (link_start [datagram_frame])"
    "inbox (link_start [datagram_frame]) = [datagram_frame] @ []"
    by (simp_all add: ping_start_def)
  have "46 \<le> length datagram_frame" "length datagram_frame \<le> 64" "fcs_ok datagram_frame"
    by (simp_all add: datagram_frame_def length_eth_frame fcs_ok_eth_frame)
  then have frames: "\<forall>f\<in>set [datagram_frame]. 46 \<le> length f \<and> length f \<le> 64 \<and> fcs_ok f"
    "echo_seq ping_start + int (length [datagram_frame]) \<le> int_max"
    by (simp_all add: ping_start_def int_max_def)
  have "route_view (ip_layer ping_start) = Some []" "arp_view libc_ext (arp (ip_layer ping_start)) = Some ?m"
    "map_find ?m (route [] (IpAddr_FromString ''172.17.0.3'')) = Some (MacAddr 2 66 172 17 0 3)"
    "dest_ip (flags (sys (arp (ip_layer ping_start)))) \<noteq> []"
    "num_requests (flags (sys (arp (ip_layer ping_start)))) = int (length [datagram_frame])"
    "IpAddr_FromString ''172.17.0.3'' = IpAddr_FromString (dest_ip (flags (sys (arp (ip_layer ping_start)))))"
    by (simp_all add: ping_start_def route_view_def arp_view_def default_flags_def route_def map_find_def)
  from ping_run_sends[OF qk.packet_kernel_axioms start frames this] show ?thesis
    by blast
qed

text \<open>C24. \<open>eth_echo --server\<close>, from its \<open>Main\<close> on, answers every frame of 19 to 64 bytes with one frame to
  the client that holds as many \<open>0xde\<close> bytes as the last valid frame had payload.\<close>

theorem eth_echo_server_run:
  assumes "packet_kernel K kview open_fd idx" "can_open K open_fd (net s) k" "server (flags s)"
    and "inbox (kview k) = fs @ rest" "\<forall>f\<in>set fs. 18 < length f \<and> length f \<le> 64"
  shows "\<exists>t. eth_echo_Main E K (length fs) s = Ret None t
    \<and> kview (kern (net t)) = (kview k)\<lparr>inbox := rest, outbox := outbox (kview k) @ echo_service 0 fs\<rparr>"
proof -
  let ?ob = "next_obj (net s)"
  obtain i where i: "RawSocket_CreateOrDie E K s = Ret ?ob i"
    "raw_up kview open_fd idx ?ob (net i)" "kern (net i) = k"
    using packet_kernel.create_run[OF assms(1,2)] by blast
  obtain q t where "echo_loop E (raw_socket E K ?ob) (length fs) [] i = Ret q t"
    "kview (kern (net t)) = (kview k)\<lparr>inbox := rest, outbox := outbox (kview k) @ echo_service 0 fs\<rparr>"
    using link_socket.echo_loop_run[OF raw_link[OF assms(1), of E ?ob], of i fs rest "[]" E] i(2,3) assms(4,5) by auto
  then show ?thesis
    using i(1) assms(3) by (simp add: eth_echo_Main_def eth_echo_Server_def bnd_run_if)
qed

theorem eth_echo_server_run_witness:
  "\<exists>t. eth_echo_Main libc_ext queue_kernel 1 (sys (server_start (arp_start (link_start [demo_frame]) []))) = Ret None t
     \<and> outbox (kern (net t)) = echo_service 0 [demo_frame]"
proof -
  have "18 < length demo_frame" "length demo_frame \<le> 64"
    by (simp_all add: demo_frame_def length_eth_frame)
  then show ?thesis
    using eth_echo_server_run[OF qk.packet_kernel_axioms, of "sys (server_start (arp_start (link_start [demo_frame]) []))"
        "link_start [demo_frame]" "[demo_frame]" "[]" libc_ext]
    by (auto simp del: echo_service.simps)
qed

end
